(* ===== verification/Sage_Prelude.thy ===== *)
theory Sage_Prelude
  imports Main "HOL-Library.Multiset" "HOL-Library.AList" "HOL-Library.List_Lexorder" "HOL-Library.Char_ord"
begin

text \<open>
  Shared vocabulary of the development: the error values of the modelled Python code and the
  sequencing of fallible steps, the string and list operations of the Python standard library
  that the sources use, and relational tables as lists of rows.

  Strings are Isabelle strings: one character per code point, so the model covers the code
  points below 256. Every length, slice and comparison below counts code points as Python does.
\<close>

named_theorems inv_intros \<open>preservation lemmas, one per operation\<close>
named_theorems table_simps \<open>rewriting of table updates\<close>


section \<open>Errors and fallible steps\<close>

text \<open>
  One constructor per exception class the modelled code raises. The messages of
  \<open>ValueError\<close> and \<open>TypeError\<close> carry the fixed part of the Python message.
\<close>

datatype py_error =
    ValueError string
  | TypeError string
  | KeyError string
  | AttributeError string
  | IntegrityError                       \<comment> \<open>sqlite3.IntegrityError\<close>
  | DatabaseError string                 \<comment> \<open>sqlite3.DatabaseError\<close>
  | JournalError string                  \<comment> \<open>SessionEventJournalError\<close>
  | CorruptionError string               \<comment> \<open>SessionEventJournalCorruptionError\<close>
  | OperationalError string              \<comment> \<open>SessionEventJournalOperationalError\<close>
  | LeaseConflict string                 \<comment> \<open>SessionRunLeaseConflictError, with the active run\<close>
  | RunLeaseLost string                  \<comment> \<open>SessionRunLeaseLostError\<close>
  | LeaseBusy string                     \<comment> \<open>LeaseBusyError of the loop harness\<close>
  | LeaseLost string                     \<comment> \<open>LeaseLostError of the loop harness\<close>
  | ActiveRunConflict string             \<comment> \<open>ActiveRunConflictError\<close>
  | CoordinatorError string              \<comment> \<open>RunCoordinatorError\<close>
  | Cancelled                            \<comment> \<open>asyncio.CancelledError\<close>
  | JobNotFound string                   \<comment> \<open>KnowledgeJobNotFoundError\<close>
  | JobConflict string                   \<comment> \<open>KnowledgeJobConflictError\<close>
  | RuntimeError string
  | OSError string

type_synonym 'a result = "py_error + 'a"

text \<open>What an \<open>except ValueError\<close> clause catches.\<close>

fun value_error :: "py_error \<Rightarrow> string option" where
  "value_error (ValueError message) = Some message"
| "value_error _ = None"

definition ebind :: "'e + 'a \<Rightarrow> ('a \<Rightarrow> 'e + 'b) \<Rightarrow> 'e + 'b" where
  "ebind m f = (case m of Inl e \<Rightarrow> Inl e | Inr x \<Rightarrow> f x)"

definition require :: "bool \<Rightarrow> 'e \<Rightarrow> 'e + unit" where
  "require c e = (if c then Inr () else Inl e)"

lemma ebind_simps [simp]:
  "ebind (Inl e) f = Inl e"
  "ebind (Inr x) f = f x"
  by (simp_all add: ebind_def)

lemma ebind_eq_Inr [simp]: "ebind m f = Inr y \<longleftrightarrow> (\<exists>x. m = Inr x \<and> f x = Inr y)"
  by (cases m) simp_all

lemma Inr_eq_ebind [simp]: "Inr y = ebind m f \<longleftrightarrow> (\<exists>x. m = Inr x \<and> f x = Inr y)"
  by (cases m) auto

lemma ebind_eq_Inl: "ebind m f = Inl e \<longleftrightarrow> m = Inl e \<or> (\<exists>x. m = Inr x \<and> f x = Inl e)"
  by (cases m) simp_all

lemma ebind_cong [fundef_cong]:
  "m = m' \<Longrightarrow> (\<And>x. m' = Inr x \<Longrightarrow> f x = f' x) \<Longrightarrow> ebind m f = ebind m' f'"
  by (cases m') simp_all

lemma require_simps [simp]:
  "require c e = Inr u \<longleftrightarrow> c"
  "require c e = Inl e' \<longleftrightarrow> \<not> c \<and> e' = e"
  "require True e = Inr ()"
  "require False e = Inl e"
  by (auto simp: require_def)

text \<open>A \<open>for\<close> loop whose body may raise: the first error leaves the loop.\<close>

fun efold :: "('s \<Rightarrow> 'x \<Rightarrow> 'e + 's) \<Rightarrow> 's \<Rightarrow> 'x list \<Rightarrow> 'e + 's" where
  "efold f s [] = Inr s"
| "efold f s (x # xs) = ebind (f s x) (\<lambda>s'. efold f s' xs)"

fun emap :: "('x \<Rightarrow> 'e + 'y) \<Rightarrow> 'x list \<Rightarrow> 'e + 'y list" where
  "emap f [] = Inr []"
| "emap f (x # xs) = ebind (f x) (\<lambda>y. ebind (emap f xs) (\<lambda>ys. Inr (y # ys)))"

lemma efold_append [simp]:
  "efold f s (xs @ ys) = ebind (efold f s xs) (\<lambda>s'. efold f s' ys)"
proof (induction xs arbitrary: s)
  case (Cons x xs)
  then show ?case by (cases "f s x") simp_all
qed simp

lemma efold_invariant:
  assumes "efold f s xs = Inr s'" and "P s"
    and "\<And>s x s'. x \<in> set xs \<Longrightarrow> P s \<Longrightarrow> f s x = Inr s' \<Longrightarrow> P s'"
  shows "P s'"
  using assms
proof (induction xs arbitrary: s)
  case (Cons x xs)
  from Cons.prems(1) obtain t where t: "f s x = Inr t" and rest: "efold f t xs = Inr s'"
    by auto
  have "P t" using Cons.prems(2,3) t by auto
  then show ?case using Cons.IH [OF rest] Cons.prems(3) by auto
qed simp

lemma emap_Inr_iff:
  "emap f xs = Inr ys \<longleftrightarrow> length ys = length xs \<and> (\<forall>i < length xs. f (xs ! i) = Inr (ys ! i))"
proof (induction xs arbitrary: ys)
  case (Cons x xs)
  then show ?case by (cases ys) (auto simp: nth_Cons split: nat.splits)
qed auto

lemma emap_setD: "emap f xs = Inr ys \<Longrightarrow> y \<in> set ys \<Longrightarrow> \<exists>x \<in> set xs. f x = Inr y"
  by (induction xs arbitrary: ys) auto

lemma emap_total: "(\<And>x. x \<in> set xs \<Longrightarrow> f x = Inr (g x)) \<Longrightarrow> emap f xs = Inr (map g xs)"
  by (induction xs) auto


section \<open>Python strings and lists\<close>

text \<open>\<open>str.isspace\<close> on the code points below 256, as \<open>strip()\<close> and \<open>split()\<close> use it.\<close>

definition is_py_space :: "char \<Rightarrow> bool" where
  "is_py_space c = (let n = of_char c :: int in
     n = 32 \<or> (9 \<le> n \<and> n \<le> 13) \<or> (28 \<le> n \<and> n \<le> 31) \<or> n = 133 \<or> n = 160)"

definition lstrip :: "string \<Rightarrow> string" where
  "lstrip s = dropWhile is_py_space s"

definition rstrip :: "string \<Rightarrow> string" where
  "rstrip s = rev (dropWhile is_py_space (rev s))"

definition strip :: "string \<Rightarrow> string" where
  "strip s = rstrip (lstrip s)"

lemma dropWhile_idem [simp]: "dropWhile P (dropWhile P xs) = dropWhile P xs"
  by (induction xs) auto

lemma strip_head: "s \<noteq> [] \<Longrightarrow> \<not> is_py_space (hd s) \<Longrightarrow> rstrip s \<noteq> [] \<Longrightarrow> \<not> is_py_space (hd (rstrip s))"
  unfolding rstrip_def
proof -
  assume s: "s \<noteq> []" "\<not> is_py_space (hd s)" and ne: "rev (dropWhile is_py_space (rev s)) \<noteq> []"
  obtain ps where "rev s = ps @ dropWhile is_py_space (rev s)"
    by (metis takeWhile_dropWhile_id)
  then have "s = rev (dropWhile is_py_space (rev s)) @ rev ps"
    by (metis rev_append rev_rev_ident)
  then have "hd (rev (dropWhile is_py_space (rev s))) = hd s"
    using ne by (metis hd_append2)
  then show "\<not> is_py_space (hd (rev (dropWhile is_py_space (rev s))))" using s by simp
qed

lemma strip_Nil [simp]: "strip [] = []"
  by (simp add: strip_def rstrip_def lstrip_def)

lemma strip_idem [simp]: "strip (strip s) = strip s"
proof (cases "strip s = []")
  case True
  then show ?thesis by simp
next
  case False
  then have ne: "lstrip s \<noteq> []" by (auto simp: strip_def rstrip_def)
  then have "\<not> is_py_space (hd (lstrip s))"
    unfolding lstrip_def by (rule hd_dropWhile)
  then have "\<not> is_py_space (hd (strip s))"
    unfolding strip_def using ne False strip_head [of "lstrip s"] by (simp add: strip_def)
  then have "lstrip (strip s) = strip s"
    using False by (cases "strip s") (auto simp: lstrip_def)
  then show ?thesis by (simp add: strip_def rstrip_def)
qed

text \<open>\<open>str.split()\<close> with no argument: maximal runs of non-space characters.\<close>

function split_words :: "string \<Rightarrow> string list" where
  "split_words s =
     (let t = lstrip s in
      if t = [] then [] else takeWhile (Not \<circ> is_py_space) t # split_words (dropWhile (Not \<circ> is_py_space) t))"
  by pat_completeness auto
termination
proof (relation "measure length", goal_cases)
  case (2 s x)
  then have ne: "dropWhile is_py_space s \<noteq> []" by (simp add: lstrip_def)
  then have "\<not> is_py_space (hd (dropWhile is_py_space s))" by (rule hd_dropWhile)
  with ne have "length (dropWhile (Not \<circ> is_py_space) (dropWhile is_py_space s))
      < length (dropWhile is_py_space s)"
    by (cases "dropWhile is_py_space s") (auto simp: le_imp_less_Suc length_dropWhile_le)
  also have "\<dots> \<le> length s" by (rule length_dropWhile_le)
  finally show ?case using 2 by (simp add: lstrip_def)
qed simp

declare split_words.simps [simp del]

definition join_words :: "string list \<Rightarrow> string" where
  "join_words ws = concat (case ws of [] \<Rightarrow> [] | w # rest \<Rightarrow> w # map (\<lambda>v. '' '' @ v) rest)"

definition all_digits :: "string \<Rightarrow> bool" where
  "all_digits s = (s \<noteq> [] \<and> list_all (\<lambda>c. 48 \<le> (of_char c :: int) \<and> (of_char c :: int) \<le> 57) s)"

definition starts_with :: "string \<Rightarrow> string \<Rightarrow> bool" where
  "starts_with s p = (take (length p) s = p)"

definition ends_with :: "string \<Rightarrow> string \<Rightarrow> bool" where
  "ends_with s p = starts_with (rev s) (rev p)"

text \<open>The truth value of an optional string: \<open>None\<close> and the empty string are false.\<close>

definition truthy :: "string option \<Rightarrow> bool" where
  "truthy v = (case v of None \<Rightarrow> False | Some s \<Rightarrow> s \<noteq> [])"

lemma truthy_simps [simp]: "\<not> truthy None" "truthy (Some s) \<longleftrightarrow> s \<noteq> []"
  by (simp_all add: truthy_def)

lemma truthyE: "truthy v \<Longrightarrow> (\<And>s. v = Some s \<Longrightarrow> s \<noteq> [] \<Longrightarrow> P) \<Longrightarrow> P"
  by (cases v) auto

text \<open>The slice \<open>xs[-n:]\<close> for a positive \<open>n\<close>.\<close>

definition take_last :: "nat \<Rightarrow> 'a list \<Rightarrow> 'a list" where
  "take_last n xs = drop (length xs - n) xs"

lemma length_take_last [simp]: "length (take_last n xs) = min n (length xs)"
  by (simp add: take_last_def)

lemma set_take_last_subset: "set (take_last n xs) \<subseteq> set xs"
  by (simp add: take_last_def set_drop_subset)

lemma distinct_take_last [simp]: "distinct xs \<Longrightarrow> distinct (take_last n xs)"
  by (simp add: take_last_def)

lemma take_last_all [simp]: "length xs \<le> n \<Longrightarrow> take_last n xs = xs"
  by (simp add: take_last_def)

lemma take_last_Cons:
  "take_last n (a # xs) = (if length xs < n then a # xs else take_last n xs)"
  by (simp add: take_last_def Suc_diff_le)

lemma set_take_last_sorted:
  assumes "sorted xs" and "distinct xs"
  shows "x \<in> set (take_last n xs) \<longleftrightarrow> x \<in> set xs \<and> card {y \<in> set xs. x < y} < n"
  using assms
proof (induction xs)
  case Nil
  then show ?case by (simp add: take_last_def)
next
  case (Cons a xs)
  have above: "{y \<in> set (a # xs). a < y} = set xs" using Cons.prems by (auto simp: order_less_le)
  have "card (set xs) = length xs" using Cons.prems by (simp add: distinct_card)
  with above have card_a: "card {y \<in> set (a # xs). a < y} = length xs" by simp
  have rest: "{y \<in> set (a # xs). x < y} = {y \<in> set xs. x < y}" if "x \<in> set xs"
    using that Cons.prems by auto
  have "card {y \<in> set xs. x < y} \<le> length xs" for x
    by (metis (no_types, lifting) card_length card_mono finite_set le_trans mem_Collect_eq subsetI)
  with Cons card_a rest show ?case
    by (cases "x = a") (auto simp: take_last_Cons le_less_trans)
qed

text \<open>The \<open>n\<close> largest elements of a finite set, in order: \<open>sorted(s)[-n:]\<close>.\<close>

definition largest :: "nat \<Rightarrow> 'a::linorder set \<Rightarrow> 'a list" where
  "largest n S = take_last n (sorted_list_of_set S)"

lemma set_largest:
  "finite S \<Longrightarrow> x \<in> set (largest n S) \<longleftrightarrow> x \<in> S \<and> card {y \<in> S. x < y} < n"
  unfolding largest_def by (subst set_take_last_sorted) auto

lemma largest_eqI:
  "finite S \<Longrightarrow> finite T \<Longrightarrow> set (largest n S) = set (largest n T) \<Longrightarrow> largest n S = largest n T"
  by (rule sorted_distinct_set_unique) (auto simp: largest_def take_last_def sorted_wrt_drop)

lemma length_largest: "finite S \<Longrightarrow> length (largest n S) = min n (card S)"
  by (simp add: largest_def)

lemma largest_cut:
  assumes S: "finite S" and y: "y \<in> S" "y \<notin> set (largest n S)"
  shows "n \<le> card (set (largest n S))" and "z \<in> set (largest n S) \<Longrightarrow> y < z"
proof -
  have big: "n \<le> card {w \<in> S. y < w}" using y S by (simp add: set_largest)
  also have "\<dots> \<le> card S" using S by (intro card_mono) auto
  finally show "n \<le> card (set (largest n S))" using S by (simp add: largest_def distinct_card)
  show "y < z" if "z \<in> set (largest n S)"
  proof (rule ccontr)
    assume "\<not> y < z"
    then have "{w \<in> S. y < w} \<subseteq> {w \<in> S. z < w}" by auto
    then have "card {w \<in> S. y < w} \<le> card {w \<in> S. z < w}" using S by (intro card_mono) auto
    then show False using that big S by (simp add: set_largest)
  qed
qed

text \<open>Cutting to the largest elements before adding more loses nothing that would survive.\<close>

lemma largest_absorb:
  assumes S: "finite S" and T: "finite T"
  shows "largest n (set (largest n S) \<union> T) = largest n (S \<union> T)"
proof (rule largest_eqI)
  let ?L = "set (largest n S)"
  have sub: "?L \<subseteq> S" using S by (auto simp: set_largest)
  have fin: "finite (S \<union> T)" "finite (?L \<union> T)" using S T by auto
  have mono: "card {y \<in> A. x < y} \<le> card {y \<in> B. x < y}"
    if "{y \<in> A. x < y} \<subseteq> {y \<in> B. x < y}" "finite B" for A B and x :: 'a
    using that by (intro card_mono) auto
  show "set (largest n (?L \<union> T)) = set (largest n (S \<union> T))"
  proof (intro set_eqI iffI)
    fix x assume x: "x \<in> set (largest n (S \<union> T))"
    then have few: "card {y \<in> S \<union> T. x < y} < n" and mem: "x \<in> S \<union> T"
      using set_largest [OF fin(1)] by blast+
    have "card {y \<in> S. x < y} \<le> card {y \<in> S \<union> T. x < y}" by (rule mono) (use fin in auto)
    then have "x \<in> ?L \<union> T" using mem few set_largest [OF S] by fastforce
    moreover have "card {y \<in> ?L \<union> T. x < y} \<le> card {y \<in> S \<union> T. x < y}"
      by (rule mono) (use fin sub in auto)
    ultimately show "x \<in> set (largest n (?L \<union> T))"
      using few set_largest [OF fin(2)] by fastforce
  next
    fix x assume x: "x \<in> set (largest n (?L \<union> T))"
    then have mem: "x \<in> S \<union> T" and few: "card {y \<in> ?L \<union> T. x < y} < n"
      using set_largest [OF fin(2)] sub by blast+
    have "y \<in> ?L" if y: "y \<in> S" "x < y" for y
    proof (rule ccontr)
      assume out: "y \<notin> ?L"
      have "?L \<subseteq> {z \<in> ?L \<union> T. x < z}"
        using largest_cut(2) [OF S y(1) out] y(2) by fastforce
      then have "card ?L \<le> card {z \<in> ?L \<union> T. x < z}" using fin by (intro card_mono) auto
      then show False using few largest_cut(1) [OF S y(1) out] by simp
    qed
    then have "card {y \<in> S \<union> T. x < y} \<le> card {y \<in> ?L \<union> T. x < y}"
      by (intro mono) (use fin in auto)
    then show "x \<in> set (largest n (S \<union> T))"
      using mem few set_largest [OF fin(1)] by fastforce
  qed
qed (use S T in auto)

text \<open>\<open>list(dict.fromkeys(xs))\<close>: duplicates removed, the first occurrence kept.\<close>

fun fromkeys :: "'a list \<Rightarrow> 'a list" where
  "fromkeys [] = []"
| "fromkeys (x # xs) = x # filter (\<lambda>y. y \<noteq> x) (fromkeys xs)"

lemma set_fromkeys [simp]: "set (fromkeys xs) = set xs"
  by (induction xs) auto

lemma distinct_fromkeys [simp]: "distinct (fromkeys xs)"
  by (induction xs) auto

lemma fromkeys_distinct [simp]: "distinct xs \<Longrightarrow> fromkeys xs = xs"
  by (induction xs) (auto simp: filter_id_conv)


lemma upto_snoc: "a \<le> b + 1 \<Longrightarrow> [a..b + 1] = [a..b] @ [b + 1 :: int]"
  using upto_rec2 [of a "b + 1"] by simp

lemma filter_upto_after:
  assumes "map f xs = [a..b]" and "a - 1 \<le> c"
  shows "filter (\<lambda>x. c < f x) xs = drop (nat (c - (a - 1))) xs"
  using assms
proof (induction xs arbitrary: a)
  case (Cons x xs)
  from Cons.prems(1) have ab: "a \<le> b" by (metis list.map_disc_iff list.distinct(1) upto_Nil2 linorder_not_less)
  then have "[a..b] = a # [a + 1..b]" by (rule upto_rec1)
  with Cons.prems(1) have x: "f x = a" and xs: "map f xs = [a + 1..b]" by auto
  show ?case
  proof (cases "c = a - 1")
    case True
    have "\<forall>y \<in> set xs. c < f y"
    proof
      fix y assume "y \<in> set xs"
      then have "f y \<in> set [a + 1..b]" using xs by (metis imageI set_map)
      then show "c < f y" using True by simp
    qed
    then show ?thesis using True x by (simp add: filter_id_conv)
  next
    case False
    with Cons.prems(2) have "a \<le> c" by simp
    then have "filter (\<lambda>x. c < f x) xs = drop (nat (c - (a + 1 - 1))) xs"
      using Cons.IH [OF xs] by simp
    moreover have "nat (c - (a - 1)) = Suc (nat (c - a))" using \<open>a \<le> c\<close> by simp
    ultimately show ?thesis using x \<open>a \<le> c\<close> by simp
  qed
qed simp

lemma filter_upto_before:
  assumes "map f xs = [1..int (length xs)]" and "1 \<le> b"
  shows "filter (\<lambda>x. f x < b) xs = take (nat (b - 1)) xs"
  using assms(1)
proof (induction xs rule: rev_induct)
  case (snoc x xs)
  have "[1..int (length (xs @ [x]))] = [1..int (length xs)] @ [int (length xs) + 1]"
    using upto_snoc [of 1 "int (length xs)"] by (simp add: add.commute)
  with snoc.prems have xs: "map f xs = [1..int (length xs)]" and x: "f x = int (length xs) + 1" by auto
  show ?case
  proof (cases "f x < b")
    case True
    then have "length xs < nat (b - 1)" using x by simp
    then show ?thesis using snoc.IH [OF xs] True by simp
  next
    case False
    then have "nat (b - 1) \<le> length xs" using x assms(2) by simp
    then show ?thesis using snoc.IH [OF xs] False by simp
  qed
qed simp

lemma drop_upto: "drop n [a..b] = [a + int n..b]"
proof (induction n arbitrary: a)
  case (Suc n)
  show ?case
  proof (cases "a \<le> b")
    case True
    then show ?thesis using Suc [of "a + 1"] by (simp add: upto_rec1 algebra_simps)
  qed simp
qed simp

lemma take_upto: "take n [a..b] = [a..min (a + int n - 1) b]"
proof (induction n arbitrary: a)
  case (Suc n)
  show ?case
  proof (cases "a \<le> b")
    case True
    then have "take (Suc n) [a..b] = a # [a + 1..min (a + int n) b]"
      using Suc [of "a + 1"] by (simp add: upto_rec1)
    also have "\<dots> = [a..min (a + int n) b]" using True by (simp add: upto_rec1)
    finally show ?thesis by (simp add: algebra_simps)
  qed simp
qed simp


section \<open>Tables as lists of rows\<close>

text \<open>
  A SQL table is the list of its rows. \<open>UPDATE \<dots> WHERE\<close> maps over the rows that satisfy
  the condition, \<open>rowcount\<close> is the number of such rows, \<open>DELETE \<dots> WHERE\<close> filters
  them out and \<open>fetchone()\<close> is the first match.
\<close>

definition update_where :: "('r \<Rightarrow> bool) \<Rightarrow> ('r \<Rightarrow> 'r) \<Rightarrow> 'r list \<Rightarrow> 'r list" where
  "update_where P f rows = map (\<lambda>r. if P r then f r else r) rows"

definition rowcount :: "('r \<Rightarrow> bool) \<Rightarrow> 'r list \<Rightarrow> nat" where
  "rowcount P rows = length (filter P rows)"

definition delete_where :: "('r \<Rightarrow> bool) \<Rightarrow> 'r list \<Rightarrow> 'r list" where
  "delete_where P rows = filter (Not \<circ> P) rows"

definition fetchone :: "('r \<Rightarrow> bool) \<Rightarrow> 'r list \<Rightarrow> 'r option" where
  "fetchone P rows = List.find P rows"

lemma fetchone_None [simp]: "fetchone P rows = None \<longleftrightarrow> (\<forall>r \<in> set rows. \<not> P r)"
  by (auto simp: fetchone_def find_None_iff)

lemma fetchone_SomeD: "fetchone P rows = Some r \<Longrightarrow> r \<in> set rows \<and> P r"
  by (auto simp: fetchone_def find_Some_iff)

lemma fetchone_ex: "(\<exists>r. fetchone P rows = Some r) \<longleftrightarrow> (\<exists>r \<in> set rows. P r)"
  by (metis fetchone_None not_None_eq)

lemma fetchone_unique:
  "r \<in> set rows \<Longrightarrow> P r \<Longrightarrow> (\<And>r'. r' \<in> set rows \<Longrightarrow> P r' \<Longrightarrow> r' = r) \<Longrightarrow> fetchone P rows = Some r"
  by (metis fetchone_SomeD fetchone_None not_None_eq)

lemma set_update_where [simp]:
  "set (update_where P f rows) = (\<lambda>r. if P r then f r else r) ` set rows"
  by (simp add: update_where_def)

lemma length_update_where [simp]: "length (update_where P f rows) = length rows"
  by (simp add: update_where_def)

lemma map_update_where [table_simps]:
  "(\<And>r. P r \<Longrightarrow> k (f r) = k r) \<Longrightarrow> map k (update_where P f rows) = map k rows"
  by (auto simp: update_where_def)

lemma filter_update_where:
  "(\<And>r. P r \<Longrightarrow> \<not> Q r) \<Longrightarrow> (\<And>r. P r \<Longrightarrow> \<not> Q (f r)) \<Longrightarrow> filter Q (update_where P f rows) = filter Q rows"
  by (induction rows) (auto simp: update_where_def)

lemma set_delete_where [simp]: "set (delete_where P rows) = {r \<in> set rows. \<not> P r}"
  by (auto simp: delete_where_def)

lemma distinct_map_delete_where [simp]:
  "distinct (map k rows) \<Longrightarrow> distinct (map k (delete_where P rows))"
  by (simp add: delete_where_def distinct_map_filter)

lemma rowcount_0 [simp]: "rowcount P rows = 0 \<longleftrightarrow> (\<forall>r \<in> set rows. \<not> P r)"
  by (simp add: rowcount_def filter_empty_conv)

lemma rowcount_key:
  assumes "distinct (map k rows)" and "\<And>r. P r \<Longrightarrow> k r = v"
  shows "rowcount P rows \<le> 1"
proof -
  have "distinct (map k (filter P rows))" using assms(1) by (simp add: distinct_map_filter)
  moreover have "set (map k (filter P rows)) \<subseteq> {v}" using assms(2) by auto
  ultimately have "length (map k (filter P rows)) \<le> card {v}"
    by (metis distinct_card card_mono finite.intros)
  then show ?thesis by (simp add: rowcount_def)
qed

lemma map_key_inj:
  "distinct (map k rows) \<Longrightarrow> r \<in> set rows \<Longrightarrow> r' \<in> set rows \<Longrightarrow> k r = k r' \<Longrightarrow> r = r'"
  by (simp add: distinct_map inj_on_def)

end
