(* ===== verification/Json_Payload.thy ===== *)
theory Json_Payload
  imports Sage_Prelude
begin

text \<open>
  Python values as they flow through event payloads and ledger entries, and the strict JSON
  discipline of \<open>core/coding/persistence/session_event_journal.py\<close>: which values may be
  stored, the canonical document that \<open>json.dumps(\<dots>, sort_keys=True)\<close> writes, its size in
  bytes, and what \<open>json.loads\<close> with the journal's hooks accepts when a row is read back.
\<close>

section \<open>Values\<close>

text \<open>
  A float is represented by its \<open>repr\<close>, which determines it. A dict is the list of its
  items in insertion order. \<open>POther\<close> stands for every object that is none of the listed
  types (tuples, sets, user classes).
\<close>

datatype pyval =
    PNone
  | PBool bool
  | PInt int
  | PFloat string
  | PStr string
  | PList "pyval list"
  | PDict "(pyval \<times> pyval) list"
  | POther

type_synonym pydict = "(pyval \<times> pyval) list"

text \<open>\<open>d.get(key)\<close> for a string key; the missing key and a stored \<open>None\<close> agree.\<close>

definition dict_get :: "pydict \<Rightarrow> string \<Rightarrow> pyval" where
  "dict_get d k = (case map_of d (PStr k) of None \<Rightarrow> PNone | Some v \<Rightarrow> v)"

definition nonfinite_reprs :: "string list" where
  "nonfinite_reprs = [''nan'', ''inf'', ''-inf'', ''NaN'', ''Infinity'', ''-Infinity'']"

definition float_isfinite :: "string \<Rightarrow> bool" where
  "float_isfinite r = (r \<notin> set nonfinite_reprs)"

fun is_pystr :: "pyval \<Rightarrow> bool" where
  "is_pystr (PStr _) = True"
| "is_pystr _ = False"

text \<open>Decimal digits, \<open>repr\<close> and \<open>str\<close> of JSON-like values.\<close>

fun show_nat :: "nat \<Rightarrow> string" where
  "show_nat n = (if n < 10 then [char_of (48 + n)] else show_nat (n div 10) @ [char_of (48 + n mod 10)])"

declare show_nat.simps [simp del]

definition show_int :: "int \<Rightarrow> string" where
  "show_int i = (if i < 0 then ''-'' @ show_nat (nat (- i)) else show_nat (nat i))"

definition hex_digit :: "nat \<Rightarrow> char" where
  "hex_digit n = (if n < 10 then char_of (48 + n) else char_of (87 + n))"

definition repr_char :: "char \<Rightarrow> char \<Rightarrow> string" where
  "repr_char q c = (let n = of_char c :: nat in
     if c = q \<or> n = 92 then [char_of (92 :: nat), c]
     else if n = 10 then [char_of (92 :: nat), CHR ''n'']
     else if n = 13 then [char_of (92 :: nat), CHR ''r'']
     else if n = 9 then [char_of (92 :: nat), CHR ''t'']
     else if n < 32 \<or> (127 \<le> n \<and> n \<le> 160) \<or> n = 173
       then [char_of (92 :: nat), CHR ''x'', hex_digit (n div 16), hex_digit (n mod 16)]
     else [c])"

definition repr_string :: "string \<Rightarrow> string" where
  "repr_string s =
     (let q = (if char_of (39 :: nat) \<in> set s \<and> char_of (34 :: nat) \<notin> set s
               then char_of (34 :: nat) else char_of (39 :: nat))
      in [q] @ concat (map (repr_char q) s) @ [q])"

fun comma_sep :: "string list \<Rightarrow> string" where
  "comma_sep [] = []"
| "comma_sep [x] = x"
| "comma_sep (x # y # ys) = x @ '', '' @ comma_sep (y # ys)"

fun py_repr :: "pyval \<Rightarrow> string" where
  "py_repr PNone = ''None''"
| "py_repr (PBool b) = (if b then ''True'' else ''False'')"
| "py_repr (PInt i) = show_int i"
| "py_repr (PFloat r) = r"
| "py_repr (PStr s) = repr_string s"
| "py_repr (PList vs) = ''['' @ comma_sep (map py_repr vs) @ '']''"
| "py_repr (PDict d) =
     ''{'' @ comma_sep (map (\<lambda>kv. py_repr (fst kv) @ '': '' @ py_repr (snd kv)) d) @ ''}''"
| "py_repr POther = []"

definition py_str :: "pyval \<Rightarrow> string" where
  "py_str v = (case v of PStr s \<Rightarrow> s | _ \<Rightarrow> py_repr v)"

lemma py_str_PStr [simp]: "py_str (PStr s) = s"
  by (simp add: py_str_def)

text \<open>\<open>str(d.get(key, ""))\<close>.\<close>

definition get_str :: "pydict \<Rightarrow> string \<Rightarrow> string" where
  "get_str d k = (case map_of d (PStr k) of None \<Rightarrow> [] | Some v \<Rightarrow> py_str v)"

section \<open>Strict values\<close>

fun strict_json_value :: "pyval \<Rightarrow> bool" where
  "strict_json_value PNone = True"
| "strict_json_value (PBool _) = True"
| "strict_json_value (PInt _) = True"
| "strict_json_value (PStr _) = True"
| "strict_json_value (PFloat r) = float_isfinite r"
| "strict_json_value (PList vs) = list_all strict_json_value vs"
| "strict_json_value (PDict d) = list_all (\<lambda>kv. is_pystr (fst kv) \<and> strict_json_value (snd kv)) d"
| "strict_json_value POther = False"

fun all_numbers_finite :: "pyval \<Rightarrow> bool" where
  "all_numbers_finite (PFloat r) = float_isfinite r"
| "all_numbers_finite (PDict d) = list_all (\<lambda>kv. all_numbers_finite (snd kv)) d"
| "all_numbers_finite (PList vs) = list_all all_numbers_finite vs"
| "all_numbers_finite _ = True"

text \<open>
  A Python dict never holds a key twice; parsed JSON text may, until the
  \<open>object_pairs_hook\<close> refuses it.
\<close>

fun unique_objects :: "pyval \<Rightarrow> bool" where
  "unique_objects (PList vs) = list_all unique_objects vs"
| "unique_objects (PDict d) =
     (distinct (map fst d) \<and> list_all (\<lambda>kv. unique_objects (snd kv)) d)"
| "unique_objects _ = True"


section \<open>The stored document\<close>

text \<open>
  A stored payload text is represented by the tree \<open>json.loads\<close> builds from it before any
  hook runs: objects as the list of their pairs in text order, duplicates included; the constants
  \<open>NaN\<close>, \<open>Infinity\<close> and \<open>-Infinity\<close> as floats spelt that way; a number that
  overflows as \<open>inf\<close>. A text that is not JSON at all is \<open>NotJson\<close>.
\<close>

datatype json_text = JsonText pyval | NotJson

fun key_text :: "pyval \<Rightarrow> string" where
  "key_text (PStr s) = s"
| "key_text _ = []"

fun canon :: "pyval \<Rightarrow> pyval" where
  "canon (PList vs) = PList (map canon vs)"
| "canon (PDict d) = PDict (sort_key (\<lambda>kv. key_text (fst kv)) (map (\<lambda>kv. (fst kv, canon (snd kv))) d))"
| "canon v = v"

definition dumps :: "pydict \<Rightarrow> json_text" where
  "dumps d = JsonText (canon (PDict d))"

text \<open>The UTF-8 length of the text that \<open>json.dumps\<close> with compact separators writes.\<close>

definition escaped_bytes :: "char \<Rightarrow> int" where
  "escaped_bytes c = (let n = of_char c :: int in
     if n = 34 \<or> n = 92 \<or> n = 8 \<or> n = 9 \<or> n = 10 \<or> n = 12 \<or> n = 13 then 2
     else if n < 32 then 6
     else if n < 128 then 1 else 2)"

definition string_bytes :: "string \<Rightarrow> int" where
  "string_bytes s = 2 + sum_list (map escaped_bytes s)"

function decimal_digits :: "int \<Rightarrow> int" where
  "decimal_digits n = (if n < 10 then 1 else 1 + decimal_digits (n div 10))"
  by pat_completeness auto
termination
  by (relation "measure nat") auto

declare decimal_digits.simps [simp del]

definition int_chars :: "int \<Rightarrow> int" where
  "int_chars i = (if i < 0 then 1 else 0) + decimal_digits \<bar>i\<bar>"

text \<open>The commas between \<open>n\<close> members.\<close>

definition separators :: "'a list \<Rightarrow> int" where
  "separators xs = (case xs of [] \<Rightarrow> 0 | _ # rest \<Rightarrow> int (length rest))"

fun json_bytes :: "pyval \<Rightarrow> int" where
  "json_bytes PNone = 4"
| "json_bytes (PBool b) = (if b then 4 else 5)"
| "json_bytes (PInt i) = int_chars i"
| "json_bytes (PFloat r) = int (length r)"
| "json_bytes (PStr s) = string_bytes s"
| "json_bytes (PList vs) = 2 + separators vs + sum_list (map json_bytes vs)"
| "json_bytes (PDict d) =
     2 + separators d + sum_list (map (\<lambda>kv. string_bytes (key_text (fst kv)) + 1 + json_bytes (snd kv)) d)"
| "json_bytes POther = 0"

text \<open>
  \<open>int.__repr__\<close> raises for more than 4300 digits, which \<open>json.dumps\<close> reports as a
  \<open>ValueError\<close>.
\<close>

fun ints_printable :: "pyval \<Rightarrow> bool" where
  "ints_printable (PInt i) = (decimal_digits \<bar>i\<bar> \<le> 4300)"
| "ints_printable (PList vs) = list_all ints_printable vs"
| "ints_printable (PDict d) = list_all (\<lambda>kv. ints_printable (snd kv)) d"
| "ints_printable _ = True"

fun has_constant :: "pyval \<Rightarrow> bool" where
  "has_constant (PFloat r) = (r \<in> {''NaN'', ''Infinity'', ''-Infinity''})"
| "has_constant (PList vs) = list_ex has_constant vs"
| "has_constant (PDict d) = list_ex (\<lambda>kv. has_constant (snd kv)) d"
| "has_constant _ = False"

definition load_payload :: "json_text \<Rightarrow> pydict result" where
  "load_payload t = (case t of
     NotJson \<Rightarrow> Inl (CorruptionError ''stored payload is not strict JSON'')
   | JsonText v \<Rightarrow>
       if has_constant v \<or> \<not> unique_objects v
       then Inl (CorruptionError ''stored payload is not strict JSON'')
       else (case v of
           PDict d \<Rightarrow> if all_numbers_finite v then Inr d
                     else Inl (CorruptionError ''stored payload must be a JSON object'')
         | _ \<Rightarrow> Inl (CorruptionError ''stored payload must be a JSON object'')))"


section \<open>Round trip of strict payloads\<close>

lemma strict_no_constant: "strict_json_value v \<Longrightarrow> \<not> has_constant v"
  by (induction v rule: strict_json_value.induct)
    (auto simp: float_isfinite_def nonfinite_reprs_def list_all_iff list_ex_iff)

lemma strict_finite: "strict_json_value v \<Longrightarrow> all_numbers_finite v"
  by (induction v rule: strict_json_value.induct) (auto simp: list_all_iff)

lemma strict_canon [simp]: "strict_json_value (canon v) = strict_json_value v"
  by (induction v rule: canon.induct) (auto simp: list_all_iff)

lemma key_text_inj: "is_pystr k \<Longrightarrow> is_pystr k' \<Longrightarrow> key_text k = key_text k' \<Longrightarrow> k = k'"
  by (cases k; cases k') auto

lemma distinct_canon_keys:
  "distinct (map fst (sort_key f (map (\<lambda>kv. (fst kv, canon (snd kv))) d))) = distinct (map fst d)"
proof -
  have "mset (map fst (sort_key f (map (\<lambda>kv. (fst kv, canon (snd kv))) d))) = mset (map fst d)"
    by (simp add: multiset.map_comp comp_def)
  then show ?thesis using mset_eq_imp_distinct_iff by blast
qed

lemma unique_canon [simp]: "unique_objects (canon v) = unique_objects v"
proof (induction v rule: canon.induct)
  case (2 d)
  let ?d' = "map (\<lambda>kv. (fst kv, canon (snd kv))) d"
  have "list_all (\<lambda>kv. unique_objects (snd kv)) (sort_key (\<lambda>kv. key_text (fst kv)) ?d')
      = list_all (\<lambda>kv. unique_objects (snd kv)) d"
    using 2 by (auto simp: list_all_iff)
  then show ?case by (simp add: distinct_canon_keys)
qed (auto simp: list_all_iff)

lemma map_of_canon:
  assumes "distinct (map fst d)"
  shows "map_of (sort_key (\<lambda>kv. key_text (fst kv)) (map (\<lambda>kv. (fst kv, canon (snd kv))) d)) k
    = map_option canon (map_of d k)"
proof -
  let ?d' = "map (\<lambda>kv. (fst kv, canon (snd kv))) d"
  let ?s = "sort_key (\<lambda>kv. key_text (fst kv)) ?d'"
  have keys: "map fst ?d' = map fst d" by (simp add: comp_def)
  have "distinct (map fst ?s)" using assms by (simp only: distinct_canon_keys)
  then have "map_of ?s k = map_of ?d' k"
    using assms keys map_of_inject_set [of ?s ?d'] by (simp add: comp_def)
  also have "map_of ?d' k = map_option canon (map_of d k)"
    by (induction d) auto
  finally show ?thesis by simp
qed

text \<open>Writing a strict payload and reading it back yields the same dict up to key order.\<close>

lemma load_dumps:
  assumes "strict_json_value (PDict d)" and "unique_objects (PDict d)"
  shows "\<exists>d'. load_payload (dumps d) = Inr d' \<and> canon (PDict d) = PDict d' \<and>
           (\<forall>k. dict_get d' k = canon (dict_get d k))"
proof -
  let ?d' = "sort_key (\<lambda>kv. key_text (fst kv)) (map (\<lambda>kv. (fst kv, canon (snd kv))) d)"
  have c: "canon (PDict d) = PDict ?d'" by simp
  have "strict_json_value (PDict ?d')" using assms(1) c by (metis strict_canon)
  moreover have "unique_objects (PDict ?d')" using assms(2) c by (metis unique_canon)
  ultimately have "load_payload (dumps d) = Inr ?d'"
    unfolding load_payload_def dumps_def c
    using strict_no_constant strict_finite by (simp del: unique_objects.simps strict_json_value.simps
      all_numbers_finite.simps has_constant.simps)
  moreover have "\<forall>k. dict_get ?d' k = canon (dict_get d k)"
    using assms(2) by (simp add: dict_get_def map_of_canon split: option.splits)
  ultimately show ?thesis using c by blast
qed

end
