(* ===== verification/Interfaces.thy ===== *)
theory Interfaces
  imports Sage_Prelude
begin

text \<open>
  The contracts that several components of the program share, each as a locale: a register
  whose terminal status is final, a ledger of entries keyed by a stable id, a lease guarded by
  a monotone fencing token, and a log of sequence-numbered events read in pages. The component
  theories interpret them on the model of the code.
\<close>

section \<open>Terminal registers\<close>

text \<open>
  A channel that keeps one optional value with a status. The provider promises that an update
  with nothing leaves the value alone and that a value with a terminal status keeps it.
\<close>

locale terminal_register =
  fixes merge :: "'v option \<Rightarrow> 'v option \<Rightarrow> 'v option result"
    and status :: "'v \<Rightarrow> string option"
    and terminal :: "string set"
  assumes merge_nothing: "merge x None = Inr x"
    and merge_first: "merge None x = Inr x"
    and merge_present: "merge (Some e) n = Inr r \<Longrightarrow> \<exists>v. r = Some v"
    and merge_terminal:
      "merge (Some e) n = Inr (Some v) \<Longrightarrow> status e = Some s \<Longrightarrow> s \<in> terminal \<Longrightarrow> status v = Some s"
begin

lemma terminal_final:
  assumes "efold merge (Some e) us = Inr r" and "status e = Some s" and "s \<in> terminal"
  shows "\<exists>v. r = Some v \<and> status v = Some s"
proof -
  have "\<exists>v. r = Some v \<and> status v = Some s"
    by (rule efold_invariant [OF assms(1)]) (use assms merge_present merge_terminal in blast)+
  then show ?thesis .
qed

lemma terminal_unique:
  assumes "efold merge v0 us = Inr (Some v)" and "efold merge (Some v) ws = Inr (Some w)"
    and "status v = Some s" and "s \<in> terminal"
  shows "efold merge v0 (us @ ws) = Inr (Some w) \<and> status w = Some s"
  using assms terminal_final [OF assms(2-4)] by simp

end


section \<open>Keyed ledgers\<close>

text \<open>
  The reducers that deduplicate entries by a stable id keep a dict from id to entry and the
  list of ids in order. \<open>read_ledger\<close> is the final list comprehension
  \<open>[by_id[i] for i in order[-cap:]]\<close>, where a missing id raises \<open>KeyError\<close>.
\<close>

record 'e ledger =
  by_id :: "(string \<times> 'e) list"
  order :: "string list"

definition empty_ledger :: "'e ledger" where
  "empty_ledger = \<lparr>by_id = [], order = []\<rparr>"

definition read_ledger :: "nat \<Rightarrow> 'e ledger \<Rightarrow> 'e list result" where
  "read_ledger cap l =
     emap (\<lambda>i. case map_of (by_id l) i of None \<Rightarrow> Inl (KeyError i) | Some e \<Rightarrow> Inr e)
       (take_last cap (order l))"

definition ledger_ok :: "('e \<Rightarrow> string option) \<Rightarrow> 'e ledger \<Rightarrow> bool" where
  "ledger_ok key l \<longleftrightarrow> distinct (order l) \<and> set (order l) = dom (map_of (by_id l)) \<and>
     (\<forall>i e. map_of (by_id l) i = Some e \<longrightarrow> key e = Some i)"

lemma ledger_ok_empty [simp]: "ledger_ok key empty_ledger"
  by (simp add: ledger_ok_def empty_ledger_def)

lemma ledger_ok_replace:
  assumes "ledger_ok key l" and "key e = Some i" and "i \<in> set (order l)"
  shows "ledger_ok key (l\<lparr>by_id := AList.update i e (by_id l)\<rparr>)"
  using assms by (auto simp: ledger_ok_def update_conv' split: if_splits)

lemma ledger_ok_append:
  assumes "ledger_ok key l" and "key e = Some i" and "i \<notin> set (order l)"
  shows "ledger_ok key (l\<lparr>order := order l @ [i], by_id := AList.update i e (by_id l)\<rparr>)"
  using assms by (auto simp: ledger_ok_def update_conv' split: if_splits)

lemma read_ledger_ok:
  assumes "ledger_ok key l"
  shows "\<exists>es. read_ledger cap l = Inr es \<and> map key es = map Some (take_last cap (order l)) \<and>
           length es \<le> cap \<and> distinct (map key es)"
proof -
  let ?ids = "take_last cap (order l)"
  have dom: "\<exists>e. map_of (by_id l) i = Some e \<and> key e = Some i" if "i \<in> set ?ids" for i
  proof -
    from that have "i \<in> set (order l)" using set_take_last_subset by fastforce
    then show ?thesis using assms by (auto simp: ledger_ok_def dom_def)
  qed
  have "read_ledger cap l = Inr (map (\<lambda>i. the (map_of (by_id l) i)) ?ids)"
    unfolding read_ledger_def by (rule emap_total) (use dom in force)
  moreover have keys: "map key (map (\<lambda>i. the (map_of (by_id l) i)) ?ids) = map Some ?ids"
    using dom by force
  moreover have "distinct (map key (map (\<lambda>i. the (map_of (by_id l) i)) ?ids))"
    unfolding keys using assms by (simp add: ledger_ok_def distinct_map)
  ultimately show ?thesis by auto
qed

lemma read_ledger_mem:
  assumes "read_ledger cap l = Inr es" and "e \<in> set es"
  shows "\<exists>i \<in> set (order l). map_of (by_id l) i = Some e"
proof -
  from assms(2) obtain n where n: "n < length es" "es ! n = e" by (auto simp: in_set_conv_nth)
  with assms(1) have "n < length (take_last cap (order l))"
    and "map_of (by_id l) (take_last cap (order l) ! n) = Some e"
    by (auto simp: read_ledger_def emap_Inr_iff split: option.splits)
  moreover have "take_last cap (order l) ! n \<in> set (order l)"
    using nth_mem [OF calculation(1)] set_take_last_subset [of cap "order l"] by blast
  ultimately show ?thesis by blast
qed

text \<open>
  The contract of one loop body: it keeps the ledger consistent, and it never forgets an id it
  has seen.
\<close>

locale keyed_ledger =
  fixes key :: "'e \<Rightarrow> string option"
    and step :: "'e ledger \<Rightarrow> 'x \<Rightarrow> 'e ledger result"
    and cap :: nat
  assumes step_ok: "ledger_ok key l \<Longrightarrow> step l x = Inr l' \<Longrightarrow> ledger_ok key l'"
    and step_grows: "ledger_ok key l \<Longrightarrow> step l x = Inr l' \<Longrightarrow> set (order l) \<subseteq> set (order l')"
begin

lemma fold_ok: "ledger_ok key l \<Longrightarrow> efold step l xs = Inr l' \<Longrightarrow> ledger_ok key l'"
  by (erule efold_invariant) (auto intro: step_ok)

lemma fold_grows:
  assumes "ledger_ok key l" and "efold step l xs = Inr l'"
  shows "set (order l) \<subseteq> set (order l')"
proof -
  have "ledger_ok key l' \<and> set (order l) \<subseteq> set (order l')"
    by (rule efold_invariant [OF assms(2)]) (use assms(1) step_ok step_grows in blast)+
  then show ?thesis by simp
qed

lemma collect_bounded:
  assumes "efold step empty_ledger xs = Inr l"
  shows "\<exists>es. read_ledger cap l = Inr es \<and> length es \<le> cap \<and> distinct (map key es) \<and>
           map key es = map Some (take_last cap (order l))"
  using read_ledger_ok [OF fold_ok [OF ledger_ok_empty assms]] by blast

end

section \<open>Fenced leases\<close>

text \<open>
  A lease whose holder carries a fencing token. The provider promises that tokens are handed
  out in increasing order and that a step changes the holder only to nobody or to a token that
  was not handed out before.
\<close>

locale fenced_lease =
  fixes step :: "'s \<Rightarrow> 's \<Rightarrow> bool"
    and inv :: "'s \<Rightarrow> bool"
    and next_token :: "'s \<Rightarrow> int"
    and holder :: "'s \<Rightarrow> int option"
  assumes inv_step: "inv s \<Longrightarrow> step s s' \<Longrightarrow> inv s'"
    and next_mono: "inv s \<Longrightarrow> step s s' \<Longrightarrow> next_token s \<le> next_token s'"
    and holder_bound: "inv s \<Longrightarrow> holder s = Some t \<Longrightarrow> t < next_token s"
    and holder_fresh: "inv s \<Longrightarrow> step s s' \<Longrightarrow> holder s' = Some t \<Longrightarrow> holder s = Some t \<or> next_token s \<le> t"
begin

lemma run_inv: "rtranclp step s s' \<Longrightarrow> inv s \<Longrightarrow> inv s'"
  by (induction rule: rtranclp_induct) (auto intro: inv_step)

lemma run_next_mono: "rtranclp step s s' \<Longrightarrow> inv s \<Longrightarrow> next_token s \<le> next_token s'"
proof (induction rule: rtranclp_induct)
  case (step y z)
  then show ?case using next_mono run_inv by force
qed simp

lemma lost_forever:
  assumes "rtranclp step s s'" and "inv s" and "t < next_token s" and "holder s \<noteq> Some t"
  shows "holder s' \<noteq> Some t"
  using assms
proof (induction rule: rtranclp_induct)
  case (step y z)
  have "inv y" using step run_inv by blast
  moreover have "t < next_token y" using step run_next_mono by fastforce
  ultimately show ?case using step holder_fresh by fastforce
qed simp

lemma newer_token_greater:
  assumes "rtranclp step s s'" and "inv s" and "holder s = Some t" and "holder s' = Some u" and "u \<noteq> t"
  shows "t < u"
proof -
  have "t < next_token s" using holder_bound assms by blast
  moreover have "next_token s \<le> u"
    using lost_forever [OF assms(1,2), of u] assms by fastforce
  ultimately show ?thesis by simp
qed

end


section \<open>Sequenced logs\<close>

text \<open>
  A store whose entries carry the sequence numbers 1, 2, \dots and that is read forward in pages:
  the page after a cursor holds the next entries up to a limit, in order.
\<close>

locale sequenced_log =
  fixes inv :: "'s \<Rightarrow> bool"
    and entries :: "'s \<Rightarrow> 'e list"
    and seq_of :: "'e \<Rightarrow> int"
    and page :: "'s \<Rightarrow> int \<Rightarrow> nat \<Rightarrow> 'e list"
  assumes seqs: "inv s \<Longrightarrow> map seq_of (entries s) = [1..int (length (entries s))]"
    and page_def: "inv s \<Longrightarrow> page s c n = take n (filter (\<lambda>e. c < seq_of e) (entries s))"
begin

lemma page_drop:
  assumes "inv s" and "0 \<le> c"
  shows "page s c n = take n (drop (nat c) (entries s))"
  using page_def [OF assms(1)] filter_upto_after [OF seqs [OF assms(1)], of c] assms by simp

lemma page_seqs:
  assumes "inv s" and "0 \<le> c"
  shows "map seq_of (page s c n) = [c + 1..min (c + int n) (int (length (entries s)))]"
proof -
  have "map seq_of (page s c n) = take n (drop (nat c) [1..int (length (entries s))])"
    by (simp add: page_drop [OF assms] take_map drop_map seqs [OF assms(1), symmetric])
  also have "\<dots> = [c + 1..min (c + int n) (int (length (entries s)))]"
    using assms by (simp add: drop_upto take_upto add.commute)
  finally show ?thesis .
qed

lemma page_progress: "inv s \<Longrightarrow> 0 \<le> c \<Longrightarrow> c < int (length (entries s)) \<Longrightarrow> 0 < n \<Longrightarrow> page s c n \<noteq> []"
  by (auto simp: page_drop)

lemma page_last:
  assumes "inv s" and "0 \<le> c" and "page s c n \<noteq> []"
  shows "seq_of (last (page s c n)) = min (c + int n) (int (length (entries s)))"
proof -
  let ?t = "min (c + int n) (int (length (entries s)))"
  have ne: "[c + 1..?t] \<noteq> []" using page_seqs [OF assms(1,2), of n] assms(3) by (metis map_is_Nil_conv)
  then have le: "c + 1 \<le> ?t" by (simp add: linorder_not_le)
  have "seq_of (last (page s c n)) = last [c + 1..?t]"
    using page_seqs [OF assms(1,2), of n] assms(3) last_map [of "page s c n" seq_of] by simp
  also have "\<dots> = ?t" using le by (simp add: upto_rec2)
  finally show ?thesis .
qed

text \<open>A page followed by everything after its last entry is everything after the cursor.\<close>

lemma page_advance:
  assumes "inv s" and "0 \<le> c" and "page s c n \<noteq> []"
  shows "page s c n @ drop (nat (seq_of (last (page s c n)))) (entries s) = drop (nat c) (entries s)"
proof -
  have "drop (nat (min (c + int n) (int (length (entries s))))) (entries s) = drop n (drop (nat c) (entries s))"
    using assms(2) by (cases "c + int n \<le> int (length (entries s))") (auto simp: nat_add_distrib add.commute)
  then have eq: "drop (nat (seq_of (last (page s c n)))) (entries s) = drop n (drop (nat c) (entries s))"
    unfolding page_last [OF assms] .
  show ?thesis unfolding eq unfolding page_drop [OF assms(1,2)] by (rule append_take_drop_id)
qed

end

section \<open>Decision boards\<close>

text \<open>
  A board of questions that others decide. The provider promises that a decision is final, that a
  question keeps its subject, and that a lasting permission appears only with a broad decision on
  its subject. The clients are tool calls that wait for a decision or rely on a lasting permission.
\<close>

locale decision_board =
  fixes step :: "'s \<Rightarrow> 's \<Rightarrow> bool"
    and inv :: "'s \<Rightarrow> bool"
    and decided :: "'s \<Rightarrow> nat \<Rightarrow> 'c option"
    and subject :: "'s \<Rightarrow> nat \<Rightarrow> 'k option"
    and permitted :: "'s \<Rightarrow> 'k \<Rightarrow> bool"
    and broad :: "'c \<Rightarrow> bool"
  assumes board_step: "inv s \<Longrightarrow> step s s' \<Longrightarrow> inv s'"
    and decision_kept: "inv s \<Longrightarrow> step s s' \<Longrightarrow> decided s r = Some c \<Longrightarrow> decided s' r = Some c"
    and subject_kept: "inv s \<Longrightarrow> step s s' \<Longrightarrow> subject s r = Some k \<Longrightarrow> subject s' r = Some k"
    and permission_decided: "inv s \<Longrightarrow> step s s' \<Longrightarrow> permitted s' k \<Longrightarrow> \<not> permitted s k \<Longrightarrow>
      \<exists>r c. subject s' r = Some k \<and> decided s' r = Some c \<and> broad c"
begin

lemma board_inv: "rtranclp step s s' \<Longrightarrow> inv s \<Longrightarrow> inv s'"
  by (induction rule: rtranclp_induct) (auto intro: board_step)

lemma decision_final: "rtranclp step s s' \<Longrightarrow> inv s \<Longrightarrow> decided s r = Some c \<Longrightarrow> decided s' r = Some c"
  by (induction rule: rtranclp_induct) (auto intro: decision_kept board_inv)

lemma subject_final: "rtranclp step s s' \<Longrightarrow> inv s \<Longrightarrow> subject s r = Some k \<Longrightarrow> subject s' r = Some k"
  by (induction rule: rtranclp_induct) (auto intro: subject_kept board_inv)

lemma permission_from_decision:
  assumes "rtranclp step s s'" and "inv s" and "permitted s' k" and "\<not> permitted s k"
  shows "\<exists>r c. subject s' r = Some k \<and> decided s' r = Some c \<and> broad c"
  using assms
proof (induction rule: rtranclp_induct)
  case (step y z)
  have y: "inv y" using step.hyps(1) step.prems(1) by (rule board_inv)
  show ?case
  proof (cases "permitted y k")
    case True
    then obtain r c where "subject y r = Some k" "decided y r = Some c" "broad c" using step by blast
    then show ?thesis using decision_kept subject_kept y step.hyps(2) by blast
  qed (use permission_decided y step in blast)
qed simp

end

end
