(* ===== verification/Thread_State.thy ===== *)
theory Thread_State
  imports Json_Payload Interfaces
begin

text \<open>
  The durable thread state of the harness package and its reducers, from
  \<open>packages/sage_harness/sage_harness/state.py\<close>. A \<open>TypedDict\<close> with optional keys is
  a record whose fields are options: \<open>None\<close> is the absent key. Fields the code inspects
  dynamically (\<open>type(value) is int\<close>, \<open>isinstance(description, str)\<close>) hold an arbitrary
  Python value. A reducer takes the existing and the new channel value, each possibly
  \<open>None\<close>, and returns the merged value or raises.
\<close>

section \<open>Channels\<close>

definition TERMINAL_GOAL_STATUSES :: "string list" where
  "TERMINAL_GOAL_STATUSES = [''succeeded'', ''failed'', ''cancelled'']"

definition TERMINAL_DELEGATION_STATUSES :: "string list" where
  "TERMINAL_DELEGATION_STATUSES = [''succeeded'', ''failed'', ''cancelled'', ''timed_out'']"

definition TERMINAL_APPROVAL_STATUSES :: "string list" where
  "TERMINAL_APPROVAL_STATUSES = [''approved'', ''rejected'', ''expired'']"

definition MAX_ARTIFACTS :: nat where "MAX_ARTIFACTS = 100"
definition MAX_DELEGATIONS :: nat where "MAX_DELEGATIONS = 50"
definition MAX_SKILL_CONTEXT :: nat where "MAX_SKILL_CONTEXT = 8"
definition MAX_MEMORY_REFS :: nat where "MAX_MEMORY_REFS = 32"
definition MAX_PROMOTED_TOOLS :: nat where "MAX_PROMOTED_TOOLS = 64"
definition MAX_EVIDENCE_REFS :: nat where "MAX_EVIDENCE_REFS = 128"
definition MAX_EVIDENCE_FINGERPRINTS :: nat where "MAX_EVIDENCE_FINGERPRINTS = 256"
definition LEGACY_CHILD_MODEL_CALLS :: int where "LEGACY_CHILD_MODEL_CALLS = 18"
definition LEGACY_CHILD_TOOL_CALLS :: int where "LEGACY_CHILD_TOOL_CALLS = 16"

record thread_data =
  owner_id :: "string option"
  workspace_id :: "string option"
  thread_id :: "string option"
  workspace_path :: "string option option"
  uploads_path :: "string option option"
  outputs_path :: "string option option"

record sandbox_state =
  sandbox_id :: "string option"

record artifact_ref =
  a_artifact_id :: "string option"
  a_kind :: "string option"
  a_path :: "string option"
  a_label :: "string option"

record todo_item =
  t_id :: "string option"
  t_title :: "string option"
  t_status :: "string option"

record goal_state =
  g_goal_id :: "string option"
  g_description :: "string option"
  g_status :: "string option"
  g_updated_at :: "string option"

record delegation_entry =
  d_id :: "string option"
  d_run_id :: "string option"
  d_description :: "string option"
  d_subagent_type :: "string option"
  d_status :: "string option"
  d_result_brief :: "string option"
  d_result_ref :: "string option"
  d_error_code :: "string option"
  d_tool_scope :: "string list option"
  d_token_budget :: "pyval option"
  d_timeout_seconds :: "pyval option"
  d_reserved_tokens :: "pyval option"
  d_reserved_model_calls :: "pyval option"
  d_reserved_tool_calls :: "pyval option"
  d_token_usage :: "pyval option"
  d_model_calls :: "pyval option"
  d_tool_count :: "pyval option"
  d_evidence_refs :: "string list option"
  d_query_fingerprints :: "string list option"
  d_source_fingerprints :: "string list option"
  d_mastery_evidence :: "pyval option"
  d_created_at :: "string option"

record skill_ref =
  s_name :: "string option"
  s_path :: "string option"
  s_description :: "pyval option"
  s_loaded_at :: "pyval option"
  s_revision :: "string option"

record memory_ref =
  m_memory_id :: "string option"
  m_topic :: "string option"
  m_summary :: "string option"
  m_revision :: "string option"

record approval_ctx =
  ap_request_id :: "string option"
  ap_tool_call_id :: "string option"
  ap_args_digest :: "string option"
  ap_status :: "string option"
  ap_decided_by :: "string option"

record promoted_tools =
  p_catalog_hash :: "string option"
  p_names :: "string list option"
  p_capability_ids :: "string list option"

text \<open>One key of \<open>{**existing, **new}\<close>: the new value where the key is present.\<close>

definition over :: "'a option \<Rightarrow> 'a option \<Rightarrow> 'a option" where
  "over old new = (case new of None \<Rightarrow> old | Some _ \<Rightarrow> new)"

lemma over_simps [simp]: "over old None = old" "over old (Some v) = Some v"
  by (simp_all add: over_def)

definition in_statuses :: "string option \<Rightarrow> string list \<Rightarrow> bool" where
  "in_statuses v xs = (case v of None \<Rightarrow> False | Some s \<Rightarrow> s \<in> set xs)"

lemma in_statuses_simps [simp]:
  "\<not> in_statuses None xs" "in_statuses (Some s) xs \<longleftrightarrow> s \<in> set xs"
  by (simp_all add: in_statuses_def)

text \<open>\<open>old and new and old != new\<close> on two optional strings.\<close>

definition conflicting :: "string option \<Rightarrow> string option \<Rightarrow> bool" where
  "conflicting old new = (truthy old \<and> truthy new \<and> old \<noteq> new)"


section \<open>Usage accounting\<close>

fun usage_count :: "pyval option \<Rightarrow> int" where
  "usage_count (Some (PInt n)) = (if 0 \<le> n then n else 0)"
| "usage_count _ = 0"

definition delegation_budget_usage :: "delegation_entry \<Rightarrow> int \<times> int \<times> int" where
  "delegation_budget_usage e =
     (if d_status e = Some ''pending'' \<or> d_status e = Some ''running'' then
        (usage_count (d_reserved_tokens e), usage_count (d_reserved_model_calls e),
         usage_count (d_reserved_tool_calls e))
      else
        (if d_token_usage e \<noteq> None then usage_count (d_token_usage e)
         else usage_count (d_token_budget e),
         if d_model_calls e \<noteq> None then usage_count (d_model_calls e)
         else LEGACY_CHILD_MODEL_CALLS,
         if d_tool_count e \<noteq> None then usage_count (d_tool_count e)
         else LEGACY_CHILD_TOOL_CALLS))"


section \<open>Single-value reducers\<close>

definition merge_thread_data ::
  "thread_data option \<Rightarrow> thread_data option \<Rightarrow> thread_data option result" where
  "merge_thread_data existing new = (case new of
     None \<Rightarrow> Inr existing
   | Some n \<Rightarrow> (case existing of
       None \<Rightarrow> Inr new
     | Some e \<Rightarrow>
         if conflicting (owner_id e) (owner_id n) then Inl (ValueError ''Conflicting owner ids'')
         else if conflicting (workspace_id e) (workspace_id n)
           then Inl (ValueError ''Conflicting workspace ids'')
         else if conflicting (thread_id e) (thread_id n) then Inl (ValueError ''Conflicting thread ids'')
         else if conflicting (Option.bind (workspace_path e) id) (Option.bind (workspace_path n) id)
           then Inl (ValueError ''Conflicting workspace paths'')
         else Inr (Some
           \<lparr>owner_id = over (owner_id e) (owner_id n),
            workspace_id = over (workspace_id e) (workspace_id n),
            thread_id = over (thread_id e) (thread_id n),
            workspace_path = over (workspace_path e) (workspace_path n),
            uploads_path = over (uploads_path e) (uploads_path n),
            outputs_path = over (outputs_path e) (outputs_path n)\<rparr>)))"

definition merge_sandbox ::
  "sandbox_state option \<Rightarrow> sandbox_state option \<Rightarrow> sandbox_state option result" where
  "merge_sandbox existing new = (case new of
     None \<Rightarrow> Inr existing
   | Some n \<Rightarrow> (case existing of
       None \<Rightarrow> Inr new
     | Some e \<Rightarrow>
         if sandbox_id e = None then Inr new
         else if sandbox_id n = None then Inr existing
         else if sandbox_id e = sandbox_id n then Inr existing
         else Inl (ValueError ''Conflicting sandbox ids'')))"

definition merge_todos :: "todo_item list option \<Rightarrow> todo_item list option \<Rightarrow> todo_item list option" where
  "merge_todos existing new = (case new of None \<Rightarrow> existing | Some n \<Rightarrow> Some n)"

definition merge_goal :: "goal_state option \<Rightarrow> goal_state option \<Rightarrow> goal_state option result" where
  "merge_goal existing new = (case new of
     None \<Rightarrow> Inr existing
   | Some n \<Rightarrow> (case existing of
       None \<Rightarrow> Inr new
     | Some e \<Rightarrow>
         if conflicting (g_goal_id e) (g_goal_id n) then Inl (ValueError ''Conflicting goal ids'')
         else if in_statuses (g_status e) TERMINAL_GOAL_STATUSES
              \<and> \<not> in_statuses (g_status n) TERMINAL_GOAL_STATUSES then Inr existing
         else if in_statuses (g_status e) TERMINAL_GOAL_STATUSES
              \<and> in_statuses (g_status n) TERMINAL_GOAL_STATUSES
              \<and> g_status e \<noteq> g_status n
           then Inl (ValueError ''Conflicting terminal goal statuses'')
         else Inr (Some
           \<lparr>g_goal_id = over (g_goal_id e) (g_goal_id n),
            g_description = over (g_description e) (g_description n),
            g_status = over (g_status e) (g_status n),
            g_updated_at = over (g_updated_at e) (g_updated_at n)\<rparr>)))"

definition merge_approval_context ::
  "approval_ctx option \<Rightarrow> approval_ctx option \<Rightarrow> approval_ctx option result" where
  "merge_approval_context existing new = (case new of
     None \<Rightarrow> Inr existing
   | Some n \<Rightarrow> (case existing of
       None \<Rightarrow> Inr new
     | Some e \<Rightarrow>
         if conflicting (ap_request_id e) (ap_request_id n)
           then Inl (ValueError ''Conflicting approval requests'')
         else if conflicting (ap_tool_call_id e) (ap_tool_call_id n)
           then Inl (ValueError ''Conflicting approval tool_call_id'')
         else if conflicting (ap_args_digest e) (ap_args_digest n)
           then Inl (ValueError ''Conflicting approval args_digest'')
         else if in_statuses (ap_status e) TERMINAL_APPROVAL_STATUSES
              \<and> \<not> in_statuses (ap_status n) TERMINAL_APPROVAL_STATUSES then Inr existing
         else if in_statuses (ap_status e) TERMINAL_APPROVAL_STATUSES
              \<and> in_statuses (ap_status n) TERMINAL_APPROVAL_STATUSES
              \<and> ap_status e \<noteq> ap_status n
           then Inl (ValueError ''Conflicting terminal approval statuses'')
         else Inr (Some
           \<lparr>ap_request_id = over (ap_request_id e) (ap_request_id n),
            ap_tool_call_id = over (ap_tool_call_id e) (ap_tool_call_id n),
            ap_args_digest = over (ap_args_digest e) (ap_args_digest n),
            ap_status = over (ap_status e) (ap_status n),
            ap_decided_by = over (ap_decided_by e) (ap_decided_by n)\<rparr>)))"



section \<open>Ledger reducers\<close>

text \<open>
  The bodies of the deduplicating loops. \<open>by_id\<close> and \<open>order\<close> are the two locals of the
  code; \<open>by_id[i] = item\<close> is \<open>AList.update\<close>.
\<close>

definition or_empty :: "'a list option \<Rightarrow> 'a list" where
  "or_empty v = (case v of None \<Rightarrow> [] | Some xs \<Rightarrow> xs)"

lemma or_empty_simps [simp]: "or_empty None = []" "or_empty (Some xs) = xs"
  by (simp_all add: or_empty_def)

definition artifact_step :: "artifact_ref ledger \<Rightarrow> artifact_ref \<Rightarrow> artifact_ref ledger result" where
  "artifact_step l item =
     (if \<not> truthy (a_artifact_id item)
      then Inl (ValueError ''Artifact references require a stable artifact_id'')
      else let i = the (a_artifact_id item) in
        Inr (l\<lparr>order := (if map_of (by_id l) i = None then order l @ [i] else order l),
               by_id := AList.update i item (by_id l)\<rparr>))"

definition merge_artifacts ::
  "artifact_ref list option \<Rightarrow> artifact_ref list option \<Rightarrow> artifact_ref list result" where
  "merge_artifacts existing new = (case new of
     None \<Rightarrow> Inr (take_last MAX_ARTIFACTS (or_empty existing))
   | Some n \<Rightarrow>
       if n = [] then Inr []
       else ebind (efold artifact_step empty_ledger (or_empty existing @ n))
              (read_ledger MAX_ARTIFACTS))"

definition memory_step :: "memory_ref ledger \<Rightarrow> memory_ref \<Rightarrow> memory_ref ledger result" where
  "memory_step l item =
     (if \<not> truthy (m_memory_id item)
      then Inl (ValueError ''Memory references require a stable memory_id'')
      else let i = the (m_memory_id item) in
        Inr (l\<lparr>order := (if map_of (by_id l) i = None then order l @ [i] else order l),
               by_id := AList.update i item (by_id l)\<rparr>))"

definition merge_memory_refs ::
  "memory_ref list option \<Rightarrow> memory_ref list option \<Rightarrow> memory_ref list result" where
  "merge_memory_refs existing new = (case new of
     None \<Rightarrow> Inr (take_last MAX_MEMORY_REFS (or_empty existing))
   | Some n \<Rightarrow>
       if n = [] then Inr []
       else ebind (efold memory_step empty_ledger (or_empty existing @ n))
              (read_ledger MAX_MEMORY_REFS))"

definition delegation_step ::
  "delegation_entry ledger \<Rightarrow> delegation_entry \<Rightarrow> delegation_entry ledger result" where
  "delegation_step l entry =
     (if \<not> truthy (d_id entry) \<or> \<not> truthy (d_status entry)
      then Inl (ValueError ''Delegation entries require id and status'')
      else let i = the (d_id entry); status = d_status entry; previous = map_of (by_id l) i in
        (case previous of
           None \<Rightarrow> Inr (l\<lparr>order := order l @ [i], by_id := AList.update i entry (by_id l)\<rparr>)
         | Some p \<Rightarrow>
             if in_statuses (d_status p) TERMINAL_DELEGATION_STATUSES
                \<and> \<not> in_statuses status TERMINAL_DELEGATION_STATUSES then Inr l
             else if in_statuses (d_status p) TERMINAL_DELEGATION_STATUSES
                \<and> in_statuses status TERMINAL_DELEGATION_STATUSES \<and> d_status p \<noteq> status
               then Inl (ValueError ''Conflicting terminal delegation statuses'')
             else Inr (l\<lparr>by_id := AList.update i
                 (if truthy (d_created_at p) \<and> \<not> truthy (d_created_at entry)
                  then entry\<lparr>d_created_at := d_created_at p\<rparr> else entry) (by_id l)\<rparr>)))"

definition merge_delegations ::
  "delegation_entry list option \<Rightarrow> delegation_entry list option \<Rightarrow> delegation_entry list result" where
  "merge_delegations existing new = (case new of
     None \<Rightarrow> Inr (take_last MAX_DELEGATIONS (or_empty existing))
   | Some n \<Rightarrow>
       if n = [] then Inr []
       else ebind (efold delegation_step empty_ledger (or_empty existing @ n))
              (read_ledger MAX_DELEGATIONS))"

definition normalize_skill :: "skill_ref \<Rightarrow> skill_ref result" where
  "normalize_skill entry =
     (let path = (case s_path entry of None \<Rightarrow> [] | Some p \<Rightarrow> p) in
      if path = [] then Inl (ValueError ''Skill references require a path'')
      else Inr
        \<lparr>s_name = Some (case s_name entry of None \<Rightarrow> [] | Some n \<Rightarrow> n),
         s_path = Some path,
         s_description = Some (case s_description entry of
             Some (PStr d) \<Rightarrow> PStr (take 500 (join_words (split_words d)))
           | _ \<Rightarrow> PStr []),
         s_loaded_at = Some (case s_loaded_at entry of
             Some (PInt n) \<Rightarrow> PInt n
           | Some (PBool b) \<Rightarrow> PBool b
           | _ \<Rightarrow> PInt 0),
         s_revision = Some (take 64 (case s_revision entry of None \<Rightarrow> [] | Some r \<Rightarrow> r))\<rparr>)"

definition skill_step :: "skill_ref ledger \<Rightarrow> skill_ref \<Rightarrow> skill_ref ledger result" where
  "skill_step l item = ebind (normalize_skill item) (\<lambda>nitem.
     let path = the (s_path nitem) in
     Inr (l\<lparr>order := (if map_of (by_id l) path \<noteq> None then remove1 path (order l) else order l) @ [path],
            by_id := AList.update path nitem (by_id l)\<rparr>))"

definition merge_skill_context ::
  "skill_ref list option \<Rightarrow> skill_ref list option \<Rightarrow> skill_ref list result" where
  "merge_skill_context existing new = (case new of
     None \<Rightarrow> ebind (emap normalize_skill (or_empty existing)) (\<lambda>ns. Inr (take_last MAX_SKILL_CONTEXT ns))
   | Some n \<Rightarrow>
       if n = [] then Inr []
       else ebind (efold skill_step empty_ledger (or_empty existing @ n))
              (read_ledger MAX_SKILL_CONTEXT))"


section \<open>Evidence and promoted tools\<close>

definition merge_evidence :: "nat \<Rightarrow> string list option \<Rightarrow> string list option \<Rightarrow> string list" where
  "merge_evidence cap existing new = (case new of
     None \<Rightarrow> take_last cap (sort (remdups (or_empty existing)))
   | Some n \<Rightarrow>
       take_last cap (sort (remdups (map strip (filter (\<lambda>i. strip i \<noteq> []) (or_empty existing @ n))))))"

definition merge_evidence_refs :: "string list option \<Rightarrow> string list option \<Rightarrow> string list" where
  "merge_evidence_refs = merge_evidence MAX_EVIDENCE_REFS"

definition merge_evidence_fingerprints :: "string list option \<Rightarrow> string list option \<Rightarrow> string list" where
  "merge_evidence_fingerprints = merge_evidence MAX_EVIDENCE_FINGERPRINTS"

definition clean_names :: "string list \<Rightarrow> string list" where
  "clean_names xs = filter (\<lambda>n. n \<noteq> []) (fromkeys (map strip xs))"

text \<open>\<open>not new\<close> holds of \<open>None\<close> and of the dict without keys.\<close>

definition no_promotion :: "promoted_tools option \<Rightarrow> bool" where
  "no_promotion new = (case new of
     None \<Rightarrow> True
   | Some n \<Rightarrow> p_catalog_hash n = None \<and> p_names n = None \<and> p_capability_ids n = None)"

definition merge_promoted_tools ::
  "promoted_tools option \<Rightarrow> promoted_tools option \<Rightarrow> promoted_tools option result" where
  "merge_promoted_tools existing new =
     (if no_promotion new then Inr existing
      else let n = the new;
        catalog_hash = strip (case p_catalog_hash n of None \<Rightarrow> [] | Some h \<Rightarrow> h) in
      if catalog_hash = [] then Inl (ValueError ''Promoted tools require a catalog_hash'')
      else let names = clean_names (or_empty (p_names n));
        capability_ids = clean_names (or_empty (p_capability_ids n)) in
      if existing = None \<or> p_catalog_hash (the existing) \<noteq> Some catalog_hash then
        Inr (Some \<lparr>p_catalog_hash = Some catalog_hash,
                   p_names = Some (take_last MAX_PROMOTED_TOOLS names),
                   p_capability_ids = (if p_capability_ids n \<noteq> None
                     then Some (take_last MAX_PROMOTED_TOOLS capability_ids) else None)\<rparr>)
      else let e = the existing;
        merged = fromkeys (map strip (or_empty (p_names e)) @ names);
        merged_ids = fromkeys (map strip (or_empty (p_capability_ids e)) @ capability_ids) in
        Inr (Some \<lparr>p_catalog_hash = Some catalog_hash,
                   p_names = Some (take_last MAX_PROMOTED_TOOLS (filter (\<lambda>x. x \<noteq> []) merged)),
                   p_capability_ids =
                     (if p_capability_ids n \<noteq> None \<or> p_capability_ids e \<noteq> None
                      then Some (take_last MAX_PROMOTED_TOOLS (filter (\<lambda>x. x \<noteq> []) merged_ids))
                      else None)\<rparr>))"



section \<open>The reducers meet their contracts\<close>

interpretation goal: terminal_register merge_goal g_status "set TERMINAL_GOAL_STATUSES"
  by unfold_locales (auto simp: merge_goal_def over_def split: option.splits if_splits)

interpretation approval: terminal_register merge_approval_context ap_status "set TERMINAL_APPROVAL_STATUSES"
  by unfold_locales (auto simp: merge_approval_context_def over_def split: option.splits if_splits)

lemma ledger_order_dom: "ledger_ok key l \<Longrightarrow> i \<in> set (order l) \<longleftrightarrow> map_of (by_id l) i \<noteq> None"
  by (auto simp: ledger_ok_def dom_def)

interpretation artifacts: keyed_ledger a_artifact_id artifact_step MAX_ARTIFACTS
proof unfold_locales
  fix l x l'
  assume ok: "ledger_ok a_artifact_id l" and st: "artifact_step l x = Inr l'"
  then show "ledger_ok a_artifact_id l'"
    using ledger_ok_append [OF ok, of x] ledger_ok_replace [OF ok, of x]
    by (auto simp: artifact_step_def Let_def ledger_order_dom [OF ok] elim!: truthyE split: if_splits)
  show "set (order l) \<subseteq> set (order l')"
    using st by (auto simp: artifact_step_def Let_def split: if_splits)
qed

interpretation memory: keyed_ledger m_memory_id memory_step MAX_MEMORY_REFS
proof unfold_locales
  fix l x l'
  assume ok: "ledger_ok m_memory_id l" and st: "memory_step l x = Inr l'"
  then show "ledger_ok m_memory_id l'"
    using ledger_ok_append [OF ok, of x] ledger_ok_replace [OF ok, of x]
    by (auto simp: memory_step_def Let_def ledger_order_dom [OF ok] elim!: truthyE split: if_splits)
  show "set (order l) \<subseteq> set (order l')"
    using st by (auto simp: memory_step_def Let_def split: if_splits)
qed

interpretation delegations: keyed_ledger d_id delegation_step MAX_DELEGATIONS
proof unfold_locales
  fix l x l'
  assume ok: "ledger_ok d_id l" and st: "delegation_step l x = Inr l'"
  have stamp: "ledger_ok d_id (l\<lparr>by_id := AList.update i (x\<lparr>d_created_at := c\<rparr>) (by_id l)\<rparr>)"
    if "d_id x = Some i" "i \<in> set (order l)" for i c
    using ledger_ok_replace [OF ok, of "x\<lparr>d_created_at := c\<rparr>" i] that by simp
  show "ledger_ok d_id l'"
    using st ok ledger_ok_append [OF ok, of x] ledger_ok_replace [OF ok, of x] stamp
    by (auto simp: delegation_step_def Let_def ledger_order_dom [OF ok] elim!: truthyE
        split: if_splits option.splits)
  show "set (order l) \<subseteq> set (order l')"
    using st by (auto simp: delegation_step_def Let_def split: if_splits option.splits)
qed

lemma normalize_skill_path: "normalize_skill x = Inr y \<Longrightarrow> \<exists>p. s_path y = Some p \<and> s_path x = Some p \<and> p \<noteq> []"
  by (auto simp: normalize_skill_def Let_def split: if_splits option.splits)

interpretation skills: keyed_ledger s_path skill_step MAX_SKILL_CONTEXT
proof unfold_locales
  fix l x l'
  assume ok: "ledger_ok s_path l" and st: "skill_step l x = Inr l'"
  obtain y p where y: "normalize_skill x = Inr y" "s_path y = Some p"
    and l': "l' = l\<lparr>order := (if map_of (by_id l) p \<noteq> None then remove1 p (order l) else order l) @ [p],
                    by_id := AList.update p y (by_id l)\<rparr>"
    using st normalize_skill_path by (fastforce simp: skill_step_def Let_def)
  show "ledger_ok s_path l'"
    using ok y unfolding l' by (auto simp: ledger_ok_def update_conv' split: if_splits)
  show "set (order l) \<subseteq> set (order l')"
    using ok unfolding l' by (auto simp: ledger_ok_def)
qed



section \<open>Properties of the reducers\<close>

text \<open>A status report about a child that has already ended is decisive for its id.\<close>

definition settled :: "string \<Rightarrow> string \<Rightarrow> delegation_entry ledger \<Rightarrow> bool" where
  "settled i st l \<longleftrightarrow> (\<exists>e. map_of (by_id l) i = Some e \<and> d_status e = Some st)"

lemma delegation_step_settles:
  assumes "delegation_step l e = Inr l'" and "d_id e = Some i" and "d_status e = Some st"
    and "st \<in> set TERMINAL_DELEGATION_STATUSES"
  shows "settled i st l'"
  using assms
  by (auto simp: delegation_step_def Let_def settled_def update_conv' split: if_splits option.splits)

lemma delegation_step_keeps:
  assumes "delegation_step l e = Inr l'" and "settled i st l"
    and "st \<in> set TERMINAL_DELEGATION_STATUSES"
  shows "settled i st l'"
  using assms
  by (auto simp: delegation_step_def Let_def settled_def update_conv' elim!: truthyE
      split: if_splits option.splits)

lemma delegation_fold_settles:
  assumes "efold delegation_step l xs = Inr l'" and "e \<in> set xs" and "d_id e = Some i"
    and "d_status e = Some st" and "st \<in> set TERMINAL_DELEGATION_STATUSES"
  shows "settled i st l'"
proof -
  from assms(2) obtain us vs where xs: "xs = us @ e # vs" by (meson split_list)
  with assms(1) obtain m m' where "delegation_step m e = Inr m'" and vs: "efold delegation_step m' vs = Inr l'"
    by auto
  then have "settled i st m'" using delegation_step_settles assms(3-5) by blast
  then show ?thesis
    by (rule efold_invariant [OF vs]) (use delegation_step_keeps assms(5) in blast)
qed

text \<open>
  A child agent that has reached a terminal status keeps it. Whatever entry with a terminal
  status either list of \<open>merge_delegations\<close> holds for an id, every entry of the merged ledger
  with that id has that status.
\<close>

theorem delegation_terminal_final:
  assumes "merge_delegations existing (Some new) = Inr out"
    and "e \<in> set (or_empty existing) \<union> set new" and "new \<noteq> []"
    and "d_id e = Some i" and "d_status e = Some st" and "st \<in> set TERMINAL_DELEGATION_STATUSES"
    and "x \<in> set out" and "d_id x = Some i"
  shows "d_status x = Some st"
proof -
  from assms(1,3) obtain l where l: "efold delegation_step empty_ledger (or_empty existing @ new) = Inr l"
    and out: "read_ledger MAX_DELEGATIONS l = Inr out"
    by (auto simp: merge_delegations_def simp del: efold_append)
  have "settled i st l" using delegation_fold_settles [OF l] assms(2,4-6) by auto
  moreover have ok: "ledger_ok d_id l" using delegations.fold_ok [OF ledger_ok_empty l] .
  moreover obtain j where "map_of (by_id l) j = Some x"
    using read_ledger_mem [OF out assms(7)] by blast
  ultimately show ?thesis using assms(8) by (auto simp: ledger_ok_def settled_def)
qed

definition sample_entry :: "string \<Rightarrow> string \<Rightarrow> delegation_entry" where
  "sample_entry i st =
     \<lparr>d_id = Some i, d_run_id = None, d_description = None, d_subagent_type = None,
      d_status = Some st, d_result_brief = None, d_result_ref = None, d_error_code = None,
      d_tool_scope = None, d_token_budget = None, d_timeout_seconds = None,
      d_reserved_tokens = None, d_reserved_model_calls = None, d_reserved_tool_calls = None,
      d_token_usage = None, d_model_calls = None, d_tool_count = None, d_evidence_refs = None,
      d_query_fingerprints = None, d_source_fingerprints = None, d_mastery_evidence = None,
      d_created_at = None\<rparr>"

theorem delegation_terminal_final_witness:
  "d_status (sample_entry ''c1'' ''succeeded'') = Some ''succeeded'' \<and>
   merge_delegations (Some [sample_entry ''c1'' ''succeeded'']) (Some [sample_entry ''c1'' ''running''])
     = Inr [sample_entry ''c1'' ''succeeded'']"
proof -
  have m: "merge_delegations (Some [sample_entry ''c1'' ''succeeded'']) (Some [sample_entry ''c1'' ''running''])
      = Inr [sample_entry ''c1'' ''succeeded'']" by code_simp
  have "d_status (sample_entry ''c1'' ''succeeded'') = Some ''succeeded''"
    by (rule delegation_terminal_final [OF m, of "sample_entry ''c1'' ''succeeded''" "''c1''"])
      (simp_all add: sample_entry_def TERMINAL_DELEGATION_STATUSES_def)
  with m show ?thesis by simp
qed

text \<open>
  The four deduplicating reducers return at most their cap of entries, no two with the same
  id, whatever they merge.
\<close>

theorem ledger_reducers_bounded:
  "(merge_artifacts ea (Some na) = Inr oa \<longrightarrow>
      length oa \<le> MAX_ARTIFACTS \<and> distinct (map a_artifact_id oa)) \<and>
   (merge_memory_refs em (Some nm) = Inr om \<longrightarrow>
      length om \<le> MAX_MEMORY_REFS \<and> distinct (map m_memory_id om)) \<and>
   (merge_delegations ed (Some nd) = Inr od \<longrightarrow>
      length od \<le> MAX_DELEGATIONS \<and> distinct (map d_id od)) \<and>
   (merge_skill_context es (Some ns) = Inr os \<longrightarrow>
      length os \<le> MAX_SKILL_CONTEXT \<and> distinct (map s_path os))"
  using artifacts.collect_bounded memory.collect_bounded delegations.collect_bounded
    skills.collect_bounded
  by (fastforce simp: merge_artifacts_def merge_memory_refs_def merge_delegations_def
      merge_skill_context_def simp del: efold_append split: if_splits)


definition sample_artifact :: "string \<Rightarrow> artifact_ref" where
  "sample_artifact i = \<lparr>a_artifact_id = Some i, a_kind = None, a_path = None, a_label = None\<rparr>"

definition sample_skill :: "string \<Rightarrow> skill_ref" where
  "sample_skill p = \<lparr>s_name = Some ''n'', s_path = Some p, s_description = Some (PStr ''d''),
     s_loaded_at = Some (PInt 1), s_revision = Some ''r''\<rparr>"

definition sample_memory :: "string \<Rightarrow> memory_ref" where
  "sample_memory i = \<lparr>m_memory_id = Some i, m_topic = None, m_summary = None, m_revision = None\<rparr>"

theorem ledger_reducers_bounded_witness:
  "merge_artifacts (Some [sample_artifact ''a'']) (Some [sample_artifact ''b'', sample_artifact ''a''])
     = Inr [sample_artifact ''a'', sample_artifact ''b''] \<and>
   distinct (map a_artifact_id [sample_artifact ''a'', sample_artifact ''b'']) \<and>
   merge_memory_refs None (Some [sample_memory ''m'', sample_memory ''m'']) = Inr [sample_memory ''m''] \<and>
   distinct (map m_memory_id [sample_memory ''m'']) \<and>
   merge_delegations None (Some [sample_entry ''c'' ''running'']) = Inr [sample_entry ''c'' ''running''] \<and>
   distinct (map d_id [sample_entry ''c'' ''running'']) \<and>
   merge_skill_context None (Some [sample_skill ''p'', sample_skill ''q'', sample_skill ''p''])
     = Inr [sample_skill ''q'', sample_skill ''p''] \<and>
   distinct (map s_path [sample_skill ''q'', sample_skill ''p''])"
proof -
  have a: "merge_artifacts (Some [sample_artifact ''a'']) (Some [sample_artifact ''b'', sample_artifact ''a''])
     = Inr [sample_artifact ''a'', sample_artifact ''b'']" by code_simp
  have m: "merge_memory_refs None (Some [sample_memory ''m'', sample_memory ''m'']) = Inr [sample_memory ''m'']"
    by code_simp
  have d: "merge_delegations None (Some [sample_entry ''c'' ''running'']) = Inr [sample_entry ''c'' ''running'']"
    by code_simp
  have k: "merge_skill_context None (Some [sample_skill ''p'', sample_skill ''q'', sample_skill ''p''])
     = Inr [sample_skill ''q'', sample_skill ''p'']" by code_simp
  show ?thesis using ledger_reducers_bounded a m d k by blast
qed

lemma artifact_fold_total:
  "\<forall>x \<in> set xs. truthy (a_artifact_id x) \<Longrightarrow> \<exists>l'. efold artifact_step l xs = Inr l'"
  by (induction xs arbitrary: l) (auto simp: artifact_step_def Let_def)

lemma memory_fold_total:
  "\<forall>x \<in> set xs. truthy (m_memory_id x) \<Longrightarrow> \<exists>l'. efold memory_step l xs = Inr l'"
  by (induction xs arbitrary: l) (auto simp: memory_step_def Let_def)

lemma normalize_skill_total: "truthy (s_path x) \<Longrightarrow> \<exists>y. normalize_skill x = Inr y"
  by (auto simp: normalize_skill_def elim: truthyE)

lemma skill_fold_total:
  "\<forall>x \<in> set xs. truthy (s_path x) \<Longrightarrow> \<exists>l'. efold skill_step l xs = Inr l'"
proof (induction xs arbitrary: l)
  case (Cons x xs)
  then obtain y where "normalize_skill x = Inr y" using normalize_skill_total [of x] by auto
  then show ?case using Cons by (auto simp: skill_step_def Let_def)
qed simp

text \<open>
  Entries with a stable id always merge. If every artifact, memory and skill reference of
  both lists has a non-empty id, the three reducers return a list: neither the missing-id error
  nor a \<open>KeyError\<close> of the final read can occur.
\<close>

theorem ledger_reducers_total:
  assumes "\<forall>x \<in> set (or_empty ea) \<union> set na. truthy (a_artifact_id x)"
    and "\<forall>x \<in> set (or_empty em) \<union> set nm. truthy (m_memory_id x)"
    and "\<forall>x \<in> set (or_empty es) \<union> set ns. truthy (s_path x)"
  shows "(\<exists>oa. merge_artifacts ea (Some na) = Inr oa) \<and>
         (\<exists>om. merge_memory_refs em (Some nm) = Inr om) \<and>
         (\<exists>os. merge_skill_context es (Some ns) = Inr os)"
proof (intro conjI)
  obtain la where "efold artifact_step empty_ledger (or_empty ea @ na) = Inr la"
    using artifact_fold_total assms(1) by (metis set_append)
  then show "\<exists>oa. merge_artifacts ea (Some na) = Inr oa"
    using artifacts.collect_bounded by (fastforce simp: merge_artifacts_def simp del: efold_append)
  obtain lm where "efold memory_step empty_ledger (or_empty em @ nm) = Inr lm"
    using memory_fold_total assms(2) by (metis set_append)
  then show "\<exists>om. merge_memory_refs em (Some nm) = Inr om"
    using memory.collect_bounded by (fastforce simp: merge_memory_refs_def simp del: efold_append)
  obtain ls where "efold skill_step empty_ledger (or_empty es @ ns) = Inr ls"
    using skill_fold_total assms(3) by (metis set_append)
  then show "\<exists>os. merge_skill_context es (Some ns) = Inr os"
    using skills.collect_bounded by (fastforce simp: merge_skill_context_def simp del: efold_append)
qed

theorem ledger_reducers_total_witness:
  "\<exists>oa. merge_artifacts (Some [sample_artifact ''a'']) (Some [sample_artifact ''b'']) = Inr oa"
  using ledger_reducers_total
    [of "Some [sample_artifact ''a'']" "[sample_artifact ''b'']" None "[]" None "[]"]
  by (simp add: sample_artifact_def)

text \<open>
  A goal that has succeeded, failed or been cancelled keeps that status through any sequence
  of updates that the reducer accepts.
\<close>

theorem goal_terminal_final:
  assumes "efold merge_goal (Some g) updates = Inr r" and "g_status g = Some s"
    and "s \<in> set TERMINAL_GOAL_STATUSES"
  shows "\<exists>g'. r = Some g' \<and> g_status g' = Some s"
  using goal.terminal_final [OF assms] .

theorem goal_terminal_final_witness:
  "let g = \<lparr>g_goal_id = Some ''g'', g_description = None, g_status = Some ''failed'', g_updated_at = None\<rparr>;
       u = \<lparr>g_goal_id = Some ''g'', g_description = None, g_status = Some ''in_progress'', g_updated_at = None\<rparr>
   in efold merge_goal (Some g) [Some u, None] = Inr (Some g) \<and> g_status g = Some ''failed''"
proof -
  let ?g = "\<lparr>g_goal_id = Some ''g'', g_description = None, g_status = Some ''failed'', g_updated_at = None\<rparr>"
  let ?u = "\<lparr>g_goal_id = Some ''g'', g_description = None, g_status = Some ''in_progress'', g_updated_at = None\<rparr>"
  have e: "efold merge_goal (Some ?g) [Some ?u, None] = Inr (Some ?g)" by code_simp
  then have "\<exists>g'. Some ?g = Some g' \<and> g_status g' = Some ''failed''"
    by (rule goal_terminal_final) (simp_all add: TERMINAL_GOAL_STATUSES_def)
  with e show ?thesis by (simp add: Let_def)
qed

text \<open>The identity fields of an approval do not change under updates that do not blank them.\<close>

definition names_call :: "string \<Rightarrow> string \<Rightarrow> approval_ctx option \<Rightarrow> bool" where
  "names_call call digest v \<longleftrightarrow>
     (\<exists>a. v = Some a \<and> ap_tool_call_id a = Some call \<and> ap_args_digest a = Some digest)"

lemma merge_approval_names_call:
  assumes "merge_approval_context v u = Inr w" and "names_call call digest v"
    and "call \<noteq> []" and "digest \<noteq> []"
    and "\<And>a. u = Some a \<Longrightarrow> ap_tool_call_id a \<noteq> Some [] \<and> ap_args_digest a \<noteq> Some []"
  shows "names_call call digest w"
  using assms
  by (auto simp: names_call_def merge_approval_context_def conflicting_def over_def truthy_def
      split: option.splits if_splits)

text \<open>
  C31: an approval decision stays bound to its tool call. Through any accepted sequence of
  updates that carry no blank ids, a decided approval keeps its status, and its tool call id
  and argument digest never change.
\<close>

theorem approval_decision_bound:
  assumes "efold merge_approval_context (Some a) updates = Inr r"
    and "ap_tool_call_id a = Some call" and "call \<noteq> []"
    and "ap_args_digest a = Some digest" and "digest \<noteq> []"
    and "ap_status a = Some s" and "s \<in> set TERMINAL_APPROVAL_STATUSES"
    and "\<forall>u. Some u \<in> set updates \<longrightarrow> ap_tool_call_id u \<noteq> Some [] \<and> ap_args_digest u \<noteq> Some []"
  shows "\<exists>a'. r = Some a' \<and> ap_status a' = Some s \<and> ap_tool_call_id a' = Some call \<and>
           ap_args_digest a' = Some digest"
proof -
  have "names_call call digest r"
  proof (rule efold_invariant [OF assms(1)])
    show "names_call call digest (Some a)" using assms by (simp add: names_call_def)
    show "names_call call digest w"
      if "u \<in> set updates" "names_call call digest v" "merge_approval_context v u = Inr w" for v u w
      by (rule merge_approval_names_call [OF that(3,2) assms(3,5)]) (use that(1) assms(8) in blast)
  qed
  then show ?thesis
    using approval.terminal_final [OF assms(1,6,7)] by (auto simp: names_call_def)
qed

theorem approval_decision_bound_witness:
  "let a = \<lparr>ap_request_id = Some ''r'', ap_tool_call_id = Some ''c'', ap_args_digest = Some ''d'',
            ap_status = Some ''approved'', ap_decided_by = None\<rparr>
   in efold merge_approval_context (Some a) [Some (a\<lparr>ap_status := Some ''pending''\<rparr>)] = Inr (Some a) \<and>
      ap_status a = Some ''approved''"
proof -
  let ?a = "\<lparr>ap_request_id = Some ''r'', ap_tool_call_id = Some ''c'', ap_args_digest = Some ''d'',
            ap_status = Some ''approved'', ap_decided_by = None\<rparr>"
  have e: "efold merge_approval_context (Some ?a) [Some (?a\<lparr>ap_status := Some ''pending''\<rparr>)] = Inr (Some ?a)"
    by code_simp
  have "\<exists>a'. Some ?a = Some a' \<and> ap_status a' = Some ''approved'' \<and> ap_tool_call_id a' = Some ''c'' \<and>
      ap_args_digest a' = Some ''d''"
    by (rule approval_decision_bound [OF e]) (simp_all add: TERMINAL_APPROVAL_STATUSES_def)
  with e show ?thesis by (simp add: Let_def)
qed


lemma merge_evidence_largest:
  "merge_evidence cap ex (Some n) = largest cap (strip ` {i \<in> set (or_empty ex @ n). strip i \<noteq> []})"
proof -
  have *: "sort (remdups xs) = sorted_list_of_set (set xs)" for xs :: "string list"
    by (simp add: sorted_list_of_set_sort_remdups)
  show ?thesis unfolding merge_evidence_def option.case * largest_def set_map set_filter ..
qed

lemma merge_evidence_fold:
  "merge_evidence cap (Some (merge_evidence cap ex (Some a))) (Some b) =
     largest cap (strip ` {i \<in> set (or_empty ex @ a @ b). strip i \<noteq> []})"
proof -
  let ?clean = "\<lambda>xs. strip ` {i \<in> set xs. strip i \<noteq> []}"
  let ?L = "largest cap (?clean (or_empty ex @ a))"
  have "set ?L \<subseteq> ?clean (or_empty ex @ a)" by (auto simp: set_largest)
  then have "?clean ?L = set ?L" by (force simp: image_iff)
  then have left: "?clean (?L @ b) = set ?L \<union> ?clean b" by auto
  have right: "?clean (or_empty ex @ a @ b) = ?clean (or_empty ex @ a) \<union> ?clean b" by auto
  show ?thesis
    unfolding merge_evidence_largest or_empty_simps left right by (rule largest_absorb) auto
qed

text \<open>
  Evidence merging does not depend on the order in which child agents complete. Merging two
  children's evidence into any existing list, in either order, gives the same list, even when
  the cap discards references; the same holds for the fingerprint channels.
\<close>

theorem evidence_order_independent:
  "merge_evidence_refs (Some (merge_evidence_refs ex (Some a))) (Some b) =
     merge_evidence_refs (Some (merge_evidence_refs ex (Some b))) (Some a) \<and>
   merge_evidence_fingerprints (Some (merge_evidence_fingerprints ex (Some a))) (Some b) =
     merge_evidence_fingerprints (Some (merge_evidence_fingerprints ex (Some b))) (Some a)"
proof -
  have "set (or_empty ex @ a @ b) = set (or_empty ex @ b @ a)" by auto
  then show ?thesis
    unfolding merge_evidence_refs_def merge_evidence_fingerprints_def merge_evidence_fold by simp
qed

lemma clean_names_props: "distinct (clean_names xs) \<and> [] \<notin> set (clean_names xs)"
  by (simp add: clean_names_def)

text \<open>
  Promotions are bounded to one catalog. An accepted promotion leaves at most 64 distinct
  non-blank names under the new catalog hash; none of the names promoted under another catalog
  survives unless it is promoted again, and under the same catalog no earlier name is lost
  while the cap is not exceeded.
\<close>

theorem promoted_tools_scoped:
  assumes "merge_promoted_tools (Some e) (Some n) = Inr (Some r)" and "\<not> no_promotion (Some n)"
  shows "\<exists>names. p_names r = Some names \<and> length names \<le> MAX_PROMOTED_TOOLS \<and> distinct names \<and>
           [] \<notin> set names \<and>
           (p_catalog_hash e \<noteq> p_catalog_hash r \<longrightarrow> set names \<subseteq> strip ` set (or_empty (p_names n))) \<and>
           (p_catalog_hash e = p_catalog_hash r \<and>
              length (or_empty (p_names e)) + length (or_empty (p_names n)) \<le> MAX_PROMOTED_TOOLS \<longrightarrow>
            strip ` set (or_empty (p_names e)) - {[]} \<subseteq> set names)"
proof (cases "p_catalog_hash e = p_catalog_hash r")
  case False
  then have "p_names r = Some (take_last MAX_PROMOTED_TOOLS (clean_names (or_empty (p_names n))))"
    using assms by (auto simp: merge_promoted_tools_def Let_def split: if_splits)
  moreover have "set (take_last MAX_PROMOTED_TOOLS (clean_names (or_empty (p_names n)))) \<subseteq>
      set (clean_names (or_empty (p_names n)))" by (rule set_take_last_subset)
  ultimately show ?thesis
    using False clean_names_props [of "or_empty (p_names n)"] by (auto simp: clean_names_def)
next
  case True
  let ?m = "filter (\<lambda>x. x \<noteq> []) (fromkeys (map strip (or_empty (p_names e)) @ clean_names (or_empty (p_names n))))"
  have names: "p_names r = Some (take_last MAX_PROMOTED_TOOLS ?m)"
    using assms True by (auto simp: merge_promoted_tools_def Let_def split: if_splits)
  have len_fk: "length (fromkeys xs) \<le> length xs" for xs :: "string list"
    by (metis distinct_fromkeys set_fromkeys distinct_card card_length)
  have "length (clean_names (or_empty (p_names n))) \<le> length (or_empty (p_names n))"
    unfolding clean_names_def by (metis length_filter_le len_fk length_map le_trans)
  then have "length ?m \<le> length (or_empty (p_names e)) + length (or_empty (p_names n))"
    using len_fk [of "map strip (or_empty (p_names e)) @ clean_names (or_empty (p_names n))"]
    by (intro le_trans [OF length_filter_le]) simp
  moreover have "set (take_last MAX_PROMOTED_TOOLS ?m) \<subseteq> set ?m" by (rule set_take_last_subset)
  ultimately show ?thesis
    using True names by (intro exI [of _ "take_last MAX_PROMOTED_TOOLS ?m"]) auto
qed

theorem promoted_tools_scoped_witness:
  "let e = \<lparr>p_catalog_hash = Some ''h'', p_names = Some [''a''], p_capability_ids = None\<rparr>;
       n = \<lparr>p_catalog_hash = Some ''h'', p_names = Some ['' b ''], p_capability_ids = None\<rparr>;
       r = \<lparr>p_catalog_hash = Some ''h'', p_names = Some [''a'', ''b''], p_capability_ids = None\<rparr>
   in merge_promoted_tools (Some e) (Some n) = Inr (Some r) \<and> distinct [''a'', ''b'']"
proof -
  let ?e = "\<lparr>p_catalog_hash = Some ''h'', p_names = Some [''a''], p_capability_ids = None\<rparr>"
  let ?n = "\<lparr>p_catalog_hash = Some ''h'', p_names = Some ['' b ''], p_capability_ids = None\<rparr>"
  let ?r = "\<lparr>p_catalog_hash = Some ''h'', p_names = Some [''a'', ''b''], p_capability_ids = None\<rparr>"
  have m: "merge_promoted_tools (Some ?e) (Some ?n) = Inr (Some ?r)" by code_simp
  have "distinct [''a'', ''b'']"
    using promoted_tools_scoped [OF m] by (simp add: no_promotion_def)
  with m show ?thesis by (simp add: Let_def)
qed

text \<open>
  The workspace path of a thread can be rebound in two accepted updates. The reducer rejects
  a direct change of path, but an explicit \<open>None\<close> overwrites the stored path without an error,
  and the next update may then bind another path.
\<close>

theorem thread_data_rebinding:
  "let d = \<lparr>owner_id = Some ''o'', workspace_id = Some ''w'', thread_id = Some ''t'',
            workspace_path = Some (Some ''/a''), uploads_path = None, outputs_path = None\<rparr>
   in merge_thread_data (Some d) (Some (d\<lparr>workspace_path := Some (Some ''/b'')\<rparr>))
        = Inl (ValueError ''Conflicting workspace paths'') \<and>
      efold merge_thread_data (Some d)
        [Some (d\<lparr>workspace_path := Some None\<rparr>), Some (d\<lparr>workspace_path := Some (Some ''/b'')\<rparr>)]
        = Inr (Some (d\<lparr>workspace_path := Some (Some ''/b'')\<rparr>))"
  by (simp add: Let_def merge_thread_data_def conflicting_def)

end
