(* ===== verification/Event_Journal.thy ===== *)
theory Event_Journal
  imports Json_Payload Interfaces
begin

text \<open>
  The durable event journal of one session, from
  \<open>core/coding/persistence/session_event_journal.py\<close>: the event table with its sequence
  numbers, the singleton run lease with its fencing token, and every operation on them. An
  operation is one \<open>BEGIN IMMEDIATE\<close> transaction: it returns the new journal and its result,
  or an error, in which case the transaction is rolled back and the journal is unchanged.

  The clock, \<open>uuid4\<close>, \<open>datetime.fromisoformat\<close> and the process table are read by the code
  and are arguments here. The checks of the database file and its directory (links, owners,
  inodes) are not modelled.
\<close>

section \<open>Rows and results\<close>

definition KINDS :: "string list" where
  "KINDS = [''user'', ''assistant'', ''model'', ''tool'', ''approval'', ''context'', ''memory'',
            ''agent'', ''terminal'', ''system'', ''run'', ''harness'']"

definition STATUSES :: "string list" where
  "STATUSES = [''pending'', ''queued'', ''running'', ''blocked'', ''done'', ''completed'',
               ''cancelled'', ''error'', ''interrupted'', ''retryable'']"

definition TERMINAL_STATUSES :: "string list" where
  "TERMINAL_STATUSES = [''completed'', ''cancelled'', ''error'', ''interrupted'']"

definition MAX_PAYLOAD_BYTES :: int where
  "MAX_PAYLOAD_BYTES = 1024 * 1024"

record event_row =
  r_sequence :: int
  r_event_id :: string
  r_session_id :: string
  r_run_id :: string
  r_kind :: string
  r_status :: string
  r_timestamp :: string
  r_payload :: json_text

record session_event =
  se_event_id :: string
  se_session_id :: string
  se_run_id :: string
  se_sequence :: int
  se_kind :: string
  se_status :: string
  se_timestamp :: string
  se_payload :: pydict

record lease_row =
  l_run_id :: string
  l_owner_id :: string
  l_owner_pid :: int
  l_owner_process_start :: string
  l_fencing_token :: int
  l_acquired_at :: string

text \<open>
  The database of one session. \<open>j_seq\<close> is the AUTOINCREMENT counter; \<open>lease_key\<close> and
  \<open>state_key\<close> admit only the value 1, so the lease and fence tables hold at most one row.
\<close>

record journal =
  j_session_id :: string
  j_events :: "event_row list"
  j_seq :: int
  j_lease :: "lease_row option"
  j_fence :: "int option"

record replay_page =
  rp_items :: "session_event list"
  rp_next_cursor :: int
  rp_has_more :: bool

record backward_page =
  bp_items :: "session_event list"
  bp_older_cursor :: "int option"
  bp_latest_cursor :: int
  bp_has_more :: bool

record begin_run_result =
  br_event :: session_event
  br_fencing_token :: int


section \<open>Process identity\<close>

datatype process_state = Present | Absent | Unknown

record proc_identity =
  pi_state :: process_state
  pi_fingerprint :: "string option"

text \<open>What reading a file under \<open>/proc\<close>, or the libproc call, can yield.\<close>

datatype file_read = ReadText string | FileMissing | ReadFailed

datatype darwin_probe = ProbeUnavailable | ProbeInfo nat nat | ProbeErrno bool

record journal_env =
  fromisoformat :: "string \<Rightarrow> bool option"  \<comment> \<open>None: ValueError; Some b: has a timezone iff b\<close>
  sys_platform :: string
  proc_stat :: "int \<Rightarrow> file_read"
  boot_id :: file_read
  darwin_info :: "int \<Rightarrow> darwin_probe"

text \<open>The text after the last closing parenthesis and one more character: \<open>raw[close_paren + 2:]\<close>.\<close>

definition after_comm :: "string \<Rightarrow> string list" where
  "after_comm raw =
     (if CHR '')'' \<in> set raw
      then split_words (drop 1 (rev (takeWhile (\<lambda>c. c \<noteq> CHR '')'') (rev raw))))
      else [])"

definition linux_process_identity :: "journal_env \<Rightarrow> int \<Rightarrow> proc_identity" where
  "linux_process_identity env pid = (case proc_stat env pid of
     FileMissing \<Rightarrow> \<lparr>pi_state = Absent, pi_fingerprint = None\<rparr>
   | ReadFailed \<Rightarrow> \<lparr>pi_state = Unknown, pi_fingerprint = None\<rparr>
   | ReadText raw \<Rightarrow>
       (let fields = after_comm raw in
        if length fields \<le> 19 \<or> \<not> all_digits (fields ! 19)
        then \<lparr>pi_state = Unknown, pi_fingerprint = None\<rparr>
        else (case boot_id env of
            ReadText b \<Rightarrow>
              if strip b = [] then \<lparr>pi_state = Unknown, pi_fingerprint = None\<rparr>
              else \<lparr>pi_state = Present,
                    pi_fingerprint = Some (''linux:'' @ strip b @ '':'' @ fields ! 19)\<rparr>
          | _ \<Rightarrow> \<lparr>pi_state = Unknown, pi_fingerprint = None\<rparr>)))"

definition darwin_process_identity :: "journal_env \<Rightarrow> int \<Rightarrow> proc_identity" where
  "darwin_process_identity env pid = (case darwin_info env pid of
     ProbeUnavailable \<Rightarrow> \<lparr>pi_state = Unknown, pi_fingerprint = None\<rparr>
   | ProbeInfo sec usec \<Rightarrow>
       \<lparr>pi_state = Present,
        pi_fingerprint = Some (''darwin:'' @ show_nat sec @ '':'' @ show_nat usec)\<rparr>
   | ProbeErrno esrch \<Rightarrow>
       if esrch then \<lparr>pi_state = Absent, pi_fingerprint = None\<rparr>
       else \<lparr>pi_state = Unknown, pi_fingerprint = None\<rparr>)"

definition process_identity :: "journal_env \<Rightarrow> int \<Rightarrow> proc_identity" where
  "process_identity env pid =
     (if pid < 1 then \<lparr>pi_state = Absent, pi_fingerprint = None\<rparr>
      else if starts_with (sys_platform env) ''linux'' then linux_process_identity env pid
      else if sys_platform env = ''darwin'' then darwin_process_identity env pid
      else \<lparr>pi_state = Unknown, pi_fingerprint = None\<rparr>)"

definition owner_process_start :: "journal_env \<Rightarrow> int \<Rightarrow> string result" where
  "owner_process_start env pid =
     (if pid < 1 then Inr []
      else let identity = process_identity env pid in
        if pi_state identity \<noteq> Present \<or> \<not> truthy (pi_fingerprint identity)
        then Inl (OperationalError ''cannot acquire run lease without a reliable process identity'')
        else Inr (the (pi_fingerprint identity)))"


section \<open>Validation\<close>

definition id_head :: "char \<Rightarrow> bool" where
  "id_head c = (let n = of_char c :: int in
     (65 \<le> n \<and> n \<le> 90) \<or> (97 \<le> n \<and> n \<le> 122) \<or> (48 \<le> n \<and> n \<le> 57))"

definition id_tail :: "char \<Rightarrow> bool" where
  "id_tail c = (id_head c \<or> c \<in> set ''_.:-'')"

definition is_identifier :: "string \<Rightarrow> bool" where
  "is_identifier s = (case s of [] \<Rightarrow> False | c # cs \<Rightarrow> id_head c \<and> length cs \<le> 127 \<and> list_all id_tail cs)"

definition validate_identifier :: "string \<Rightarrow> string \<Rightarrow> string result" where
  "validate_identifier field v = (if is_identifier v then Inr v else Inl (ValueError (''invalid '' @ field)))"

definition validate_timestamp :: "journal_env \<Rightarrow> string \<Rightarrow> unit result" where
  "validate_timestamp env v =
     (if v = [] then Inl (ValueError ''timestamp must be a non-empty ISO-8601 value'')
      else (case fromisoformat env v of
          None \<Rightarrow> Inl (ValueError ''timestamp must be ISO-8601'')
        | Some tz \<Rightarrow> require tz (ValueError ''timestamp must include a timezone'')))"

definition validate_kind_status :: "string \<Rightarrow> string \<Rightarrow> unit result" where
  "validate_kind_status kind status =
     (if kind = ''terminal'' \<and> status \<notin> set TERMINAL_STATUSES
      then Inl (ValueError ''terminal kind requires a terminal status'')
      else if kind \<noteq> ''terminal'' \<and> status \<in> {''cancelled'', ''interrupted''}
      then Inl (ValueError ''cancelled or interrupted status requires terminal kind'')
      else Inr ())"

record event_values =
  v_run_id :: string
  v_kind :: string
  v_status :: string
  v_payload :: json_text
  v_event_id :: string
  v_timestamp :: string

text \<open>\<open>uuid\<close> and \<open>now\<close> are the values of \<open>uuid.uuid4()\<close> and \<open>datetime.now(UTC).isoformat()\<close>.\<close>

definition validated_event_input ::
  "journal_env \<Rightarrow> string \<Rightarrow> string \<Rightarrow> string \<Rightarrow> string \<Rightarrow> string \<Rightarrow> pyval \<Rightarrow> string option \<Rightarrow> string option
   \<Rightarrow> event_values result" where
  "validated_event_input env uuid now run_id kind status payload event_id timestamp =
     ebind (validate_identifier ''run_id'' run_id) (\<lambda>validated_run.
     ebind (require (kind \<in> set KINDS) (ValueError ''invalid kind'')) (\<lambda>_.
     ebind (require (status \<in> set STATUSES) (ValueError ''invalid status'')) (\<lambda>_.
     ebind (validate_kind_status kind status) (\<lambda>_.
     (case payload of
        PDict d \<Rightarrow>
          ebind (require (strict_json_value payload)
             (ValueError ''payload must contain strict JSON values with string object keys'')) (\<lambda>_.
          ebind (require (ints_printable payload)
             (ValueError ''payload must contain strict JSON values'')) (\<lambda>_.
          ebind (require (json_bytes payload \<le> MAX_PAYLOAD_BYTES)
             (ValueError ''payload exceeds maximum size'')) (\<lambda>_.
          ebind (validate_identifier ''event_id'' (case event_id of None \<Rightarrow> uuid | Some i \<Rightarrow> i))
             (\<lambda>actual_event_id.
          let actual_timestamp = (case timestamp of None \<Rightarrow> now | Some t \<Rightarrow> t) in
          ebind (validate_timestamp env actual_timestamp) (\<lambda>_.
          Inr \<lparr>v_run_id = validated_run, v_kind = kind, v_status = status, v_payload = dumps d,
               v_event_id = actual_event_id, v_timestamp = actual_timestamp\<rparr>)))))
      | _ \<Rightarrow> Inl (TypeError ''payload must be a JSON object''))))))"

definition as_corruption :: "string \<Rightarrow> 'a result \<Rightarrow> 'a result" where
  "as_corruption msg m = (case m of Inl _ \<Rightarrow> Inl (CorruptionError msg) | Inr x \<Rightarrow> Inr x)"

definition event_from_row :: "journal_env \<Rightarrow> event_row \<Rightarrow> string \<Rightarrow> session_event result" where
  "event_from_row env row session_id =
     ebind (require (r_session_id row = session_id)
       (CorruptionError ''stored session_id does not match journal'')) (\<lambda>_.
     ebind (load_payload (r_payload row)) (\<lambda>payload.
     ebind (as_corruption ''stored event identifiers are invalid''
       (ebind (validate_identifier ''event_id'' (r_event_id row)) (\<lambda>_.
        validate_identifier ''run_id'' (r_run_id row)))) (\<lambda>_.
     ebind (require (r_kind row \<in> set KINDS \<and> r_status row \<in> set STATUSES)
       (CorruptionError ''stored kind or status is invalid'')) (\<lambda>_.
     ebind (as_corruption ''stored timestamp or kind/status combination is invalid''
       (ebind (validate_kind_status (r_kind row) (r_status row)) (\<lambda>_.
        validate_timestamp env (r_timestamp row)))) (\<lambda>_.
     Inr \<lparr>se_event_id = r_event_id row, se_session_id = session_id, se_run_id = r_run_id row,
          se_sequence = r_sequence row, se_kind = r_kind row, se_status = r_status row,
          se_timestamp = r_timestamp row, se_payload = payload\<rparr>)))))"

section \<open>Transactions\<close>

text \<open>\<open>_connect\<close> turns the database errors that escape an operation into corruption errors.\<close>

definition via_connect :: "'a result \<Rightarrow> 'a result" where
  "via_connect m = (case m of
     Inl IntegrityError \<Rightarrow> Inl (CorruptionError ''session event database error'')
   | _ \<Rightarrow> m)"

definition by_sequence :: "journal \<Rightarrow> event_row list" where
  "by_sequence j = sort_key r_sequence (j_events j)"

definition is_terminal_of :: "string \<Rightarrow> event_row \<Rightarrow> bool" where
  "is_terminal_of run_id row = (r_run_id row = run_id \<and> r_kind row = ''terminal'')"

definition allocate_fencing_token :: "journal \<Rightarrow> (journal \<times> int) result" where
  "allocate_fencing_token j = (case j_fence j of
     None \<Rightarrow> Inl (CorruptionError ''run fence state is invalid'')
   | Some token \<Rightarrow>
       if token < 1 then Inl (CorruptionError ''run fence state is invalid'')
       else Inr (j\<lparr>j_fence := Some (token + 1)\<rparr>, token))"

definition assert_run_lease :: "journal \<Rightarrow> string \<Rightarrow> string option \<Rightarrow> int option \<Rightarrow> unit result" where
  "assert_run_lease j run_id owner_id fencing_token =
     (if owner_id = None \<and> fencing_token = None then
        (case j_lease j of
           None \<Rightarrow> Inr ()
         | Some l \<Rightarrow> require (l_run_id l \<noteq> run_id) (RunLeaseLost run_id))
      else if owner_id = None \<or> fencing_token = None \<or> the fencing_token < 1
      then Inl (ValueError ''lease owner and positive fencing token must be provided together'')
      else ebind (validate_identifier ''lease_owner_id'' (the owner_id)) (\<lambda>owner.
        (case j_lease j of
           None \<Rightarrow> Inl (RunLeaseLost run_id)
         | Some l \<Rightarrow> require (l_run_id l = run_id \<and> l_owner_id l = owner
                           \<and> l_fencing_token l = the fencing_token) (RunLeaseLost run_id))))"

definition new_row :: "journal \<Rightarrow> event_values \<Rightarrow> event_row" where
  "new_row j v =
     \<lparr>r_sequence = j_seq j + 1, r_event_id = v_event_id v, r_session_id = j_session_id j,
      r_run_id = v_run_id v, r_kind = v_kind v, r_status = v_status v,
      r_timestamp = v_timestamp v, r_payload = v_payload v\<rparr>"

text \<open>
  The insert honours the unique event id and the unique index on terminal events of a run.
\<close>

definition insert_event :: "journal_env \<Rightarrow> journal \<Rightarrow> event_values \<Rightarrow> (journal \<times> session_event) result" where
  "insert_event env j v =
     (if \<exists>row \<in> set (j_events j). r_event_id row = v_event_id v then Inl IntegrityError
      else if v_kind v = ''terminal'' \<and> (\<exists>row \<in> set (j_events j). is_terminal_of (v_run_id v) row)
      then Inl IntegrityError
      else ebind (event_from_row env (new_row j v) (j_session_id j)) (\<lambda>e.
        Inr (j\<lparr>j_events := j_events j @ [new_row j v], j_seq := j_seq j + 1\<rparr>, e)))"

definition terminal_in_transaction ::
  "journal_env \<Rightarrow> journal \<Rightarrow> event_values \<Rightarrow> (journal \<times> session_event) result" where
  "terminal_in_transaction env j v = (case fetchone (is_terminal_of (v_run_id v)) (by_sequence j) of
     Some row \<Rightarrow> ebind (event_from_row env row (j_session_id j)) (\<lambda>e. Inr (j, e))
   | None \<Rightarrow> insert_event env j v)"

definition append_event ::
  "journal_env \<Rightarrow> string \<Rightarrow> string \<Rightarrow> journal \<Rightarrow> string \<Rightarrow> string \<Rightarrow> string \<Rightarrow> pyval \<Rightarrow> string option \<Rightarrow>
   string option \<Rightarrow> string option \<Rightarrow> int option \<Rightarrow> (journal \<times> session_event) result" where
  "append_event env uuid now j run_id kind status payload event_id timestamp owner token =
     ebind (validated_event_input env uuid now run_id kind status payload event_id timestamp) (\<lambda>v.
     (case ebind (assert_run_lease j run_id owner token) (\<lambda>_. insert_event env j v) of
        Inl IntegrityError \<Rightarrow> Inl (JournalError ''event id or terminal event conflicts'')
      | r \<Rightarrow> r))"

definition append_terminal_once ::
  "journal_env \<Rightarrow> string \<Rightarrow> string \<Rightarrow> journal \<Rightarrow> string \<Rightarrow> string \<Rightarrow> pyval \<Rightarrow> string option \<Rightarrow>
   string option \<Rightarrow> string option \<Rightarrow> int option \<Rightarrow> (journal \<times> session_event) result" where
  "append_terminal_once env uuid now j run_id status payload event_id timestamp owner token =
     ebind (require (status \<in> set TERMINAL_STATUSES) (ValueError ''status must be terminal'')) (\<lambda>_.
     ebind (validated_event_input env uuid now run_id ''terminal'' status payload event_id timestamp) (\<lambda>v.
     via_connect
       (ebind (assert_run_lease j run_id owner token) (\<lambda>_. terminal_in_transaction env j v))))"

definition release_if :: "string \<Rightarrow> journal \<Rightarrow> journal" where
  "release_if run_id j = (case j_lease j of
     Some l \<Rightarrow> if l_run_id l = run_id then j\<lparr>j_lease := None\<rparr> else j
   | None \<Rightarrow> j)"

definition append_terminal_and_release ::
  "journal_env \<Rightarrow> string \<Rightarrow> string \<Rightarrow> journal \<Rightarrow> string \<Rightarrow> string \<Rightarrow> pyval \<Rightarrow> string option \<Rightarrow>
   string option \<Rightarrow> string option \<Rightarrow> int option \<Rightarrow> (journal \<times> session_event) result" where
  "append_terminal_and_release env uuid now j run_id status payload event_id timestamp owner token =
     ebind (require (status \<in> set TERMINAL_STATUSES) (ValueError ''status must be terminal'')) (\<lambda>_.
     ebind (validated_event_input env uuid now run_id ''terminal'' status payload event_id timestamp) (\<lambda>v.
     via_connect
       (ebind (assert_run_lease j run_id owner token) (\<lambda>_.
        ebind (terminal_in_transaction env j v) (\<lambda>(j', stored).
        Inr (release_if (v_run_id v) j', stored))))))"

definition put_lease ::
  "journal \<Rightarrow> string \<Rightarrow> string \<Rightarrow> int \<Rightarrow> string \<Rightarrow> int \<Rightarrow> string \<Rightarrow> journal result" where
  "put_lease j run_id owner_id owner_pid start token acquired_at = (case j_lease j of
     Some _ \<Rightarrow> Inl IntegrityError
   | None \<Rightarrow> Inr (j\<lparr>j_lease := Some
       \<lparr>l_run_id = run_id, l_owner_id = owner_id, l_owner_pid = owner_pid,
        l_owner_process_start = start, l_fencing_token = token, l_acquired_at = acquired_at\<rparr>\<rparr>))"

definition active_run_or_unknown :: "journal \<Rightarrow> string" where
  "active_run_or_unknown j = (case j_lease j of Some l \<Rightarrow> l_run_id l | None \<Rightarrow> ''unknown'')"

text \<open>The \<open>except sqlite3.IntegrityError\<close> clause of the two lease acquisitions.\<close>

definition lease_conflict_of :: "journal \<Rightarrow> 'a result \<Rightarrow> 'a result" where
  "lease_conflict_of j m = (case m of
     Inl IntegrityError \<Rightarrow> Inl (LeaseConflict (active_run_or_unknown j))
   | _ \<Rightarrow> m)"

definition not_terminal :: "journal \<Rightarrow> string \<Rightarrow> unit result" where
  "not_terminal j run_id =
     require (\<forall>row \<in> set (j_events j). \<not> is_terminal_of run_id row)
       (JournalError ''run is already terminal'')"

definition acquire_run_lease ::
  "journal_env \<Rightarrow> string \<Rightarrow> journal \<Rightarrow> string \<Rightarrow> string \<Rightarrow> int \<Rightarrow> journal result" where
  "acquire_run_lease env now j run_id owner_id owner_pid =
     ebind (validate_identifier ''run_id'' run_id) (\<lambda>validated_run.
     ebind (validate_identifier ''owner_id'' owner_id) (\<lambda>validated_owner.
     ebind (owner_process_start env owner_pid) (\<lambda>start.
     lease_conflict_of j
       (ebind (not_terminal j validated_run) (\<lambda>_.
        ebind (allocate_fencing_token j) (\<lambda>(j', token).
        put_lease j' validated_run validated_owner owner_pid start token now))))))"

definition begin_run ::
  "journal_env \<Rightarrow> string \<Rightarrow> string \<Rightarrow> journal \<Rightarrow> string \<Rightarrow> string \<Rightarrow> int \<Rightarrow> pydict option \<Rightarrow>
   (journal \<times> begin_run_result) result" where
  "begin_run env uuid now j run_id owner_id owner_pid surface_context =
     ebind (validate_identifier ''run_id'' run_id) (\<lambda>validated_run.
     ebind (validate_identifier ''owner_id'' owner_id) (\<lambda>validated_owner.
     ebind (owner_process_start env owner_pid) (\<lambda>start.
     let payload = (PStr ''event'', PStr ''run_started'') #
           (case surface_context of None \<Rightarrow> [] | Some c \<Rightarrow> [(PStr ''surface_context'', PDict c)]) in
     ebind (validated_event_input env uuid now validated_run ''system'' ''running'' (PDict payload)
              None (Some now)) (\<lambda>v.
     via_connect (case j_lease j of
         Some l \<Rightarrow> Inl (LeaseConflict (l_run_id l))
       | None \<Rightarrow>
           ebind (not_terminal j validated_run) (\<lambda>_.
           ebind (allocate_fencing_token j) (\<lambda>(j1, token).
           ebind (put_lease j1 validated_run validated_owner owner_pid start token now) (\<lambda>j2.
           ebind (insert_event env j2 v) (\<lambda>(j3, stored).
           Inr (j3, \<lparr>br_event = stored, br_fencing_token = token\<rparr>))))))))))"

definition resume_run ::
  "journal_env \<Rightarrow> string \<Rightarrow> journal \<Rightarrow> string \<Rightarrow> string \<Rightarrow> int \<Rightarrow> (journal \<times> int) result" where
  "resume_run env now j run_id owner_id owner_pid =
     ebind (validate_identifier ''run_id'' run_id) (\<lambda>validated_run.
     ebind (validate_identifier ''owner_id'' owner_id) (\<lambda>validated_owner.
     ebind (owner_process_start env owner_pid) (\<lambda>start.
     lease_conflict_of j (case j_lease j of
         Some l \<Rightarrow> Inl (LeaseConflict (l_run_id l))
       | None \<Rightarrow>
           ebind (require (\<exists>row \<in> set (j_events j). r_run_id row = validated_run)
             (JournalError ''run has no durable history'')) (\<lambda>_.
           ebind (not_terminal j validated_run) (\<lambda>_.
           ebind (allocate_fencing_token j) (\<lambda>(j1, token).
           ebind (put_lease j1 validated_run validated_owner owner_pid start token now) (\<lambda>j2.
           Inr (j2, token)))))))))"

definition release_run_lease :: "journal \<Rightarrow> string \<Rightarrow> string \<Rightarrow> int \<Rightarrow> (journal \<times> bool) result" where
  "release_run_lease j run_id owner_id fencing_token =
     ebind (validate_identifier ''run_id'' run_id) (\<lambda>validated_run.
     ebind (assert_run_lease j validated_run (Some owner_id) (Some fencing_token)) (\<lambda>_.
     Inr (release_if validated_run j,
          case j_lease j of Some l \<Rightarrow> l_run_id l = validated_run | None \<Rightarrow> False)))"

definition active_run_id :: "journal \<Rightarrow> string option" where
  "active_run_id j = map_option l_run_id (j_lease j)"

section \<open>Approvals and recovery\<close>

text \<open>
  \<open>json.loads\<close> without hooks, then \<open>payload.get\<close>: a repeated key keeps its last value, and a
  document that is not an object has no \<open>get\<close>.
\<close>

definition plain_loads :: "json_text \<Rightarrow> pydict result" where
  "plain_loads t = (case t of
     NotJson \<Rightarrow> Inl (ValueError ''JSONDecodeError'')
   | JsonText (PDict d) \<Rightarrow> Inr (rev d)
   | JsonText _ \<Rightarrow> Inl (AttributeError ''get''))"

definition is_graph_approval_payload :: "pydict \<Rightarrow> bool" where
  "is_graph_approval_payload payload =
     (dict_get payload ''runtime_profile'' = PStr ''deerflow_v2'' \<or>
      (strip (get_str payload ''tool_call_id'') \<noteq> [] \<and>
       length (strip (get_str payload ''args_digest'')) = 64))"

text \<open>The loop of \<open>_has_unresolved_approval\<close>; the state is the pending call and approval id.\<close>

definition approval_scan :: "string \<times> string \<Rightarrow> event_row \<Rightarrow> (string \<times> string) result" where
  "approval_scan st row = ebind (plain_loads (r_payload row)) (\<lambda>payload.
     let event_type = get_str payload ''type'' in
     Inr (if r_kind row = ''approval'' \<and> r_status row = ''blocked'' \<and> event_type = ''approval_required''
             \<and> is_graph_approval_payload payload
          then (get_str payload ''tool_call_id'', get_str payload ''approval_id'')
          else if event_type = ''tool_result''
               \<and> fst st \<noteq> [] \<and> get_str payload ''tool_call_id'' = fst st
          then ([], [])
          else st))"

definition has_unresolved_approval :: "journal \<Rightarrow> string \<Rightarrow> bool result" where
  "has_unresolved_approval j run_id =
     ebind (efold approval_scan ([], []) (filter (\<lambda>row. r_run_id row = run_id) (by_sequence j)))
       (\<lambda>st. Inr (snd st \<noteq> []))"

definition interrupted_payload :: pydict where
  "interrupted_payload = [(PStr ''event'', PStr ''run_interrupted''), (PStr ''retryable'', PBool True)]"

definition recover_run_lease ::
  "journal_env \<Rightarrow> string \<Rightarrow> string \<Rightarrow> journal \<Rightarrow> string \<Rightarrow> (journal \<times> session_event option) result" where
  "recover_run_lease env uuid now j recovery_owner_id =
     via_connect
       (ebind (validate_identifier ''recovery_owner_id'' recovery_owner_id) (\<lambda>_.
        (case j_lease j of
           None \<Rightarrow> Inr (j, None)
         | Some l \<Rightarrow>
             let identity = process_identity env (l_owner_pid l) in
             if pi_state identity = Unknown
             then Inl (OperationalError ''process identity is temporarily unavailable'')
             else if pi_state identity = Present \<and> l_owner_process_start l = []
             then Inl (OperationalError ''legacy lease owner identity cannot be verified'')
             else if pi_state identity = Present
                  \<and> Some (l_owner_process_start l) = pi_fingerprint identity
             then Inr (j, None)
             else ebind (has_unresolved_approval j (l_run_id l)) (\<lambda>unresolved.
               if unresolved then Inr (j\<lparr>j_lease := None\<rparr>, None)
               else (case fetchone (is_terminal_of (l_run_id l)) (by_sequence j) of
                   None \<Rightarrow>
                     ebind (validated_event_input env uuid now (l_run_id l) ''terminal'' ''interrupted''
                              (PDict interrupted_payload) None None) (\<lambda>v.
                     ebind (insert_event env j v) (\<lambda>(j', stored).
                     Inr (j'\<lparr>j_lease := None\<rparr>, Some stored)))
                 | Some _ \<Rightarrow> Inr (j\<lparr>j_lease := None\<rparr>, None))))))"


section \<open>Queries\<close>

text \<open>\<open>SELECT * FROM session_events WHERE sequence > ? ORDER BY sequence LIMIT ?\<close>\<close>

definition rows_after :: "journal \<Rightarrow> int \<Rightarrow> nat \<Rightarrow> event_row list" where
  "rows_after j after n = take n (filter (\<lambda>row. after < r_sequence row) (by_sequence j))"

definition replay :: "journal_env \<Rightarrow> journal \<Rightarrow> int \<Rightarrow> int \<Rightarrow> replay_page result" where
  "replay env j after limit =
     ebind (require (0 \<le> after) (ValueError ''after must be a non-negative integer'')) (\<lambda>_.
     ebind (require (1 \<le> limit \<and> limit \<le> 500) (ValueError ''limit must be between 1 and 500'')) (\<lambda>_.
     let rows = rows_after j after (nat (limit + 1)) in
     ebind (emap (\<lambda>row. event_from_row env row (j_session_id j)) (take (nat limit) rows)) (\<lambda>items.
     Inr \<lparr>rp_items = items,
          rp_next_cursor = (if items = [] then after else se_sequence (last items)),
          rp_has_more = (limit < int (length rows))\<rparr>)))"

definition latest_sequence :: "journal \<Rightarrow> int" where
  "latest_sequence j = (if j_events j = [] then 0 else Max (r_sequence ` set (j_events j)))"

definition replay_before ::
  "journal_env \<Rightarrow> journal \<Rightarrow> int option \<Rightarrow> int \<Rightarrow> backward_page result" where
  "replay_before env j before limit =
     ebind (require (case before of None \<Rightarrow> True | Some b \<Rightarrow> 0 < b) (ValueError ''before must be a positive integer'')) (\<lambda>_.
     ebind (require (1 \<le> limit \<and> limit \<le> 500) (ValueError ''limit must be between 1 and 500'')) (\<lambda>_.
     let matching = (case before of
           None \<Rightarrow> rev (by_sequence j)
         | Some b \<Rightarrow> filter (\<lambda>row. r_sequence row < b) (rev (by_sequence j)));
       rows = take (nat (limit + 1)) matching;
       has_more = (limit < int (length rows)) in
     ebind (emap (\<lambda>row. event_from_row env row (j_session_id j)) (rev (take (nat limit) rows))) (\<lambda>items.
     Inr \<lparr>bp_items = items,
          bp_older_cursor = (if has_more \<and> items \<noteq> [] then Some (se_sequence (hd items)) else None),
          bp_latest_cursor = latest_sequence j,
          bp_has_more = has_more\<rparr>)))"

text \<open>\<open>json_extract(payload_json, '$.event') = 'run_started'\<close>; malformed text is an SQL error.\<close>

definition is_run_started :: "event_row \<Rightarrow> bool result" where
  "is_run_started row =
     (if r_status row \<noteq> ''running'' then Inr False
      else (case r_payload row of
          NotJson \<Rightarrow> Inl (JournalError ''session event database operational error'')
        | JsonText (PDict d) \<Rightarrow> Inr (dict_get d ''event'' = PStr ''run_started'')
        | JsonText _ \<Rightarrow> Inr False))"

definition unfinished_run_ids :: "journal \<Rightarrow> string list result" where
  "unfinished_run_ids j =
     ebind (emap (\<lambda>row. ebind (is_run_started row) (\<lambda>b. Inr (row, b))) (by_sequence j)) (\<lambda>marked.
     Inr (filter (\<lambda>run. list_ex (\<lambda>(row, b). r_run_id row = run \<and> b) marked
                     \<and> \<not> list_ex (is_terminal_of run) (j_events j)
                     \<and> active_run_id j \<noteq> Some run)
            (fromkeys (map (\<lambda>(row, b). r_run_id row) marked))))"

definition SUBAGENT_TERMINAL_TYPES :: "string list" where
  "SUBAGENT_TERMINAL_TYPES =
     [''subagent_completed'', ''subagent_failed'', ''subagent_cancelled'', ''subagent_timed_out'']"

definition subagent_step :: "string list \<Rightarrow> session_event \<Rightarrow> string list" where
  "subagent_step active event =
     (let event_type = get_str (se_payload event) ''type'';
        child = strip (get_str (se_payload event) ''child_run_id'') in
      if child = [] then active
      else if event_type = ''subagent_started''
      then (if child \<in> set active then active else active @ [child])
      else if event_type \<in> set SUBAGENT_TERMINAL_TYPES then remove1 child active
      else active)"

definition active_subagent_run_ids :: "journal_env \<Rightarrow> journal \<Rightarrow> string \<Rightarrow> string list result" where
  "active_subagent_run_ids env j run_id =
     ebind (validate_identifier ''run_id'' run_id) (\<lambda>validated_run.
     ebind (emap (\<lambda>row. event_from_row env row (j_session_id j))
       (filter (\<lambda>row. r_run_id row = validated_run \<and> r_kind row = ''agent'') (by_sequence j))) (\<lambda>events.
     Inr (foldl subagent_step [] events)))"

text \<open>The inner loop of \<open>recoverable_approval\<close>: does a later event resolve the approval?\<close>

fun approval_resolved :: "string \<Rightarrow> string \<Rightarrow> string \<Rightarrow> session_event list \<Rightarrow> bool" where
  "approval_resolved run_id approval_id call_id [] = False"
| "approval_resolved run_id approval_id call_id (later # rest) =
     (if se_run_id later \<noteq> run_id then approval_resolved run_id approval_id call_id rest
      else let later_type = get_str (se_payload later) ''type'' in
        if later_type = ''tool_result'' \<and> call_id \<noteq> []
           \<and> strip (get_str (se_payload later) ''tool_call_id'') = call_id then True
        else if later_type = ''approval_required''
           \<and> strip (get_str (se_payload later) ''approval_id'') = approval_id then False
        else approval_resolved run_id approval_id call_id rest)"

definition dict_set :: "string \<Rightarrow> pyval \<Rightarrow> pydict \<Rightarrow> pydict" where
  "dict_set k v d = AList.update (PStr k) v d"

definition blocking_approval :: "session_event \<Rightarrow> bool" where
  "blocking_approval event =
     (se_kind event = ''approval'' \<and> se_status event = ''blocked''
      \<and> dict_get (se_payload event) ''type'' = PStr ''approval_required''
      \<and> is_graph_approval_payload (se_payload event))"

text \<open>
  The outer loop: \<open>seen\<close> are the runs of the blocking approvals so far, whose number per run
  is \<open>approval_counts\<close>.
\<close>

fun scan_approvals :: "string list \<Rightarrow> pydict option \<Rightarrow> session_event list \<Rightarrow> pydict option" where
  "scan_approvals seen pending [] = pending"
| "scan_approvals seen pending (event # rest) =
     (if \<not> blocking_approval event then scan_approvals seen pending rest
      else let seen' = se_run_id event # seen; payload = se_payload event;
        approval_id = strip (get_str payload ''approval_id'');
        call_id = strip (get_str payload ''tool_call_id'');
        tool_name = strip (get_str payload ''tool'') in
        scan_approvals seen'
          (if approval_resolved (se_run_id event) approval_id call_id rest then pending
           else Some (dict_set ''resume_attempt'' (PInt (int (count_list seen' (se_run_id event))))
                  (dict_set ''tool'' (PStr tool_name)
                  (dict_set ''session_id'' (PStr (se_session_id event))
                  (dict_set ''run_id'' (PStr (se_run_id event)) payload)))))
          rest)"

definition recoverable_approval :: "journal_env \<Rightarrow> journal \<Rightarrow> string option \<Rightarrow> pydict option result" where
  "recoverable_approval env j run_id =
     ebind (case run_id of None \<Rightarrow> Inr None | Some r \<Rightarrow>
              ebind (validate_identifier ''run_id'' r) (\<lambda>v. Inr (Some v))) (\<lambda>wanted.
     ebind (emap (\<lambda>row. event_from_row env row (j_session_id j))
       (filter (\<lambda>row. (case wanted of None \<Rightarrow> True | Some r \<Rightarrow> r_run_id row = r)
                    \<and> \<not> list_ex (is_terminal_of (r_run_id row)) (j_events j)) (by_sequence j)))
       (\<lambda>events. Inr (scan_approvals [] None events)))"

text \<open>\<open>run_resume_context\<close>: the last user message and the last surface context of a run.\<close>

definition resume_scan :: "string \<times> pydict \<Rightarrow> event_row \<Rightarrow> (string \<times> pydict) result" where
  "resume_scan st row = ebind (plain_loads (r_payload row)) (\<lambda>payload.
     let surface = (if dict_get payload ''event'' = PStr ''run_started''
           then (case dict_get payload ''surface_context'' of
               PDict c \<Rightarrow> map (\<lambda>(k, v). (PStr (py_str k), v)) c
             | _ \<Rightarrow> snd st)
           else snd st);
       content = (if r_kind row = ''user''
           then (case dict_get payload ''content'' of PStr t \<Rightarrow> t | _ \<Rightarrow> fst st) else fst st) in
     Inr (content, surface))"

definition run_resume_context :: "journal \<Rightarrow> string \<Rightarrow> (string \<times> pydict) option result" where
  "run_resume_context j run_id =
     ebind (validate_identifier ''run_id'' run_id) (\<lambda>validated_run.
     ebind (efold resume_scan ([], [])
       (filter (\<lambda>row. r_run_id row = validated_run) (by_sequence j))) (\<lambda>st.
     Inr (if fst st \<noteq> [] then Some st else None)))"

section \<open>The journal invariant\<close>

definition journal_wf :: "journal_env \<Rightarrow> journal \<Rightarrow> bool" where
  "journal_wf env j \<longleftrightarrow>
     map r_sequence (j_events j) = [1..j_seq j] \<and> 0 \<le> j_seq j \<and>
     distinct (map r_event_id (j_events j)) \<and>
     (\<forall>row \<in> set (j_events j). \<exists>e. event_from_row env row (j_session_id j) = Inr e) \<and>
     (\<forall>run. length (filter (is_terminal_of run) (j_events j)) \<le> 1) \<and>
     (\<exists>f. j_fence j = Some f \<and> 1 \<le> f \<and>
        (\<forall>l. j_lease j = Some l \<longrightarrow> 1 \<le> l_fencing_token l \<and> l_fencing_token l < f))"

text \<open>A fresh database: no events, no lease, and the first token is 1.\<close>

definition new_journal :: "string \<Rightarrow> journal" where
  "new_journal session =
     \<lparr>j_session_id = session, j_events = [], j_seq = 0, j_lease = None, j_fence = Some 1\<rparr>"

lemma new_journal_wf [simp]: "journal_wf env (new_journal s)"
  by (simp add: journal_wf_def new_journal_def)

lemma via_connect_Inr [simp]: "via_connect m = Inr x \<longleftrightarrow> m = Inr x"
  by (auto simp: via_connect_def split: sum.splits py_error.splits)

lemma lease_conflict_Inr [simp]: "lease_conflict_of j m = Inr x \<longleftrightarrow> m = Inr x"
  by (auto simp: lease_conflict_of_def split: sum.splits py_error.splits)

lemma by_sequence_wf: "journal_wf env j \<Longrightarrow> by_sequence j = j_events j"
proof -
  assume "journal_wf env j"
  then have "sorted (map r_sequence (j_events j))" by (simp add: journal_wf_def)
  then show ?thesis unfolding by_sequence_def by (rule sort_key_id_if_sorted)
qed

lemma insert_event_wf [inv_intros]:
  assumes wf: "journal_wf env j" and ins: "insert_event env j v = Inr (j', e)"
  shows "journal_wf env j'" and "j_lease j' = j_lease j" and "j_fence j' = j_fence j"
    and "j_events j' = j_events j @ [new_row j v]" and "j_session_id j' = j_session_id j"
    and "event_from_row env (new_row j v) (j_session_id j) = Inr e"
proof -
  from ins have fresh: "\<forall>row \<in> set (j_events j). r_event_id row \<noteq> v_event_id v"
    and noterm: "v_kind v = ''terminal'' \<longrightarrow> (\<forall>row \<in> set (j_events j). \<not> is_terminal_of (v_run_id v) row)"
    and row: "event_from_row env (new_row j v) (j_session_id j) = Inr e"
    and j': "j' = j\<lparr>j_events := j_events j @ [new_row j v], j_seq := j_seq j + 1\<rparr>"
    by (auto simp: insert_event_def split: if_splits)
  have one: "length (filter (is_terminal_of run) (j_events j @ [new_row j v])) \<le> 1" for run
  proof (cases "is_terminal_of run (new_row j v)")
    case True
    then have "filter (is_terminal_of run) (j_events j) = []"
      using noterm by (auto simp: is_terminal_of_def new_row_def filter_empty_conv)
    with True show ?thesis by simp
  next
    case False
    with wf show ?thesis by (simp add: journal_wf_def)
  qed
  have "map r_sequence (j_events j @ [new_row j v]) = [1..j_seq j + 1]"
    using wf by (simp add: journal_wf_def upto_snoc new_row_def)
  then show "journal_wf env j'"
    using wf fresh row one unfolding j' by (auto simp: journal_wf_def new_row_def)
  show "j_lease j' = j_lease j" "j_fence j' = j_fence j"
    "j_events j' = j_events j @ [new_row j v]" "j_session_id j' = j_session_id j"
    "event_from_row env (new_row j v) (j_session_id j) = Inr e"
    using row by (simp_all add: j')
qed

lemma drop_lease_wf [inv_intros]: "journal_wf env j \<Longrightarrow> journal_wf env (j\<lparr>j_lease := None\<rparr>)"
  by (auto simp: journal_wf_def)

lemma release_if_wf [inv_intros]: "journal_wf env j \<Longrightarrow> journal_wf env (release_if run j)"
  by (auto simp: release_if_def intro: inv_intros split: option.splits)

lemma release_if_events [simp]:
  "j_events (release_if run j) = j_events j" "j_fence (release_if run j) = j_fence j"
  "j_session_id (release_if run j) = j_session_id j"
  by (auto simp: release_if_def split: option.splits)

lemma take_lease_wf [inv_intros]:
  assumes wf: "journal_wf env j" and alloc: "allocate_fencing_token j = Inr (j1, t)"
    and put: "put_lease j1 run owner pid start t now = Inr j2"
  shows "journal_wf env j2" and "j_lease j = None" and "j_fence j = Some t" and "j_fence j2 = Some (t + 1)"
    and "j_events j2 = j_events j" and "j_session_id j2 = j_session_id j" and "j_seq j2 = j_seq j"
    and "j_lease j2 = Some \<lparr>l_run_id = run, l_owner_id = owner, l_owner_pid = pid,
           l_owner_process_start = start, l_fencing_token = t, l_acquired_at = now\<rparr>"
  using assms
  by (auto simp: allocate_fencing_token_def put_lease_def journal_wf_def split: option.splits if_splits)

lemma terminal_in_transaction_wf [inv_intros]:
  assumes "journal_wf env j" and "terminal_in_transaction env j v = Inr (j', e)"
  shows "journal_wf env j'" and "j_lease j' = j_lease j" and "j_fence j' = j_fence j"
  using assms
  by (auto simp: terminal_in_transaction_def dest: insert_event_wf split: option.splits)

section \<open>Histories\<close>

text \<open>
  \<open>journal_extends j j'\<close>: events are only appended, the fence only grows, and a lease is either
  the old one or carries a token that was not allocated before.
\<close>

definition journal_extends :: "journal \<Rightarrow> journal \<Rightarrow> bool" where
  "journal_extends j j' \<longleftrightarrow> j_session_id j' = j_session_id j \<and> (\<exists>rows. j_events j' = j_events j @ rows) \<and>
     the (j_fence j) \<le> the (j_fence j') \<and>
     (\<forall>l. j_lease j' = Some l \<longrightarrow> j_lease j = Some l \<or> the (j_fence j) \<le> l_fencing_token l)"

lemma journal_extends_refl [simp]: "journal_extends j j"
  by (simp add: journal_extends_def)

lemma journal_extends_trans: "journal_extends j j1 \<Longrightarrow> journal_extends j1 j2 \<Longrightarrow> journal_extends j j2"
  unfolding journal_extends_def by force

lemma insert_event_ext: "insert_event env j v = Inr (j', e) \<Longrightarrow> journal_extends j j'"
  by (auto simp: insert_event_def journal_extends_def split: if_splits)

lemma terminal_in_transaction_ext: "terminal_in_transaction env j v = Inr (j', e) \<Longrightarrow> journal_extends j j'"
  by (auto simp: terminal_in_transaction_def dest: insert_event_ext split: option.splits)

lemma drop_lease_ext: "journal_extends j (j\<lparr>j_lease := None\<rparr>)"
  by (simp add: journal_extends_def)

lemma release_if_ext: "journal_extends j (release_if run j)"
  by (auto simp: release_if_def drop_lease_ext split: option.splits)

lemma take_lease_ext:
  "allocate_fencing_token j = Inr (j1, t) \<Longrightarrow> put_lease j1 run owner pid start t now = Inr j2 \<Longrightarrow>
   journal_extends j j2"
  by (auto simp: allocate_fencing_token_def put_lease_def journal_extends_def split: option.splits if_splits)

lemmas ext_intros = insert_event_ext terminal_in_transaction_ext drop_lease_ext release_if_ext
  take_lease_ext journal_extends_trans [OF terminal_in_transaction_ext release_if_ext]
  journal_extends_trans [OF insert_event_ext drop_lease_ext]
  journal_extends_trans [OF take_lease_ext insert_event_ext]

text \<open>Every operation that writes, with the arguments its caller chooses.\<close>

datatype journal_op =
    OpAppend string string string pyval "string option" "string option" "string option" "int option"
  | OpTerminalOnce string string pyval "string option" "string option" "string option" "int option"
  | OpTerminalRelease string string pyval "string option" "string option" "string option" "int option"
  | OpAcquire string string int
  | OpBegin string string int "pydict option"
  | OpResume string string int
  | OpRelease string string int
  | OpRecover string

fun journal_exec :: "journal_env \<Rightarrow> string \<Rightarrow> string \<Rightarrow> journal \<Rightarrow> journal_op \<Rightarrow> journal result" where
  "journal_exec env uuid now j (OpAppend run kind status payload eid ts owner token) =
     ebind (append_event env uuid now j run kind status payload eid ts owner token) (\<lambda>r. Inr (fst r))"
| "journal_exec env uuid now j (OpTerminalOnce run status payload eid ts owner token) =
     ebind (append_terminal_once env uuid now j run status payload eid ts owner token) (\<lambda>r. Inr (fst r))"
| "journal_exec env uuid now j (OpTerminalRelease run status payload eid ts owner token) =
     ebind (append_terminal_and_release env uuid now j run status payload eid ts owner token) (\<lambda>r. Inr (fst r))"
| "journal_exec env uuid now j (OpAcquire run owner pid) = acquire_run_lease env now j run owner pid"
| "journal_exec env uuid now j (OpBegin run owner pid ctx) =
     ebind (begin_run env uuid now j run owner pid ctx) (\<lambda>r. Inr (fst r))"
| "journal_exec env uuid now j (OpResume run owner pid) =
     ebind (resume_run env now j run owner pid) (\<lambda>r. Inr (fst r))"
| "journal_exec env uuid now j (OpRelease run owner token) =
     ebind (release_run_lease j run owner token) (\<lambda>r. Inr (fst r))"
| "journal_exec env uuid now j (OpRecover owner) =
     ebind (recover_run_lease env uuid now j owner) (\<lambda>r. Inr (fst r))"

text \<open>
  A step is one operation that commits, whoever issues it and whatever the clock, the uuid and
  the process table show. An operation that raises leaves the journal as it was.
\<close>

inductive journal_step :: "journal_env \<Rightarrow> journal \<Rightarrow> journal \<Rightarrow> bool" for env0 where
  commit: "fromisoformat env = fromisoformat env0 \<Longrightarrow> journal_exec env uuid now j op = Inr j' \<Longrightarrow>
    journal_step env0 j j'"

inductive_cases journal_stepE: "journal_step env0 j j'"

lemma append_event_Inr:
  "append_event env uuid now j run kind status payload eid ts owner token = Inr r \<longleftrightarrow>
   (\<exists>v. validated_event_input env uuid now run kind status payload eid ts = Inr v \<and>
        assert_run_lease j run owner token = Inr () \<and> insert_event env j v = Inr r)"
  by (auto simp: append_event_def ebind_def split: sum.splits py_error.splits)

lemma event_from_row_env:
  "fromisoformat env = fromisoformat env0 \<Longrightarrow> event_from_row env row s = event_from_row env0 row s"
  by (simp add: event_from_row_def validate_timestamp_def)

lemma journal_wf_env: "fromisoformat env = fromisoformat env0 \<Longrightarrow> journal_wf env j = journal_wf env0 j"
  by (simp add: journal_wf_def event_from_row_env [of env env0])

text \<open>What a committed operation has done, step by step.\<close>

lemma validate_identifier_Inr [simp]:
  "validate_identifier f v = Inr w \<longleftrightarrow> is_identifier v \<and> w = v"
  by (auto simp: validate_identifier_def)

lemma terminal_once_commit:
  assumes "append_terminal_once env uuid now j run status payload eid ts owner token = Inr (j', e)"
  obtains v where "validated_event_input env uuid now run ''terminal'' status payload eid ts = Inr v"
    and "assert_run_lease j run owner token = Inr ()" and "terminal_in_transaction env j v = Inr (j', e)"
  using assms by (auto simp: append_terminal_once_def)

lemma terminal_release_commit:
  assumes "append_terminal_and_release env uuid now j run status payload eid ts owner token = Inr (j', e)"
  obtains v j1 where "validated_event_input env uuid now run ''terminal'' status payload eid ts = Inr v"
    and "assert_run_lease j run owner token = Inr ()" and "terminal_in_transaction env j v = Inr (j1, e)"
    and "j' = release_if (v_run_id v) j1"
  using assms by (auto simp: append_terminal_and_release_def)

lemma acquire_commit:
  assumes "acquire_run_lease env now j run owner pid = Inr j'"
  obtains start j1 t where "owner_process_start env pid = Inr start"
    and "not_terminal j run = Inr ()" and "allocate_fencing_token j = Inr (j1, t)"
    and "put_lease j1 run owner pid start t now = Inr j'"
  using assms by (auto simp: acquire_run_lease_def)

lemma begin_commit:
  assumes "begin_run env uuid now j run owner pid ctx = Inr (j', res)"
  obtains start v j1 j2 where "owner_process_start env pid = Inr start"
    and "validated_event_input env uuid now run ''system'' ''running''
           (PDict ((PStr ''event'', PStr ''run_started'') #
             (case ctx of None \<Rightarrow> [] | Some c \<Rightarrow> [(PStr ''surface_context'', PDict c)]))) None (Some now) = Inr v"
    and "not_terminal j run = Inr ()"
    and "allocate_fencing_token j = Inr (j1, br_fencing_token res)"
    and "put_lease j1 run owner pid start (br_fencing_token res) now = Inr j2"
    and "insert_event env j2 v = Inr (j', br_event res)"
proof (cases "j_lease j")
  case None
  with assms that show ?thesis by (auto simp: begin_run_def Let_def)
next
  case (Some l)
  with assms show ?thesis by (auto simp: begin_run_def Let_def)
qed

lemma resume_commit:
  assumes "resume_run env now j run owner pid = Inr (j', t)"
  obtains start j1 where "owner_process_start env pid = Inr start"
    and "\<exists>row \<in> set (j_events j). r_run_id row = run" and "not_terminal j run = Inr ()"
    and "allocate_fencing_token j = Inr (j1, t)" and "put_lease j1 run owner pid start t now = Inr j'"
proof (cases "j_lease j")
  case None
  with assms that show ?thesis by (auto simp: resume_run_def)
next
  case (Some l)
  with assms show ?thesis by (auto simp: resume_run_def)
qed

lemma release_commit:
  assumes "release_run_lease j run owner t = Inr (j', b)"
  obtains "assert_run_lease j run (Some owner) (Some t) = Inr ()" and "j' = release_if run j"
  using assms by (auto simp: release_run_lease_def)

lemma recover_commit:
  assumes "recover_run_lease env uuid now j rec = Inr (j', out)"
  obtains "j' = j" and "out = None"
  | l where "j_lease j = Some l" and "j' = j\<lparr>j_lease := None\<rparr>" and "out = None"
  | l v j1 e where "j_lease j = Some l" and "has_unresolved_approval j (l_run_id l) = Inr False"
      and "validated_event_input env uuid now (l_run_id l) ''terminal'' ''interrupted''
             (PDict interrupted_payload) None None = Inr v"
      and "insert_event env j v = Inr (j1, e)" and "j' = j1\<lparr>j_lease := None\<rparr>" and "out = Some e"
proof (cases "j_lease j")
  case None
  with assms that(1) show ?thesis by (auto simp: recover_run_lease_def)
next
  case (Some l)
  with assms that show ?thesis
    by (auto simp: recover_run_lease_def Let_def split: if_splits option.splits)
qed

lemma journal_exec_ext: "journal_exec env uuid now j op = Inr j' \<Longrightarrow> journal_extends j j'"
  by (cases op)
    (auto simp: append_event_Inr elim!: terminal_once_commit terminal_release_commit acquire_commit
      begin_commit resume_commit release_commit recover_commit intro: ext_intros)

lemma journal_exec_wf:
  "journal_wf env j \<Longrightarrow> journal_exec env uuid now j op = Inr j' \<Longrightarrow> journal_wf env j'"
  by (cases op)
    (auto simp: append_event_Inr elim!: terminal_once_commit terminal_release_commit acquire_commit
      begin_commit resume_commit release_commit recover_commit intro: inv_intros)

section \<open>The journal meets its contracts\<close>

interpretation journal_lease: fenced_lease "journal_step env0" "journal_wf env0" "\<lambda>j. the (j_fence j)"
  "\<lambda>j. map_option l_fencing_token (j_lease j)" for env0
proof unfold_locales
  fix j j' :: journal and t
  assume wf: "journal_wf env0 j"
  show "map_option l_fencing_token (j_lease j) = Some t \<Longrightarrow> t < the (j_fence j)"
    using wf by (auto simp: journal_wf_def)
  assume "journal_step env0 j j'"
  then obtain env uuid now op where env: "fromisoformat env = fromisoformat env0"
    and ex: "journal_exec env uuid now j op = Inr j'" by (auto elim: journal_stepE)
  show "journal_wf env0 j'" using wf journal_exec_wf [OF _ ex] journal_wf_env [OF env] by blast
  have ext: "journal_extends j j'" using journal_exec_ext [OF ex] .
  show "the (j_fence j) \<le> the (j_fence j')" using ext by (simp add: journal_extends_def)
  show "map_option l_fencing_token (j_lease j') = Some t \<Longrightarrow>
      map_option l_fencing_token (j_lease j) = Some t \<or> the (j_fence j) \<le> t"
    using ext by (auto simp: journal_extends_def)
qed

interpretation journal_log: sequenced_log "journal_wf env0" j_events r_sequence rows_after for env0
proof unfold_locales
  fix j assume wf: "journal_wf env0 j"
  have "length (map r_sequence (j_events j)) = nat (j_seq j)" using wf by (simp add: journal_wf_def)
  then have "int (length (j_events j)) = j_seq j" using wf by (simp add: journal_wf_def)
  then show "map r_sequence (j_events j) = [1..int (length (j_events j))]"
    using wf by (simp add: journal_wf_def)
  show "rows_after j c n = take n (filter (\<lambda>e. c < r_sequence e) (j_events j))" for c n
    by (simp add: rows_after_def by_sequence_wf [OF wf])
qed

text \<open>
  C11: whatever operations coordinators commit on a session, the journal keeps its shape: the
  events carry the sequence numbers 1, 2, \dots without a gap, no two share an event id, and no
  run has more than one terminal event.
\<close>

theorem journal_history_wf:
  assumes "rtranclp (journal_step env) (new_journal s) j"
  shows "map r_sequence (j_events j) = [1..int (length (j_events j))] \<and>
         distinct (map r_event_id (j_events j)) \<and>
         (\<forall>run. length (filter (is_terminal_of run) (j_events j)) \<le> 1)"
proof -
  have wf: "journal_wf env j" using journal_lease.run_inv [OF assms] by simp
  with journal_log.seqs [OF wf] show ?thesis by (simp add: journal_wf_def)
qed

section \<open>A sample journal\<close>

definition sample_env :: journal_env where
  "sample_env = \<lparr>fromisoformat = (\<lambda>_. Some True), sys_platform = ''linux'', proc_stat = (\<lambda>_. FileMissing),
     boot_id = FileMissing, darwin_info = (\<lambda>_. ProbeUnavailable)\<rparr>"

definition started_row :: event_row where
  "started_row = \<lparr>r_sequence = 1, r_event_id = ''e1'', r_session_id = ''s'', r_run_id = ''run1'',
     r_kind = ''system'', r_status = ''running'', r_timestamp = ''t1'',
     r_payload = JsonText (PDict [(PStr ''event'', PStr ''run_started'')])\<rparr>"

definition started_journal :: journal where
  "started_journal = \<lparr>j_session_id = ''s'', j_events = [started_row], j_seq = 1,
     j_lease = Some \<lparr>l_run_id = ''run1'', l_owner_id = ''owner'', l_owner_pid = -1,
       l_owner_process_start = [], l_fencing_token = 1, l_acquired_at = ''t1''\<rparr>, j_fence = Some 2\<rparr>"

definition started_event :: session_event where
  "started_event = \<lparr>se_event_id = ''e1'', se_session_id = ''s'', se_run_id = ''run1'', se_sequence = 1,
     se_kind = ''system'', se_status = ''running'', se_timestamp = ''t1'',
     se_payload = [(PStr ''event'', PStr ''run_started'')]\<rparr>"

lemma sample_begin:
  "begin_run sample_env ''e1'' ''t1'' (new_journal ''s'') ''run1'' ''owner'' (-1) None
   = Inr (started_journal, \<lparr>br_event = started_event, br_fencing_token = 1\<rparr>)"
  by code_simp

lemma sample_started: "rtranclp (journal_step sample_env) (new_journal ''s'') started_journal"
proof -
  have "journal_exec sample_env ''e1'' ''t1'' (new_journal ''s'') (OpBegin ''run1'' ''owner'' (-1) None)
      = Inr started_journal" by (simp add: sample_begin)
  then have "journal_step sample_env (new_journal ''s'') started_journal" by (rule commit [OF refl])
  then show ?thesis by (rule r_into_rtranclp)
qed

lemma started_wf [simp]: "journal_wf sample_env started_journal"
  using journal_lease.run_inv [OF sample_started] by simp

lemma sample_release: "release_run_lease started_journal ''run1'' ''owner'' 1
   = Inr (started_journal\<lparr>j_lease := None\<rparr>, True)"
  by code_simp

lemma sample_released: "journal_step sample_env started_journal (started_journal\<lparr>j_lease := None\<rparr>)"
  by (rule commit [OF refl, of sample_env "''e''" "''t''" _ "OpRelease ''run1'' ''owner'' 1"])
    (simp add: sample_release)

section \<open>Fencing\<close>

lemma lease_write_guard:
  assumes "assert_run_lease j run (Some owner) (Some t) = Inr ()"
  shows "\<exists>l. j_lease j = Some l \<and> l_run_id l = run \<and> l_owner_id l = owner \<and> l_fencing_token l = t"
  using assms by (auto simp: assert_run_lease_def split: option.splits if_splits)

lemma not_Inr_Inl: "(\<And>x. m \<noteq> Inr x) \<Longrightarrow> \<exists>e. m = Inl e"
  by (cases m) auto

lemma fenced_writes_raise:
  assumes "map_option l_fencing_token (j_lease j) \<noteq> Some t"
  shows "\<exists>e. append_event env uuid now j run kind status payload eid ts (Some owner) (Some t) = Inl e"
    and "\<exists>e. append_terminal_once env uuid now j run status payload eid ts (Some owner) (Some t) = Inl e"
    and "\<exists>e. append_terminal_and_release env uuid now j run status payload eid ts (Some owner) (Some t) = Inl e"
    and "\<exists>e. release_run_lease j run owner t = Inl e"
proof -
  have no: "assert_run_lease j run (Some owner) (Some t) \<noteq> Inr ()" using assms lease_write_guard by fastforce
  show "\<exists>e. append_event env uuid now j run kind status payload eid ts (Some owner) (Some t) = Inl e"
    using no by (intro not_Inr_Inl) (simp add: append_event_Inr)
  show "\<exists>e. append_terminal_once env uuid now j run status payload eid ts (Some owner) (Some t) = Inl e"
    using no by (intro not_Inr_Inl) (auto elim: terminal_once_commit)
  show "\<exists>e. append_terminal_and_release env uuid now j run status payload eid ts (Some owner) (Some t) = Inl e"
    using no by (intro not_Inr_Inl) (auto elim: terminal_release_commit)
  show "\<exists>e. release_run_lease j run owner t = Inl e"
    using no by (intro not_Inr_Inl) (auto elim: release_commit)
qed

theorem journal_history_wf_witness:
  "map r_sequence (j_events started_journal) = [1..int (length (j_events started_journal))]"
  using journal_history_wf [OF sample_started] by blast

text \<open>
  C1: a coordinator that lost its lease is fenced for good. Once the token is not the one in
  the lease table, every later write that presents it, whatever happened in between, raises.
\<close>

theorem stale_owner_fenced:
  assumes "rtranclp (journal_step env0) (new_journal s) j" and "t < the (j_fence j)"
    and "map_option l_fencing_token (j_lease j) \<noteq> Some t" and "rtranclp (journal_step env0) j j'"
  shows "(\<exists>e. append_event env uuid now j' run kind status payload eid ts (Some owner) (Some t) = Inl e) \<and>
    (\<exists>e. append_terminal_once env uuid now j' run status payload eid ts (Some owner) (Some t) = Inl e) \<and>
    (\<exists>e. append_terminal_and_release env uuid now j' run status payload eid ts (Some owner) (Some t) = Inl e) \<and>
    (\<exists>e. release_run_lease j' run owner t = Inl e)"
proof -
  have "journal_wf env0 j" using journal_lease.run_inv [OF assms(1)] by simp
  then have "map_option l_fencing_token (j_lease j') \<noteq> Some t"
    using journal_lease.lost_forever [OF assms(4)] assms(2,3) by blast
  then show ?thesis by (intro conjI fenced_writes_raise)
qed

theorem stale_owner_fenced_witness:
  "\<exists>e. append_event sample_env ''e2'' ''t2'' (started_journal\<lparr>j_lease := None\<rparr>) ''run1'' ''tool'' ''running''
     (PDict []) None None (Some ''owner'') (Some 1) = Inl e"
  using stale_owner_fenced [OF rtranclp.rtrancl_into_rtrancl [OF sample_started sample_released],
      of 1 _ sample_env "''e2''" "''t2''" "''run1''" "''tool''" "''running''" "PDict []" None None "''owner''"]
  by (simp add: started_journal_def)

text \<open>
  While a run holds the lease, only the lease holder writes to it. An append or a terminal
  event for the leased run commits only if the caller presents exactly the owner and the fencing token
  that the lease table holds.
\<close>

theorem leased_run_single_writer:
  assumes "j_lease j = Some l" and "l_run_id l = run"
    and "append_event env uuid now j run kind status payload eid ts owner token = Inr r \<or>
      append_terminal_once env uuid now j run status payload eid ts owner token = Inr r \<or>
      append_terminal_and_release env uuid now j run status payload eid ts owner token = Inr r"
  shows "owner = Some (l_owner_id l) \<and> token = Some (l_fencing_token l)"
proof -
  have "assert_run_lease j run owner token = Inr ()"
    using assms(3) by (cases r) (auto simp: append_event_Inr elim: terminal_once_commit terminal_release_commit)
  then show ?thesis using assms(1,2) by (auto simp: assert_run_lease_def split: if_splits)
qed

lemma sample_append: "\<not> isl (append_event sample_env ''e2'' ''t2'' started_journal ''run1'' ''tool'' ''running''
     (PDict []) None None (Some ''owner'') (Some 1))"
  by code_simp

theorem leased_run_single_writer_witness:
  "\<exists>r. append_event sample_env ''e2'' ''t2'' started_journal ''run1'' ''tool'' ''running''
     (PDict []) None None (Some ''owner'') (Some 1) = Inr r \<and>
     Some (1::int) = Some (l_fencing_token (the (j_lease started_journal)))"
proof -
  obtain r where r: "append_event sample_env ''e2'' ''t2'' started_journal ''run1'' ''tool'' ''running''
     (PDict []) None None (Some ''owner'') (Some 1) = Inr r"
    using sample_append by (metis isl_def old.sum.exhaust)
  have "j_lease started_journal = Some (the (j_lease started_journal))"
    "l_run_id (the (j_lease started_journal)) = ''run1''" by (simp_all add: started_journal_def)
  from leased_run_single_writer [OF this disjI1 [OF r]] r show ?thesis by blast
qed

section \<open>Starting and ending a run\<close>

lemma insert_event_fields:
  assumes "insert_event env j v = Inr (j', e)"
  shows "se_sequence e = j_seq j + 1" and "se_event_id e = v_event_id v" and "se_run_id e = v_run_id v"
    and "se_kind e = v_kind v" and "se_status e = v_status v" and "j_seq j' = j_seq j + 1"
    and "j_events j' = j_events j @ [new_row j v]" and "j_lease j' = j_lease j"
  using assms by (auto simp: insert_event_def event_from_row_def new_row_def split: if_splits)

lemma validated_input_fields:
  assumes "validated_event_input env uuid now run kind status payload eid ts = Inr v"
  shows "v_run_id v = run" and "v_kind v = kind" and "v_status v = status" and "is_identifier run"
  using assms by (auto simp: validated_event_input_def Let_def split: pyval.splits)

text \<open>
  \<open>begin_run\<close> is atomic. When it returns, nobody held the lease before and the run was
  not terminal; afterwards the caller holds it under a token never handed out before, and exactly
  one event, the running start event of this run with the next sequence number, has been appended.
\<close>

theorem begin_run_atomic:
  assumes "journal_wf env j" and "begin_run env uuid now j run owner pid ctx = Inr (j', res)"
  shows "j_lease j = None \<and> (\<forall>row \<in> set (j_events j). \<not> is_terminal_of run row) \<and>
    (\<exists>l. j_lease j' = Some l \<and> l_run_id l = run \<and> l_owner_id l = owner \<and> l_owner_pid l = pid \<and>
       l_fencing_token l = br_fencing_token res) \<and>
    j_fence j = Some (br_fencing_token res) \<and> j_fence j' = Some (br_fencing_token res + 1) \<and>
    (\<exists>row. j_events j' = j_events j @ [row] \<and> event_from_row env row (j_session_id j) = Inr (br_event res)) \<and>
    se_run_id (br_event res) = run \<and> se_kind (br_event res) = ''system'' \<and>
    se_status (br_event res) = ''running'' \<and> se_sequence (br_event res) = j_seq j + 1"
  using assms(2)
proof (cases rule: begin_commit)
  case (1 start v j1 j2)
  note lease = take_lease_wf [OF assms(1) 1(4,5)]
  note ins = insert_event_wf [OF lease(1) 1(6)]
  have "\<forall>row \<in> set (j_events j). \<not> is_terminal_of run row" using 1(3) by (simp add: not_terminal_def)
  then show ?thesis
    using lease ins insert_event_fields [OF 1(6)] validated_input_fields [OF 1(2)] by (auto simp: not_terminal_def)
qed

theorem begin_run_atomic_witness:
  "j_lease (new_journal ''s'') = None \<and> se_sequence started_event = 1"
  using begin_run_atomic [OF new_journal_wf sample_begin] by (simp add: new_journal_def)

lemma validate_identifier_ok [simp]: "is_identifier v \<Longrightarrow> validate_identifier f v = Inr v"
  by simp

lemma event_from_row_new:
  assumes v: "validated_event_input env uuid now run kind status (PDict d) eid ts = Inr v"
    and u: "unique_objects (PDict d)"
  shows "\<exists>e. event_from_row env (new_row j v) (j_session_id j) = Inr e \<and>
    canon (PDict d) = PDict (se_payload e) \<and> (\<forall>k. dict_get (se_payload e) k = canon (dict_get d k))"
proof -
  from v have s: "strict_json_value (PDict d)" and v': "v_payload v = dumps d"
    by (auto simp: validated_event_input_def Let_def)
  from load_dumps [OF s u] obtain d' where d': "load_payload (dumps d) = Inr d'"
    "canon (PDict d) = PDict d'" "\<forall>k. dict_get d' k = canon (dict_get d k)" by blast
  show ?thesis
    using v d' v' by (auto simp: validated_event_input_def Let_def event_from_row_def new_row_def as_corruption_def
      simp del: canon.simps split: sum.splits)
qed

text \<open>
  \<open>begin_run\<close> is never refused without reason. With valid arguments and a fresh event id
  it succeeds exactly when no run holds the lease and this run has no terminal event.
\<close>

theorem begin_run_enabled:
  assumes "journal_wf env j" and "is_identifier run" and "is_identifier owner"
    and "owner_process_start env pid = Inr start" and "is_identifier uuid"
    and "uuid \<notin> r_event_id ` set (j_events j)" and "now \<noteq> []" and "fromisoformat env now = Some True"
  shows "(\<exists>j' res. begin_run env uuid now j run owner pid None = Inr (j', res)) \<longleftrightarrow>
    j_lease j = None \<and> (\<forall>row \<in> set (j_events j). \<not> is_terminal_of run row)"
proof
  assume "\<exists>j' res. begin_run env uuid now j run owner pid None = Inr (j', res)"
  then show "j_lease j = None \<and> (\<forall>row \<in> set (j_events j). \<not> is_terminal_of run row)"
    using assms(1) by (auto elim!: begin_commit dest: take_lease_wf(2) simp: not_terminal_def)
next
  assume free: "j_lease j = None \<and> (\<forall>row \<in> set (j_events j). \<not> is_terminal_of run row)"
  let ?d = "[(PStr ''event'', PStr ''run_started'')]"
  obtain f where f: "j_fence j = Some f" "1 \<le> f" using assms(1) by (auto simp: journal_wf_def)
  have size: "json_bytes (PDict ?d) \<le> MAX_PAYLOAD_BYTES" by code_simp
  have "strict_json_value (PDict ?d)" by code_simp
  then obtain v where v: "validated_event_input env uuid now run ''system'' ''running'' (PDict ?d) None (Some now) = Inr v"
    using assms size by (auto simp: validated_event_input_def KINDS_def STATUSES_def validate_kind_status_def
      validate_timestamp_def validate_identifier_def simp del: json_bytes.simps)
  let ?l = "\<lparr>l_run_id = run, l_owner_id = owner, l_owner_pid = pid, l_owner_process_start = start,
     l_fencing_token = f, l_acquired_at = now\<rparr>"
  let ?j2 = "j\<lparr>j_fence := Some (f + 1), j_lease := Some ?l\<rparr>"
  obtain e where e: "event_from_row env (new_row ?j2 v) (j_session_id ?j2) = Inr e"
    using event_from_row_new [OF v, of ?j2] by auto
  have "v_event_id v = uuid" "v_kind v = ''system''" using v by (auto simp: validated_event_input_def Let_def)
  then have "\<forall>row \<in> set (j_events j). r_event_id row \<noteq> v_event_id v" "v_kind v \<noteq> ''terminal''"
    using assms(6) by (force simp: image_iff)+
  then have "\<exists>j' e. insert_event env ?j2 v = Inr (j', e)" using e by (simp add: insert_event_def)
  then show "\<exists>j' res. begin_run env uuid now j run owner pid None = Inr (j', res)"
    using free f v assms(2-4)
    by (auto simp: begin_run_def Let_def not_terminal_def allocate_fencing_token_def put_lease_def)
qed

theorem begin_run_enabled_witness:
  "(\<exists>j' res. begin_run sample_env ''e2'' ''t2'' started_journal ''run2'' ''owner'' (-1) None = Inr (j', res)) \<longleftrightarrow> False"
proof -
  have "is_identifier ''run2''" "is_identifier ''owner''" "is_identifier ''e2''" by code_simp+
  moreover have "owner_process_start sample_env (-1) = Inr []" by (simp add: owner_process_start_def)
  ultimately show ?thesis
    using begin_run_enabled [OF started_wf, of "''run2''" "''owner''" "-1" "[]" "''e2''" "''t2''"]
    by (simp add: started_journal_def started_row_def sample_env_def)
qed

lemma terminal_found:
  assumes wf: "journal_wf env j" and row: "row \<in> set (j_events j)" "is_terminal_of run row"
  shows "fetchone (is_terminal_of run) (by_sequence j) = Some row"
proof -
  have len: "length (filter (is_terminal_of run) (j_events j)) \<le> 1" using wf by (simp add: journal_wf_def)
  have "row \<in> set (filter (is_terminal_of run) (j_events j))" using row by simp
  with len have "set (filter (is_terminal_of run) (j_events j)) = {row}"
    by (cases "filter (is_terminal_of run) (j_events j)") auto
  then have "row' \<in> set (j_events j) \<Longrightarrow> is_terminal_of run row' \<Longrightarrow> row' = row" for row' by auto
  with row show ?thesis unfolding by_sequence_wf [OF wf] by (intro fetchone_unique)
qed

lemma terminal_in_transaction_stored:
  assumes wf: "journal_wf env j" and t: "terminal_in_transaction env j v = Inr (j', e)"
    and k: "v_kind v = ''terminal''"
  shows "\<exists>row \<in> set (j_events j'). is_terminal_of (v_run_id v) row \<and>
    event_from_row env row (j_session_id j') = Inr e"
proof (cases "fetchone (is_terminal_of (v_run_id v)) (by_sequence j)")
  case None
  with t have "insert_event env j v = Inr (j', e)" by (simp add: terminal_in_transaction_def)
  from insert_event_wf [OF wf this] k show ?thesis by (auto simp: is_terminal_of_def new_row_def)
next
  case (Some row)
  from fetchone_SomeD [OF this] have "row \<in> set (j_events j)" "is_terminal_of (v_run_id v) row"
    by (simp_all add: by_sequence_wf [OF wf])
  with Some t show ?thesis by (auto simp: terminal_in_transaction_def)
qed

lemma run_extends: "rtranclp (journal_step env0) j j' \<Longrightarrow> journal_extends j j'"
  by (induction rule: rtranclp_induct)
    (auto elim!: journal_stepE intro: journal_extends_trans journal_exec_ext)

text \<open>
  C12: the outcome of a run is decided once. After \<open>append_terminal_and_release\<close> returned
  the event \<open>e\<close>, the run does not hold the lease, and whatever is committed later, every other
  attempt to finish the run that returns at all returns this same event and adds no event.
\<close>

theorem terminal_decided_once:
  assumes "journal_wf env j"
    and "append_terminal_and_release env uuid now j run status payload eid ts owner token = Inr (j1, e)"
    and "rtranclp (journal_step env) j1 j2"
    and "append_terminal_and_release env uuid' now' j2 run status' payload' eid' ts' owner' token' = Inr (j3, e') \<or>
         append_terminal_once env uuid' now' j2 run status' payload' eid' ts' owner' token' = Inr (j3, e')"
  shows "active_run_id j1 \<noteq> Some run \<and> se_kind e = ''terminal'' \<and> se_run_id e = run \<and> e' = e \<and>
    j_events j3 = j_events j2"
proof -
  obtain v j0 where v: "validated_event_input env uuid now run ''terminal'' status payload eid ts = Inr v"
    and t: "terminal_in_transaction env j v = Inr (j0, e)" and j1: "j1 = release_if (v_run_id v) j0"
    using assms(2) by (blast elim: terminal_release_commit)
  note vf = validated_input_fields [OF v]
  have wf1: "journal_wf env j1" unfolding j1 by (rule release_if_wf [OF terminal_in_transaction_wf(1) [OF assms(1) t]])
  obtain row where row: "row \<in> set (j_events j1)" "is_terminal_of run row"
    and e: "event_from_row env row (j_session_id j1) = Inr e"
    using terminal_in_transaction_stored [OF assms(1) t] vf j1 by auto
  have wf2: "journal_wf env j2" using journal_lease.run_inv [OF assms(3) wf1] .
  have "row \<in> set (j_events j2)" and s: "j_session_id j2 = j_session_id j1"
    using row run_extends [OF assms(3)] by (auto simp: journal_extends_def)
  from terminal_found [OF wf2 this(1) row(2)]
  have f: "fetchone (is_terminal_of run) (by_sequence j2) = Some row" .
  have "terminal_in_transaction env j2 w = Inr (jx, ex) \<Longrightarrow> v_run_id w = run \<Longrightarrow> ex = e \<and> jx = j2" for w jx ex
    using f e s by (auto simp: terminal_in_transaction_def)
  then have same: "terminal_in_transaction env j2 w = Inr (jx, ex) \<Longrightarrow>
      validated_event_input env uuid' now' run ''terminal'' status' payload' eid' ts' = Inr w \<Longrightarrow> ex = e \<and> jx = j2"
    for w jx ex using validated_input_fields(1) by blast
  from assms(4) have "e' = e \<and> j_events j3 = j_events j2"
  proof
    assume "append_terminal_and_release env uuid' now' j2 run status' payload' eid' ts' owner' token' = Inr (j3, e')"
    then show ?thesis by (rule terminal_release_commit) (use same in fastforce)
  next
    assume "append_terminal_once env uuid' now' j2 run status' payload' eid' ts' owner' token' = Inr (j3, e')"
    then show ?thesis by (rule terminal_once_commit) (use same in fastforce)
  qed
  moreover have "active_run_id j1 \<noteq> Some run"
    using vf j1 by (auto simp: release_if_def active_run_id_def split: option.splits if_splits)
  moreover have "se_kind e = ''terminal'' \<and> se_run_id e = run"
    using e row(2) by (auto simp: event_from_row_def is_terminal_of_def)
  ultimately show ?thesis by blast
qed


definition finished_journal :: journal where
  "finished_journal = started_journal\<lparr>j_lease := None, j_seq := 2, j_events := [started_row,
     \<lparr>r_sequence = 2, r_event_id = ''e2'', r_session_id = ''s'', r_run_id = ''run1'', r_kind = ''terminal'',
      r_status = ''completed'', r_timestamp = ''t2'', r_payload = JsonText (PDict [])\<rparr>]\<rparr>"

definition finished_event :: session_event where
  "finished_event = \<lparr>se_event_id = ''e2'', se_session_id = ''s'', se_run_id = ''run1'', se_sequence = 2,
     se_kind = ''terminal'', se_status = ''completed'', se_timestamp = ''t2'', se_payload = []\<rparr>"

lemma sample_finish:
  "append_terminal_and_release sample_env ''e2'' ''t2'' started_journal ''run1'' ''completed'' (PDict [])
     None None (Some ''owner'') (Some 1) = Inr (finished_journal, finished_event)"
  by code_simp

lemma sample_finish_again:
  "append_terminal_once sample_env ''e3'' ''t3'' finished_journal ''run1'' ''error'' (PDict [])
     None None None None = Inr (finished_journal, finished_event)"
  by code_simp

theorem terminal_decided_once_witness:
  "active_run_id finished_journal \<noteq> Some ''run1'' \<and> se_kind finished_event = ''terminal''"
  using terminal_decided_once [OF started_wf sample_finish rtranclp.rtrancl_refl disjI2 [OF sample_finish_again]]
  by blast

section \<open>Reading the journal\<close>

lemma read_rows:
  assumes wf: "journal_wf env j" and sub: "set rows \<subseteq> set (j_events j)"
  shows "\<exists>es. emap (\<lambda>row. event_from_row env row (j_session_id j)) rows = Inr es \<and>
    map se_sequence es = map r_sequence rows"
proof -
  have seq: "event_from_row env row (j_session_id j) = Inr e \<Longrightarrow> se_sequence e = r_sequence row" for row e
    by (auto simp: event_from_row_def)
  have "row \<in> set rows \<Longrightarrow> event_from_row env row (j_session_id j)
      = Inr (projr (event_from_row env row (j_session_id j)))" for row
    using wf sub by (force simp: journal_wf_def)
  then have "emap (\<lambda>row. event_from_row env row (j_session_id j)) rows
      = Inr (map (\<lambda>row. projr (event_from_row env row (j_session_id j))) rows)" by (rule emap_total)
  moreover have "map se_sequence (map (\<lambda>row. projr (event_from_row env row (j_session_id j))) rows)
      = map r_sequence rows"
    using wf sub seq by (force simp: journal_wf_def)
  ultimately show ?thesis by blast
qed

lemma events_length: "journal_wf env j \<Longrightarrow> int (length (j_events j)) = j_seq j"
proof -
  assume wf: "journal_wf env j"
  have "length (map r_sequence (j_events j)) = nat (j_seq j)" using wf by (simp add: journal_wf_def)
  then show ?thesis using wf by (simp add: journal_wf_def)
qed

lemma latest_sequence_wf: "journal_wf env j \<Longrightarrow> latest_sequence j = j_seq j"
proof -
  assume wf: "journal_wf env j"
  show ?thesis
  proof (cases "j_events j = []")
    case False
    then have "1 \<le> j_seq j" using events_length [OF wf] by (cases "j_events j") auto
    then have "Max {1..j_seq j} = j_seq j" by (intro Max_eqI) auto
    moreover have "r_sequence ` set (j_events j) = {1..j_seq j}"
      using wf by (metis journal_wf_def list.set_map set_upto)
    ultimately show ?thesis using False by (simp add: latest_sequence_def)
  qed (use events_length [OF wf] in \<open>simp add: latest_sequence_def\<close>)
qed

lemma replay_slice:
  assumes "journal_wf env j" and "0 \<le> after" and "1 \<le> limit" and "limit \<le> 500"
  shows "\<exists>page. replay env j after limit = Inr page \<and>
    map se_sequence (rp_items page) = [after + 1..min (after + limit) (j_seq j)] \<and>
    rp_next_cursor page = max after (min (after + limit) (j_seq j)) \<and>
    (rp_has_more page \<longleftrightarrow> after + limit < j_seq j)"
proof -
  note wf = assms(1)
  let ?rows = "rows_after j after (nat (limit + 1))"
  let ?page = "take (nat limit) ?rows"
  have page: "?page = rows_after j after (nat limit)"
    using assms by (simp add: rows_after_def min_def)
  have seqs: "map r_sequence ?page = [after + 1..min (after + limit) (j_seq j)]"
    using journal_log.page_seqs [OF wf assms(2), of "nat limit"] events_length [OF wf] assms(3) page by simp
  have "length (map r_sequence ?rows) = length [after + 1..min (after + (limit + 1)) (j_seq j)]"
    using journal_log.page_seqs [OF wf assms(2), of "nat (limit + 1)"] events_length [OF wf] assms(3) by simp
  then have more: "limit < int (length ?rows) \<longleftrightarrow> after + limit < j_seq j" using assms(3) by auto
  have "set ?page \<subseteq> set (j_events j)"
    unfolding page rows_after_def by_sequence_wf [OF wf] by (auto dest: in_set_takeD)
  from read_rows [OF wf this] obtain es where
    es: "emap (\<lambda>row. event_from_row env row (j_session_id j)) ?page = Inr es"
    and es_seq: "map se_sequence es = [after + 1..min (after + limit) (j_seq j)]" using seqs by auto
  have "(if es = [] then after else se_sequence (last es)) = max after (min (after + limit) (j_seq j))"
  proof (cases "es = []")
    case False
    then have "[after + 1..min (after + limit) (j_seq j)] \<noteq> []" using es_seq by auto
    then have le: "after + 1 \<le> min (after + limit) (j_seq j)" by (simp add: linorder_not_le)
    have "se_sequence (last es) = last [after + 1..min (after + limit) (j_seq j)]"
      using False es_seq last_map [of es se_sequence] by simp
    then show ?thesis using False le by (simp add: upto_rec2)
  qed (use es_seq in auto)
  then show ?thesis using assms es es_seq more by (simp add: replay_def Let_def)
qed

text \<open>
  C13: a replay page is exactly the slice of the journal after the cursor. On a journal in shape
  every replay with legal arguments returns; its items carry the sequence numbers that follow the
  cursor, at most \<open>limit\<close> of them; more is reported exactly when events remain, and the next
  cursor is the last sequence number delivered.
\<close>

theorem replay_exact_slice:
  assumes "journal_wf env j" and "0 \<le> after" and "1 \<le> limit" and "limit \<le> 500"
  shows "\<exists>page. replay env j after limit = Inr page \<and>
    map se_sequence (rp_items page) = [after + 1..min (after + limit) (j_seq j)] \<and>
    rp_next_cursor page = max after (min (after + limit) (j_seq j)) \<and>
    (rp_has_more page \<longleftrightarrow> after + limit < j_seq j)"
  using assms by (rule replay_slice)

theorem replay_exact_slice_witness:
  "\<exists>page. replay sample_env started_journal 0 100 = Inr page \<and> map se_sequence (rp_items page) = [1..1] \<and>
     rp_next_cursor page = 1 \<and> \<not> rp_has_more page"
proof -
  have "j_seq started_journal = 1" by (simp add: started_journal_def)
  then show ?thesis using replay_exact_slice [OF started_wf, of 0 100] by auto
qed

text \<open>
  Paging backwards is exact too. The page before \<open>b\<close> (or the newest page) holds the
  sequence numbers directly below it in ascending order, the older cursor is the first of them,
  and it is given exactly when older events remain; so following it never skips or repeats one.
\<close>

theorem replay_before_exact_slice:
  assumes "journal_wf env j" and "1 \<le> limit" and "limit \<le> 500" and "1 \<le> b"
    and "before = Some b \<or> before = None \<and> b = j_seq j + 1"
  shows "\<exists>page. replay_before env j before limit = Inr page \<and>
    map se_sequence (bp_items page) = [max 1 (min b (j_seq j + 1) - limit)..min b (j_seq j + 1) - 1] \<and>
    bp_latest_cursor page = j_seq j \<and> (bp_has_more page \<longleftrightarrow> limit < min b (j_seq j + 1) - 1) \<and>
    bp_older_cursor page = (if bp_has_more page then Some (min b (j_seq j + 1) - limit) else None)"
proof -
  note wf = assms(1)
  define m where "m = min b (j_seq j + 1) - 1"
  have m: "0 \<le> m" "m \<le> int (length (j_events j))" using assms(4) events_length [OF wf] wf
    by (auto simp: m_def journal_wf_def)
  let ?older = "take (nat m) (j_events j)"
  have "filter (\<lambda>row. r_sequence row < b) (j_events j) = take (nat (b - 1)) (j_events j)"
    using filter_upto_before journal_log.seqs [OF wf] assms(4) by blast
  also have "\<dots> = ?older" using events_length [OF wf] by (simp add: m_def min_def)
  finally have older: "(case before of None \<Rightarrow> rev (by_sequence j)
      | Some b \<Rightarrow> filter (\<lambda>row. r_sequence row < b) (rev (by_sequence j))) = rev ?older"
    using assms(5) events_length [OF wf] by (auto simp: by_sequence_wf [OF wf] rev_filter [symmetric] m_def)
  let ?page = "drop (nat (m - limit)) ?older"
  have len: "length ?older = nat m" using m by simp
  have "take (nat limit) (take (nat (limit + 1)) (rev ?older)) = take (nat limit) (rev ?older)"
    using assms(2) by (simp add: min_def del: rev_take)
  also have "\<dots> = rev (drop (length ?older - nat limit) ?older)" by (rule take_rev)
  also have "length ?older - nat limit = nat (m - limit)" using len m assms(2) by (simp add: nat_diff_distrib')
  finally have page: "rev (take (nat limit) (take (nat (limit + 1)) (rev ?older))) = ?page" by simp
  have "map r_sequence ?page = drop (nat (m - limit)) (take (nat m) [1..j_seq j])"
    using journal_log.seqs [OF wf] events_length [OF wf] by (simp add: drop_map [symmetric] take_map [symmetric])
  also have "\<dots> = [max 1 (m + 1 - limit)..m]"
    using m events_length [OF wf] by (simp add: take_upto drop_upto max_def min_def algebra_simps)
  finally have seqs: "map r_sequence ?page = [max 1 (m + 1 - limit)..m]" .
  have "set ?page \<subseteq> set (j_events j)" by (meson in_set_dropD in_set_takeD subsetI)
  from read_rows [OF wf this] obtain es where
    es: "emap (\<lambda>row. event_from_row env row (j_session_id j)) ?page = Inr es"
    and es_seq: "map se_sequence es = [max 1 (m + 1 - limit)..m]" using seqs by auto
  have more: "limit < int (length (take (nat (limit + 1)) (rev ?older))) \<longleftrightarrow> limit < m"
    using len assms(2) m by auto
  have first: "es \<noteq> [] \<and> se_sequence (hd es) = m + 1 - limit" if "limit < m"
  proof -
    have "max 1 (m + 1 - limit) = m + 1 - limit" "m + 1 - limit \<le> m" using that assms(2) by auto
    then have "map se_sequence es = (m + 1 - limit) # [m + 1 - limit + 1..m]" using es_seq by (simp add: upto_rec1)
    then show ?thesis by (cases es) auto
  qed
  have latest: "latest_sequence j = j_seq j" using latest_sequence_wf [OF wf] .
  have b: "case before of None \<Rightarrow> True | Some b \<Rightarrow> 0 < b" using assms(4,5) by auto
  have "replay_before env j before limit = Inr \<lparr>bp_items = es,
      bp_older_cursor = (if limit < m then Some (m + 1 - limit) else None),
      bp_latest_cursor = j_seq j, bp_has_more = (limit < m)\<rparr>"
    using assms(2,3) b first unfolding replay_before_def Let_def older page more es latest by auto
  then show ?thesis using es_seq by (simp add: m_def algebra_simps)
qed

theorem replay_before_exact_slice_witness:
  "\<exists>page. replay_before sample_env started_journal None 100 = Inr page \<and>
     map se_sequence (bp_items page) = [1..1] \<and> bp_latest_cursor page = 1 \<and> bp_older_cursor page = None"
proof -
  have "j_seq started_journal = 1" by (simp add: started_journal_def)
  then show ?thesis using replay_before_exact_slice [OF started_wf, of 100 2 None] by auto
qed

section \<open>Recovery after a crash\<close>

text \<open>The owner recorded in the lease is running: same pid and same process start.\<close>

definition owner_alive :: "journal_env \<Rightarrow> lease_row \<Rightarrow> bool" where
  "owner_alive env l \<longleftrightarrow> pi_state (process_identity env (l_owner_pid l)) = Present \<and>
     pi_fingerprint (process_identity env (l_owner_pid l)) = Some (l_owner_process_start l)"

lemma fresh_terminal_insert:
  assumes wf: "journal_wf env j" and v: "validated_event_input env uuid now run ''terminal'' status (PDict d) None None = Inr v"
    and u: "unique_objects (PDict d)" and fresh: "uuid \<notin> r_event_id ` set (j_events j)"
    and noterm: "\<forall>row \<in> set (j_events j). \<not> is_terminal_of run row"
  shows "\<exists>j' e. insert_event env j v = Inr (j', e) \<and> j_events j' = j_events j @ [new_row j v] \<and>
    se_run_id e = run \<and> se_kind e = ''terminal'' \<and> se_status e = status"
proof -
  obtain e where "event_from_row env (new_row j v) (j_session_id j) = Inr e"
    using event_from_row_new [OF v u] by blast
  moreover have id: "v_event_id v = uuid" using v by (auto simp: validated_event_input_def Let_def)
  moreover have "\<forall>row \<in> set (j_events j). r_event_id row \<noteq> v_event_id v" using fresh id by (force simp: image_iff)
  ultimately obtain j' where ins: "insert_event env j v = Inr (j', e)"
    using noterm validated_input_fields [OF v] by (auto simp: insert_event_def)
  then show ?thesis using insert_event_fields [OF ins] validated_input_fields [OF v] by auto
qed

text \<open>
  Recovery never takes a run from a living owner. If the process recorded in the lease is
  still the same process, \<open>recover_run_lease\<close> returns nothing and changes nothing; if the process
  table cannot be read, it raises.
\<close>

theorem recover_spares_live_owner:
  assumes "is_identifier rec" and "j_lease j = Some l" and "l_owner_process_start l \<noteq> []"
  shows "(owner_alive env l \<longrightarrow> recover_run_lease env uuid now j rec = Inr (j, None)) \<and>
    (pi_state (process_identity env (l_owner_pid l)) = Unknown \<longrightarrow>
       (\<exists>msg. recover_run_lease env uuid now j rec = Inl (OperationalError msg)))"
  using assms by (auto simp: recover_run_lease_def owner_alive_def Let_def via_connect_def split: sum.splits)

definition live_env :: journal_env where
  "live_env = sample_env\<lparr>sys_platform := ''darwin'', darwin_info := (\<lambda>_. ProbeInfo 5 7)\<rparr>"

definition live_journal :: journal where
  "live_journal = started_journal\<lparr>j_lease := Some \<lparr>l_run_id = ''run1'', l_owner_id = ''owner'', l_owner_pid = 4,
     l_owner_process_start = ''darwin:5:7'', l_fencing_token = 1, l_acquired_at = ''t1''\<rparr>\<rparr>"

theorem recover_spares_live_owner_witness:
  "recover_run_lease live_env ''e2'' ''t2'' live_journal ''recovery'' = Inr (live_journal, None)"
proof -
  let ?l = "\<lparr>l_run_id = ''run1'', l_owner_id = ''owner'', l_owner_pid = 4,
     l_owner_process_start = ''darwin:5:7'', l_fencing_token = 1, l_acquired_at = ''t1''\<rparr>"
  have "is_identifier ''recovery''" "owner_alive live_env ?l" by code_simp+
  moreover have "j_lease live_journal = Some ?l" by (simp add: live_journal_def)
  ultimately show ?thesis
    using recover_spares_live_owner [of "''recovery''" live_journal ?l live_env "''e2''" "''t2''"] by simp
qed

text \<open>The owner of a lease is gone: its process does not exist, or its process id belongs to a later process.\<close>

definition owner_gone :: "journal_env \<Rightarrow> lease_row \<Rightarrow> bool" where
  "owner_gone env l \<longleftrightarrow> (let identity = process_identity env (l_owner_pid l) in pi_state identity = Absent \<or>
     pi_state identity = Present \<and> l_owner_process_start l \<noteq> [] \<and> Some (l_owner_process_start l) \<noteq> pi_fingerprint identity)"

text \<open>
  C27: recovery after the death of the owner, whose process is gone or whose process id was given to another
  process. The lease is freed in every case. If the run waits for an approval, or has a terminal event already,
  no event is written; otherwise exactly one interrupted terminal event is appended for it. A
  second recovery, by anyone and at any time, finds nothing to do.
\<close>

theorem recover_interrupts_once:
  assumes "journal_wf env j" and "is_identifier rec" and "j_lease j = Some l" and "is_identifier (l_run_id l)"
    and "owner_gone env l" and "has_unresolved_approval j (l_run_id l) = Inr waiting"
    and "is_identifier uuid" and "uuid \<notin> r_event_id ` set (j_events j)"
    and "now \<noteq> []" and "fromisoformat env now = Some True"
  shows "\<exists>j' stored. recover_run_lease env uuid now j rec = Inr (j', stored) \<and> j_lease j' = None \<and>
    (if waiting \<or> (\<exists>row \<in> set (j_events j). is_terminal_of (l_run_id l) row)
     then stored = None \<and> j_events j' = j_events j
     else \<exists>e row. stored = Some e \<and> j_events j' = j_events j @ [row] \<and> is_terminal_of (l_run_id l) row \<and>
       se_run_id e = l_run_id l \<and> se_kind e = ''terminal'' \<and> se_status e = ''interrupted'') \<and>
    (\<forall>env' uuid' now' rec'. is_identifier rec' \<longrightarrow> recover_run_lease env' uuid' now' j' rec' = Inr (j', None))"
proof -
  have gone: "recover_run_lease env uuid now j rec = via_connect
      (if waiting then Inr (j\<lparr>j_lease := None\<rparr>, None)
       else (case fetchone (is_terminal_of (l_run_id l)) (by_sequence j) of
           None \<Rightarrow> ebind (validated_event_input env uuid now (l_run_id l) ''terminal'' ''interrupted''
                            (PDict interrupted_payload) None None) (\<lambda>v.
                   ebind (insert_event env j v) (\<lambda>(j', stored). Inr (j'\<lparr>j_lease := None\<rparr>, Some stored)))
         | Some _ \<Rightarrow> Inr (j\<lparr>j_lease := None\<rparr>, None)))"
    using assms(2,3,5,6) by (auto simp: recover_run_lease_def owner_gone_def Let_def)
  have again: "recover_run_lease env' uuid' now' j' rec' = Inr (j', None)"
    if "j_lease j' = None" "is_identifier rec'" for env' uuid' now' j' rec'
    using that by (simp add: recover_run_lease_def)
  show ?thesis
  proof (cases "waiting \<or> (\<exists>row \<in> set (j_events j). is_terminal_of (l_run_id l) row)")
    case True
    have "fetchone (is_terminal_of (l_run_id l)) (by_sequence j) \<noteq> None" if "\<not> waiting"
      using True that by (auto simp: by_sequence_wf [OF assms(1)])
    then have "recover_run_lease env uuid now j rec = Inr (j\<lparr>j_lease := None\<rparr>, None)"
      unfolding gone by (cases waiting) (auto simp del: fetchone_None)
    then show ?thesis using True again by (intro exI [of _ "j\<lparr>j_lease := None\<rparr>"] exI [of _ None]) simp
  next
    case False
    have size: "json_bytes (PDict interrupted_payload) \<le> MAX_PAYLOAD_BYTES"
      and strict: "strict_json_value (PDict interrupted_payload)"
      and uniq: "unique_objects (PDict interrupted_payload)"
      and ints: "ints_printable (PDict interrupted_payload)" by code_simp+
    have kinds: "''terminal'' \<in> set KINDS" "''interrupted'' \<in> set STATUSES"
      "validate_kind_status ''terminal'' ''interrupted'' = Inr ()" by code_simp+
    obtain v where v: "validated_event_input env uuid now (l_run_id l) ''terminal'' ''interrupted''
        (PDict interrupted_payload) None None = Inr v"
      using assms(4,7,9,10) size strict ints kinds
      by (auto simp: validated_event_input_def validate_timestamp_def
        simp del: json_bytes.simps strict_json_value.simps ints_printable.simps)
    have open_run: "\<forall>row \<in> set (j_events j). \<not> is_terminal_of (l_run_id l) row" using False by blast
    obtain j1 e where ins: "insert_event env j v = Inr (j1, e)" "j_events j1 = j_events j @ [new_row j v]"
      "se_run_id e = l_run_id l \<and> se_kind e = ''terminal'' \<and> se_status e = ''interrupted''"
      using fresh_terminal_insert [OF assms(1) v uniq assms(8) open_run] by blast
    have "fetchone (is_terminal_of (l_run_id l)) (by_sequence j) = None"
      using open_run by (simp add: by_sequence_wf [OF assms(1)])
    then have "recover_run_lease env uuid now j rec = Inr (j1\<lparr>j_lease := None\<rparr>, Some e)"
      using False unfolding gone by (simp add: v ins(1) del: fetchone_None)
    moreover have "is_terminal_of (l_run_id l) (new_row j v)"
      using validated_input_fields [OF v] by (simp add: is_terminal_of_def new_row_def)
    ultimately show ?thesis using False ins(2,3) again [of "j1\<lparr>j_lease := None\<rparr>"]
      by (intro exI [of _ "j1\<lparr>j_lease := None\<rparr>"] exI [of _ "Some e"]) simp
  qed
qed

theorem recover_interrupts_once_witness:
  "\<exists>j' e. recover_run_lease sample_env ''e2'' ''t2'' started_journal ''recovery'' = Inr (j', Some e) \<and>
     j_lease j' = None \<and> se_status e = ''interrupted''"
proof -
  let ?l = "the (j_lease started_journal)"
  have a: "is_identifier ''recovery''" "is_identifier (l_run_id ?l)" "is_identifier ''e2''"
    "has_unresolved_approval started_journal (l_run_id ?l) = Inr False"
    "process_identity sample_env (l_owner_pid ?l) = \<lparr>pi_state = Absent, pi_fingerprint = None\<rparr>" by code_simp+
  have b: "j_lease started_journal = Some ?l" "l_run_id ?l = ''run1''"
    "\<forall>row \<in> set (j_events started_journal). \<not> is_terminal_of (l_run_id ?l) row"
    "''e2'' \<notin> r_event_id ` set (j_events started_journal)"
    by (simp_all add: started_journal_def started_row_def is_terminal_of_def)
  have "owner_gone sample_env ?l" using a(5) by (simp add: owner_gone_def)
  from recover_interrupts_once [OF started_wf a(1) b(1) a(2) this a(4) a(3) b(4), of "''t2''"] b(3)
  show ?thesis by (auto simp: sample_env_def)
qed

text \<open>
  A run that waits for an approval survives the crash of its owner. Recovery frees the lease
  without writing any event, and then any coordinator with a valid identity can resume the run; it
  gets a token that was never handed out before.
\<close>

theorem approval_wait_resumable:
  assumes "journal_wf env j" and "is_identifier rec" and "j_lease j = Some l" and "is_identifier (l_run_id l)"
    and "pi_state (process_identity env (l_owner_pid l)) = Absent"
    and "has_unresolved_approval j (l_run_id l) = Inr True"
    and "\<forall>row \<in> set (j_events j). \<not> is_terminal_of (l_run_id l) row"
    and "is_identifier owner" and "owner_process_start env pid = Inr start"
  shows "\<exists>j' j'' t. recover_run_lease env uuid now j rec = Inr (j', None) \<and> j_events j' = j_events j \<and>
    resume_run env now' j' (l_run_id l) owner pid = Inr (j'', t) \<and> j_fence j = Some t \<and>
    l_fencing_token l < t \<and> active_run_id j'' = Some (l_run_id l) \<and> j_events j'' = j_events j"
proof -
  obtain f where f: "j_fence j = Some f" "1 \<le> f" "l_fencing_token l < f"
    using assms(1,3) by (auto simp: journal_wf_def)
  have "\<exists>row \<in> set (j_events j). r_run_id row = l_run_id l"
  proof (rule ccontr)
    assume "\<not> ?thesis"
    then have "filter (\<lambda>row. r_run_id row = l_run_id l) (by_sequence j) = []"
      by (simp add: by_sequence_wf [OF assms(1)] filter_empty_conv)
    then show False using assms(6) by (simp add: has_unresolved_approval_def)
  qed
  moreover have "recover_run_lease env uuid now j rec = Inr (j\<lparr>j_lease := None\<rparr>, None)"
    using assms(2,3,5,6) by (simp add: recover_run_lease_def Let_def)
  ultimately show ?thesis
    using assms(4,7,8,9) f
    by (auto simp: resume_run_def not_terminal_def allocate_fencing_token_def put_lease_def active_run_id_def)
qed

definition approval_payload :: "string \<Rightarrow> string \<Rightarrow> pydict" where
  "approval_payload call approval =
     [(PStr ''approval_id'', PStr approval), (PStr ''runtime_profile'', PStr ''deerflow_v2''),
      (PStr ''tool_call_id'', PStr call), (PStr ''type'', PStr ''approval_required'')]"

definition approval_row :: "int \<Rightarrow> string \<Rightarrow> pydict \<Rightarrow> event_row" where
  "approval_row n eid payload = \<lparr>r_sequence = n, r_event_id = eid, r_session_id = ''s'', r_run_id = ''run1'',
     r_kind = ''approval'', r_status = ''blocked'', r_timestamp = ''t2'', r_payload = JsonText (PDict payload)\<rparr>"

definition waiting_journal :: journal where
  "waiting_journal = started_journal\<lparr>j_seq := 2,
     j_events := [started_row, approval_row 2 ''e2'' (approval_payload ''c1'' ''a1'')]\<rparr>"

lemma waiting_wf: "journal_wf sample_env waiting_journal"
proof -
  have "append_event sample_env ''e2'' ''t2'' started_journal ''run1'' ''approval'' ''blocked''
      (PDict (approval_payload ''c1'' ''a1'')) None None (Some ''owner'') (Some 1) = Inr (waiting_journal,
        projr (event_from_row sample_env (approval_row 2 ''e2'' (approval_payload ''c1'' ''a1'')) ''s''))"
    by code_simp
  then have "journal_exec sample_env ''e2'' ''t2'' started_journal (OpAppend ''run1'' ''approval'' ''blocked''
      (PDict (approval_payload ''c1'' ''a1'')) None None (Some ''owner'') (Some 1)) = Inr waiting_journal" by simp
  then show ?thesis by (rule journal_exec_wf [OF started_wf])
qed

theorem approval_wait_resumable_witness:
  "\<exists>j' j'' t. recover_run_lease sample_env ''e3'' ''t3'' waiting_journal ''recovery'' = Inr (j', None) \<and>
     resume_run sample_env ''t4'' j' ''run1'' ''owner2'' (-1) = Inr (j'', t) \<and> j_fence waiting_journal = Some t"
proof -
  let ?l = "the (j_lease waiting_journal)"
  have a: "is_identifier ''recovery''" "is_identifier (l_run_id ?l)" "is_identifier ''owner2''"
    "has_unresolved_approval waiting_journal (l_run_id ?l) = Inr True"
    "process_identity sample_env (l_owner_pid ?l) = \<lparr>pi_state = Absent, pi_fingerprint = None\<rparr>"
    "owner_process_start sample_env (-1) = Inr []" by code_simp+
  have b: "j_lease waiting_journal = Some ?l" "l_run_id ?l = ''run1''"
    "\<forall>row \<in> set (j_events waiting_journal). \<not> is_terminal_of (l_run_id ?l) row"
    by (simp_all add: waiting_journal_def started_journal_def started_row_def approval_row_def is_terminal_of_def)
  show ?thesis
    using approval_wait_resumable [OF waiting_wf a(1) b(1) a(2) _ a(4) b(3) a(3) a(6), of "''e3''" "''t3''" "''t4''"]
      a(5) b(2) by auto
qed

text \<open>
  The two readings of pending approvals differ. With approvals for the calls c1 and c2
  requested and only c2 answered, \<open>recoverable_approval\<close> still reports the approval of c1, but
  \<open>_has_unresolved_approval\<close>, which remembers one pending approval only, finds none; so the
  recovery of this run writes an interrupted terminal event instead of keeping it resumable.
\<close>

lemma approval_scans_disagree:
  "let j = waiting_journal\<lparr>j_seq := 4, j_events := [started_row,
       approval_row 2 ''e2'' (approval_payload ''c1'' ''a1''), approval_row 3 ''e3'' (approval_payload ''c2'' ''a2''),
       (approval_row 4 ''e4'' [(PStr ''tool_call_id'', PStr ''c2''), (PStr ''type'', PStr ''tool_result'')])
         \<lparr>r_kind := ''tool'', r_status := ''done''\<rparr>]\<rparr>
   in map_sum id (map_option (\<lambda>d. dict_get d ''approval_id'')) (recoverable_approval sample_env j (Some ''run1''))
        = Inr (Some (PStr ''a1'')) \<and>
      has_unresolved_approval j ''run1'' = Inr False \<and>
      map_sum id (\<lambda>r. map_option se_status (snd r)) (recover_run_lease sample_env ''e5'' ''t5'' j ''recovery'')
        = Inr (Some ''interrupted'')"
  by code_simp

section \<open>Payloads survive storage\<close>

text \<open>
  C28: an appended payload comes back unchanged. The event that \<open>append\<close> returns carries the
  payload up to the order of keys, and reading the stored row, now or after any later operations,
  gives this same event.
\<close>

theorem append_roundtrip:
  assumes "journal_wf env j" and "unique_objects (PDict d)"
    and "append_event env uuid now j run kind status (PDict d) eid ts owner token = Inr (j1, e)"
    and "rtranclp (journal_step env) j1 j2"
  shows "(\<forall>k. dict_get (se_payload e) k = canon (dict_get d k)) \<and> se_run_id e = run \<and> se_kind e = kind \<and>
    (\<exists>row \<in> set (j_events j2). r_sequence row = se_sequence e \<and> event_from_row env row (j_session_id j2) = Inr e)"
proof -
  obtain v where v: "validated_event_input env uuid now run kind status (PDict d) eid ts = Inr v"
    and ins: "insert_event env j v = Inr (j1, e)" using assms(3) by (auto simp: append_event_Inr)
  note new = insert_event_wf [OF assms(1) ins] and fields = insert_event_fields [OF ins]
  have "new_row j v \<in> set (j_events j2)" "j_session_id j2 = j_session_id j"
    using run_extends [OF assms(4)] new(4,5) by (auto simp: journal_extends_def)
  moreover have "\<forall>k. dict_get (se_payload e) k = canon (dict_get d k)"
    using event_from_row_new [OF v assms(2), of j] new(6) by auto
  moreover have "r_sequence (new_row j v) = se_sequence e" using fields by (simp add: new_row_def)
  ultimately show ?thesis using new(6) fields(3,4) validated_input_fields [OF v] by metis
qed

theorem append_roundtrip_witness:
  "\<exists>j1 e. append_event sample_env ''e2'' ''t2'' started_journal ''run1'' ''tool'' ''running''
     (PDict []) None None (Some ''owner'') (Some 1) = Inr (j1, e) \<and> dict_get (se_payload e) ''k'' = PNone"
proof -
  obtain j1 e where r: "append_event sample_env ''e2'' ''t2'' started_journal ''run1'' ''tool'' ''running''
     (PDict []) None None (Some ''owner'') (Some 1) = Inr (j1, e)"
    using sample_append by (metis isl_def old.sum.exhaust prod.exhaust)
  from append_roundtrip [OF started_wf _ r rtranclp.rtrancl_refl]
  have "dict_get (se_payload e) ''k'' = canon (dict_get [] ''k'')" by simp
  then show ?thesis using r by (auto simp: dict_get_def)
qed

end
