(* ===== verification/Run_Coordinator.thy ===== *)
theory Run_Coordinator
  imports Event_Journal
begin

text \<open>
  The coordinator that owns the run of a session, from \<open>core/coding/run_coordinator.py\<close>:
  starting, resuming, consuming, cancelling and suspending a run, recovery of abandoned runs, the
  broadcast to bounded subscriber queues, and the subscription that replays history and then
  follows live events.

  The coordinator holds its journal. Every journal call gets its uuid and clock reading from
  \<open>stamps\<close>, indexed by the number of calls made so far. The publish lock makes a journal call
  and its broadcast one step. An event stream is the list of what it does when it is iterated,
  with the points at which the task is cancelled. The event observer returns nothing and its
  exceptions are swallowed; it is left out.
\<close>

section \<open>Events and state\<close>

record run_event =
  re_kind :: string
  re_status :: string
  re_payload :: pydict
  re_event_id :: "string option"
  re_timestamp :: "string option"

datatype raw_event = RawEvent run_event | RawMapping pydict

record coordinator =
  co_journal :: journal
  co_calls :: nat
  co_owner_id :: string
  co_owner_pid :: int
  co_queue_size :: nat
  co_active_run :: "string option"
  co_active_token :: "int option"
  co_suspend :: "string list"
  co_audit :: "(string \<times> run_event list) list"
  co_subscribers :: "(nat \<times> session_event list) list"
  co_last_broadcast :: int

type_synonym stamp_source = "nat \<Rightarrow> string \<times> string"

definition new_coordinator :: "journal \<Rightarrow> string \<Rightarrow> int \<Rightarrow> int \<Rightarrow> bool \<Rightarrow> coordinator result" where
  "new_coordinator j owner pid queue_size poll_positive =
     ebind (require (1 \<le> queue_size) (ValueError ''subscriber_queue_size must be positive'')) (\<lambda>_.
     ebind (require poll_positive (ValueError ''poll_interval_seconds must be positive'')) (\<lambda>_.
     Inr \<lparr>co_journal = j, co_calls = 0, co_owner_id = owner, co_owner_pid = pid,
          co_queue_size = nat queue_size, co_active_run = None, co_active_token = None, co_suspend = [],
          co_audit = [], co_subscribers = [], co_last_broadcast = 0\<rparr>))"

definition terminal_event :: "string \<Rightarrow> pydict \<Rightarrow> run_event" where
  "terminal_event status payload =
     \<lparr>re_kind = ''terminal'', re_status = status, re_payload = payload, re_event_id = None, re_timestamp = None\<rparr>"

definition completed_event :: run_event where
  "completed_event = terminal_event ''completed'' [(PStr ''event'', PStr ''run_completed'')]"

definition cancelled_event :: run_event where
  "cancelled_event = terminal_event ''cancelled'' [(PStr ''event'', PStr ''run_cancelled'')]"

definition interrupted_event :: run_event where
  "interrupted_event = terminal_event ''interrupted'' interrupted_payload"

definition error_event :: "string \<Rightarrow> run_event" where
  "error_event error_type = terminal_event ''error''
     [(PStr ''event'', PStr ''run_error''), (PStr ''error_type'', PStr error_type)]"

definition optional_str :: "pydict \<Rightarrow> string \<Rightarrow> string option" where
  "optional_str d k = (case dict_get d k of PNone \<Rightarrow> None | v \<Rightarrow> Some (py_str v))"

definition coerce_event :: "raw_event \<Rightarrow> run_event result" where
  "coerce_event raw = (case raw of
     RawEvent ev \<Rightarrow> Inr ev
   | RawMapping d \<Rightarrow>
       (case (case map_of d (PStr ''payload'') of None \<Rightarrow> PDict [] | Some v \<Rightarrow> v) of
          PDict payload \<Rightarrow>
            Inr \<lparr>re_kind = get_str d ''kind'', re_status = get_str d ''status'', re_payload = payload,
                 re_event_id = optional_str d ''event_id'', re_timestamp = optional_str d ''timestamp''\<rparr>
        | _ \<Rightarrow> Inl (TypeError ''run event payload must be an object'')))"

text \<open>\<open>type(exc).__name__\<close> of the errors that the journal and the coordinator raise.\<close>

fun error_name :: "py_error \<Rightarrow> string" where
  "error_name (ValueError _) = ''ValueError''"
| "error_name (TypeError _) = ''TypeError''"
| "error_name (KeyError _) = ''KeyError''"
| "error_name (AttributeError _) = ''AttributeError''"
| "error_name IntegrityError = ''IntegrityError''"
| "error_name (DatabaseError _) = ''DatabaseError''"
| "error_name (JournalError _) = ''SessionEventJournalError''"
| "error_name (CorruptionError _) = ''SessionEventJournalCorruptionError''"
| "error_name (OperationalError _) = ''SessionEventJournalOperationalError''"
| "error_name (LeaseConflict _) = ''SessionRunLeaseConflictError''"
| "error_name (RunLeaseLost _) = ''SessionRunLeaseLostError''"
| "error_name (ActiveRunConflict _) = ''ActiveRunConflictError''"
| "error_name (CoordinatorError _) = ''RunCoordinatorError''"
| "error_name Cancelled = ''CancelledError''"
| "error_name _ = ''Exception''"

section \<open>Publishing\<close>

definition put_bounded :: "nat \<Rightarrow> session_event \<Rightarrow> session_event list \<Rightarrow> session_event list" where
  "put_bounded maxsize e queue = (if maxsize \<le> length queue then tl queue else queue) @ [e]"

definition broadcast :: "session_event \<Rightarrow> coordinator \<Rightarrow> coordinator" where
  "broadcast stored c =
     (if se_sequence stored \<le> co_last_broadcast c then c
      else c\<lparr>co_last_broadcast := se_sequence stored,
             co_subscribers := map (\<lambda>(q, queue). (q, put_bounded (co_queue_size c) stored queue)) (co_subscribers c)\<rparr>)"

definition persist ::
  "journal_env \<Rightarrow> stamp_source \<Rightarrow> coordinator \<Rightarrow> string \<Rightarrow> run_event \<Rightarrow> int option \<Rightarrow>
   coordinator \<times> session_event result" where
  "persist env stamps c run_id event fencing_token =
     (let (uuid, now) = stamps (co_calls c); c1 = c\<lparr>co_calls := Suc (co_calls c)\<rparr>;
        owner = (if fencing_token = None then None else Some (co_owner_id c)) in
      case (if re_kind event = ''terminal''
            then ebind (require (re_status event \<in> set TERMINAL_STATUSES)
                   (ValueError ''terminal event requires a terminal status'')) (\<lambda>_.
                 append_terminal_and_release env uuid now (co_journal c) run_id (re_status event)
                   (PDict (re_payload event)) (re_event_id event) (re_timestamp event) owner fencing_token)
            else append_event env uuid now (co_journal c) run_id (re_kind event) (re_status event)
                   (PDict (re_payload event)) (re_event_id event) (re_timestamp event) owner fencing_token) of
        Inl e \<Rightarrow> (c1, Inl e)
      | Inr (j', stored) \<Rightarrow> (broadcast stored (c1\<lparr>co_journal := j'\<rparr>), Inr stored))"

section \<open>Starting and resuming\<close>

definition coord_begin_run ::
  "journal_env \<Rightarrow> stamp_source \<Rightarrow> coordinator \<Rightarrow> string \<Rightarrow> pydict option \<Rightarrow> coordinator \<times> begin_run_result result" where
  "coord_begin_run env stamps c run_id ctx =
     (let (uuid, now) = stamps (co_calls c); c1 = c\<lparr>co_calls := Suc (co_calls c)\<rparr> in
      case begin_run env uuid now (co_journal c) run_id (co_owner_id c) (co_owner_pid c) ctx of
        Inl e \<Rightarrow> (c1, Inl e)
      | Inr (j', stored) \<Rightarrow> (broadcast (br_event stored) (c1\<lparr>co_journal := j'\<rparr>), Inr stored))"

text \<open>
  The result of a start: the coordinator, whether the event stream has been closed, and the token
  under which the consuming task was created. \<open>cancelled\<close>: the caller is cancelled while the
  lease is being taken.
\<close>

definition start_run ::
  "journal_env \<Rightarrow> stamp_source \<Rightarrow> coordinator \<Rightarrow> string \<Rightarrow> pydict option \<Rightarrow> bool \<Rightarrow>
   coordinator \<times> bool \<times> int result" where
  "start_run env stamps c run_id ctx cancelled = (case co_active_run c of
     Some active \<Rightarrow> (c, False, Inl (ActiveRunConflict active))
   | None \<Rightarrow> (case recoverable_approval env (co_journal c) None of
       Inl e \<Rightarrow> (c, False, Inl e)
     | Inr (Some approval) \<Rightarrow> (c, True, Inl (ActiveRunConflict
           (case map_of approval (PStr ''run_id'') of None \<Rightarrow> ''unknown'' | Some v \<Rightarrow> py_str v)))
     | Inr None \<Rightarrow> (case coord_begin_run env stamps c run_id ctx of
         (c1, Inl e) \<Rightarrow>
           (if cancelled then (c1, True, Inl Cancelled)
            else (case e of LeaseConflict active \<Rightarrow> (c1, True, Inl (ActiveRunConflict active))
                  | _ \<Rightarrow> (c1, True, Inl e)))
       | (c1, Inr stored) \<Rightarrow>
           (if cancelled
            then (case persist env stamps c1 run_id cancelled_event (Some (br_fencing_token stored)) of
                (c2, Inl e) \<Rightarrow> (c2, False, Inl e)
              | (c2, Inr _) \<Rightarrow> (c2, True, Inl Cancelled))
            else (c1\<lparr>co_active_run := Some run_id, co_active_token := Some (br_fencing_token stored)\<rparr>, False,
                  Inr (br_fencing_token stored))))))"


section \<open>Consuming the stream\<close>

text \<open>
  What iterating the stream does next. \<open>SEventCancel\<close>: the task is cancelled while the event is
  being stored; the store is shielded and completes first. \<open>SCancel\<close>: cancelled while waiting for
  the next event, or while an event is stored that is then refused because the lease was released first.
  \<open>SEndCancel b\<close>: the stream ended and the task is cancelled during the final, unshielded store; its thread
  commits before the cleanup (\<open>b\<close>) or after it, when the lease is gone and the store is refused. An exhausted
  list is a stream that ended.
\<close>

datatype stream_item =
    SEvent raw_event
  | SEventCancel raw_event
  | SRaise string
  | SCancel
  | SEndCancel bool

datatype loop_exit = LoopDone | LoopCancelled | LoopRaised string

datatype task_outcome = TaskDone | TaskCancelled | TaskFailed string

text \<open>
  A store that is not shielded and whose task is cancelled: its thread still commits (\<open>commits\<close>) or nothing
  happens, because the task was waiting for the lock. Nothing is published in either case.
\<close>

definition abandoned_store ::
  "journal_env \<Rightarrow> stamp_source \<Rightarrow> coordinator \<Rightarrow> string \<Rightarrow> run_event \<Rightarrow> int \<Rightarrow> bool \<Rightarrow> coordinator" where
  "abandoned_store env stamps c run_id event token commits =
     (if commits
      then (let c' = fst (persist env stamps c run_id event (Some token)) in
            c\<lparr>co_journal := co_journal c', co_calls := co_calls c'\<rparr>)
      else c)"

fun consume_loop ::
  "journal_env \<Rightarrow> stamp_source \<Rightarrow> string \<Rightarrow> int \<Rightarrow> coordinator \<Rightarrow> stream_item list \<Rightarrow> coordinator \<times> loop_exit" where
  "consume_loop env stamps run_id token c [] =
     (case persist env stamps c run_id completed_event (Some token) of
        (c', Inl e) \<Rightarrow> (c', LoopRaised (error_name e))
      | (c', Inr _) \<Rightarrow> (c', LoopDone))"
| "consume_loop env stamps run_id token c (SEvent raw # rest) = (case coerce_event raw of
     Inl e \<Rightarrow> (c, LoopRaised (error_name e))
   | Inr event \<Rightarrow> (case persist env stamps c run_id event (Some token) of
         (c', Inl e) \<Rightarrow> (c', LoopRaised (error_name e))
       | (c', Inr _) \<Rightarrow>
           if re_kind event = ''terminal'' then (c', LoopDone)
           else consume_loop env stamps run_id token c' rest))"
| "consume_loop env stamps run_id token c (SEventCancel raw # rest) = (case coerce_event raw of
     Inl e \<Rightarrow> (c, LoopRaised (error_name e))
   | Inr event \<Rightarrow> (fst (persist env stamps c run_id event (Some token)), LoopCancelled))"
| "consume_loop env stamps run_id token c (SRaise name # rest) = (c, LoopRaised name)"
| "consume_loop env stamps run_id token c (SCancel # rest) = (c, LoopCancelled)"
| "consume_loop env stamps run_id token c (SEndCancel commits # rest) =
     (abandoned_store env stamps c run_id completed_event token commits, LoopCancelled)"

fun persist_all ::
  "journal_env \<Rightarrow> stamp_source \<Rightarrow> string \<Rightarrow> int \<Rightarrow> coordinator \<Rightarrow> run_event list \<Rightarrow> coordinator \<times> unit result" where
  "persist_all env stamps run_id token c [] = (c, Inr ())"
| "persist_all env stamps run_id token c (event # rest) =
     (case persist env stamps c run_id event (Some token) of
        (c', Inl e) \<Rightarrow> (c', Inl e)
      | (c', Inr _) \<Rightarrow> persist_all env stamps run_id token c' rest)"

definition audit_of :: "coordinator \<Rightarrow> string \<Rightarrow> run_event list" where
  "audit_of c run_id = (case map_of (co_audit c) run_id of None \<Rightarrow> [] | Some events \<Rightarrow> events)"

definition pop_audit :: "string \<Rightarrow> coordinator \<Rightarrow> coordinator" where
  "pop_audit run_id c = c\<lparr>co_audit := AList.delete run_id (co_audit c)\<rparr>"

definition persist_cancelled_run ::
  "journal_env \<Rightarrow> stamp_source \<Rightarrow> string \<Rightarrow> int \<Rightarrow> coordinator \<Rightarrow> coordinator \<times> unit result" where
  "persist_cancelled_run env stamps run_id token c =
     (let (c1, audited) = persist_all env stamps run_id token (pop_audit run_id c) (audit_of c run_id) in
      case persist env stamps c1 run_id cancelled_event (Some token) of
        (c2, Inl e) \<Rightarrow> (c2, Inl e)
      | (c2, Inr _) \<Rightarrow> (c2, audited))"

definition consume_cancelled ::
  "journal_env \<Rightarrow> stamp_source \<Rightarrow> string \<Rightarrow> int \<Rightarrow> coordinator \<Rightarrow> coordinator \<times> task_outcome" where
  "consume_cancelled env stamps run_id token c =
     (if run_id \<in> set (co_suspend c)
      then (case release_run_lease (co_journal c) run_id (co_owner_id c) token of
          Inl e \<Rightarrow> (c, TaskFailed (error_name e))
        | Inr (j', _) \<Rightarrow> (c\<lparr>co_journal := j'\<rparr>, TaskCancelled))
      else (case persist_cancelled_run env stamps run_id token c of
          (c', Inl e) \<Rightarrow> (c', TaskFailed (error_name e))
        | (c', Inr _) \<Rightarrow> (c', TaskCancelled)))"

text \<open>The \<open>finally\<close> clause of the task.\<close>

definition forget_run :: "string \<Rightarrow> coordinator \<Rightarrow> coordinator" where
  "forget_run run_id c =
     (let c1 = (if co_active_run c = Some run_id then c\<lparr>co_active_run := None, co_active_token := None\<rparr> else c)
      in pop_audit run_id (c1\<lparr>co_suspend := removeAll run_id (co_suspend c1)\<rparr>))"

text \<open>
  The cancellations that reach the task after its \<open>try\<close> block: while \<open>except Exception\<close> stores the error
  terminal, which is not shielded (\<open>lc_store\<close>: whether the thread still commits), and while \<open>finally\<close>
  closes the stream or waits for the lock (\<open>lc_close\<close>), when the run is not forgotten.
\<close>

record late_cancel =
  lc_store :: "bool option"
  lc_close :: bool

definition store_error ::
  "journal_env \<Rightarrow> stamp_source \<Rightarrow> string \<Rightarrow> int \<Rightarrow> coordinator \<Rightarrow> string \<Rightarrow> bool option \<Rightarrow> coordinator \<times> task_outcome" where
  "store_error env stamps run_id token c name cancelled = (case cancelled of
     Some commits \<Rightarrow> (abandoned_store env stamps c run_id (error_event name) token commits, TaskCancelled)
   | None \<Rightarrow> (case persist env stamps c run_id (error_event name) (Some token) of
         (c', Inl e) \<Rightarrow> (c', TaskFailed (error_name e))
       | (c', Inr _) \<Rightarrow> (c', TaskFailed name)))"

definition consume ::
  "journal_env \<Rightarrow> stamp_source \<Rightarrow> string \<Rightarrow> int \<Rightarrow> coordinator \<Rightarrow> stream_item list \<Rightarrow> late_cancel \<Rightarrow>
   coordinator \<times> task_outcome" where
  "consume env stamps run_id token c stream late =
     (let (c2, outcome) = (case consume_loop env stamps run_id token c stream of
          (c1, LoopDone) \<Rightarrow> (c1, TaskDone)
        | (c1, LoopCancelled) \<Rightarrow> consume_cancelled env stamps run_id token c1
        | (c1, LoopRaised name) \<Rightarrow> store_error env stamps run_id token c1 name (lc_store late))
      in if lc_close late then (c2, TaskCancelled) else (forget_run run_id c2, outcome))"

section \<open>Cancelling, suspending, recovering\<close>

text \<open>
  Where the cancellation reaches the consuming task: before its first step, when none of its body
  runs, or while it runs, when the task goes on as \<open>consume\<close> says: through the rest of its stream, with the
  cancellation in it or after it. The outcome of an operation is its result or the class name
  of the exception it raises.
\<close>

datatype cancel_point = NotStarted | Running "stream_item list" late_cancel

definition cancelled_task ::
  "journal_env \<Rightarrow> stamp_source \<Rightarrow> string \<Rightarrow> int \<Rightarrow> coordinator \<Rightarrow> cancel_point \<Rightarrow> coordinator \<times> task_outcome" where
  "cancelled_task env stamps run_id token c at_point = (case at_point of
     NotStarted \<Rightarrow> (c, TaskCancelled)
   | Running stream late \<Rightarrow> consume env stamps run_id token c stream late)"

definition drop_active :: "string \<Rightarrow> coordinator \<Rightarrow> coordinator" where
  "drop_active run_id c =
     (if co_active_run c = Some run_id then c\<lparr>co_active_run := None, co_active_token := None\<rparr> else c)"

definition register_audit :: "string \<Rightarrow> run_event list \<Rightarrow> coordinator \<Rightarrow> coordinator" where
  "register_audit run_id events c =
     (if map_of (co_audit c) run_id = None \<or> (map_of (co_audit c) run_id = Some [] \<and> events \<noteq> [])
      then c\<lparr>co_audit := AList.update run_id events (co_audit c)\<rparr> else c)"

definition cancel ::
  "journal_env \<Rightarrow> stamp_source \<Rightarrow> coordinator \<Rightarrow> string \<Rightarrow> run_event list \<Rightarrow> cancel_point \<Rightarrow>
   coordinator \<times> (string + bool)" where
  "cancel env stamps c run_id audit_events at_point =
     (if list_ex (\<lambda>ev. re_kind ev = ''terminal'' \<or> re_status ev \<in> {''cancelled'', ''interrupted''}) audit_events
      then (c, Inl ''ValueError'')
      else case (co_active_run c, co_active_token c) of
        (Some active, Some token) \<Rightarrow>
          if active \<noteq> run_id then (c, Inr False)
          else (case cancelled_task env stamps run_id token (register_audit run_id audit_events c) at_point of
              (c1, TaskFailed name) \<Rightarrow> (c1, Inl name)
            | (c1, _) \<Rightarrow>
                (if active_run_id (co_journal c1) = Some run_id
                 then (case persist env stamps c1 run_id cancelled_event (Some token) of
                     (c2, Inl e) \<Rightarrow> (c2, Inl (error_name e))
                   | (c2, Inr _) \<Rightarrow> (drop_active run_id c2, Inr True))
                 else (drop_active run_id c1, Inr True)))
      | _ \<Rightarrow> (c, Inr False))"

definition suspend_for_restart ::
  "journal_env \<Rightarrow> stamp_source \<Rightarrow> coordinator \<Rightarrow> string \<Rightarrow> cancel_point \<Rightarrow> coordinator \<times> (string + bool)" where
  "suspend_for_restart env stamps c run_id at_point =
     (case (co_active_run c, co_active_token c) of
        (Some active, Some token) \<Rightarrow>
          if active \<noteq> run_id then (c, Inr False)
          else (case cancelled_task env stamps run_id token (c\<lparr>co_suspend := List.insert run_id (co_suspend c)\<rparr>) at_point of
              (c1, TaskFailed name) \<Rightarrow> (c1, Inl name)
            | (c1, _) \<Rightarrow>
                (let c2 = drop_active run_id c1 in
                 (c2\<lparr>co_suspend := removeAll run_id (co_suspend c2)\<rparr>, Inr True)))
      | _ \<Rightarrow> (c, Inr False))"

text \<open>The loop over the unfinished runs.\<close>

fun interrupt_all ::
  "journal_env \<Rightarrow> stamp_source \<Rightarrow> coordinator \<Rightarrow> string list \<Rightarrow> string list \<Rightarrow> coordinator \<times> string list result" where
  "interrupt_all env stamps c recovered [] = (c, Inr recovered)"
| "interrupt_all env stamps c recovered (run_id # rest) =
     (case recoverable_approval env (co_journal c) (Some run_id) of
        Inl e \<Rightarrow> (c, Inl e)
      | Inr (Some _) \<Rightarrow> interrupt_all env stamps c recovered rest
      | Inr None \<Rightarrow> (case persist env stamps c run_id interrupted_event None of
            (c', Inl e) \<Rightarrow> (c', Inl e)
          | (c', Inr _) \<Rightarrow> interrupt_all env stamps c' (recovered @ [run_id]) rest))"

definition recover_lease_and_publish ::
  "journal_env \<Rightarrow> stamp_source \<Rightarrow> coordinator \<Rightarrow> coordinator \<times> string list result" where
  "recover_lease_and_publish env stamps c =
     (let (uuid, now) = stamps (co_calls c); c1 = c\<lparr>co_calls := Suc (co_calls c)\<rparr> in
      case recover_run_lease env uuid now (co_journal c) (co_owner_id c) of
        Inl e \<Rightarrow> (c1, Inl e)
      | Inr (j', None) \<Rightarrow> (c1\<lparr>co_journal := j'\<rparr>, Inr [])
      | Inr (j', Some stored) \<Rightarrow> (broadcast stored (c1\<lparr>co_journal := j'\<rparr>), Inr [se_run_id stored]))"

definition recover_interrupted_runs ::
  "journal_env \<Rightarrow> stamp_source \<Rightarrow> coordinator \<Rightarrow> coordinator \<times> string list result" where
  "recover_interrupted_runs env stamps c = (case recover_lease_and_publish env stamps c of
     (c1, Inl e) \<Rightarrow> (c1, Inl e)
   | (c1, Inr recovered) \<Rightarrow> (case unfinished_run_ids (co_journal c1) of
         Inl e \<Rightarrow> (c1, Inl e)
       | Inr run_ids \<Rightarrow> interrupt_all env stamps c1 recovered run_ids))"

section \<open>Subscriptions\<close>

text \<open>
  One call of \<open>subscribe\<close> is the state of its generator: the cursor, the items fetched but not
  yet yielded, what it has yielded, and where it is in its loops. \<open>Repair t\<close> is the inner loop
  that reads the journal up to \<open>t\<close>; \<open>SubFailed\<close> is the raised gap error.
\<close>

datatype sub_phase = CatchUp | Live | Repair int | SubFailed py_error

record subscriber =
  su_queue :: nat
  su_high_water :: int
  su_cursor :: int
  su_phase :: sub_phase
  su_pending :: "session_event list"
  su_yielded :: "session_event list"

definition subscribe :: "coordinator \<Rightarrow> nat \<Rightarrow> int \<Rightarrow> coordinator \<times> subscriber" where
  "subscribe c q after =
     (c\<lparr>co_subscribers := co_subscribers c @ [(q, [])]\<rparr>,
      \<lparr>su_queue = q, su_high_water = latest_sequence (co_journal c), su_cursor = after, su_phase = CatchUp,
       su_pending = [], su_yielded = []\<rparr>)"

text \<open>Closing the generator removes its queue.\<close>

definition unsubscribe :: "nat \<Rightarrow> coordinator \<Rightarrow> coordinator" where
  "unsubscribe q c = c\<lparr>co_subscribers := filter (\<lambda>(k, queue). k \<noteq> q) (co_subscribers c)\<rparr>"

definition queue_of :: "coordinator \<Rightarrow> nat \<Rightarrow> session_event list" where
  "queue_of c q = (case map_of (co_subscribers c) q of None \<Rightarrow> [] | Some queue \<Rightarrow> queue)"

definition pop_queue :: "nat \<Rightarrow> coordinator \<Rightarrow> coordinator" where
  "pop_queue q c = c\<lparr>co_subscribers := map (\<lambda>(k, queue). (k, if k = q then tl queue else queue)) (co_subscribers c)\<rparr>"

text \<open>\<open>replay(after=cursor, limit=500)\<close> and the items up to the target.\<close>

definition fetch_upto :: "journal_env \<Rightarrow> journal \<Rightarrow> int \<Rightarrow> int \<Rightarrow> session_event list result" where
  "fetch_upto env j cursor target =
     ebind (replay env j cursor 500) (\<lambda>page. Inr (filter (\<lambda>e. se_sequence e \<le> target) (rp_items page)))"

definition sub_advance :: "journal_env \<Rightarrow> coordinator \<Rightarrow> subscriber \<Rightarrow> coordinator \<times> subscriber" where
  "sub_advance env c s = (case su_pending s of
     e # rest \<Rightarrow> (c, s\<lparr>su_pending := rest, su_cursor := se_sequence e, su_yielded := su_yielded s @ [e]\<rparr>)
   | [] \<Rightarrow> (case su_phase s of
       CatchUp \<Rightarrow>
         (if su_cursor s < su_high_water s
          then (case fetch_upto env (co_journal c) (su_cursor s) (su_high_water s) of
              Inl e \<Rightarrow> (c, s\<lparr>su_phase := SubFailed e\<rparr>)
            | Inr [] \<Rightarrow> (c, s\<lparr>su_phase := Live\<rparr>)
            | Inr items \<Rightarrow> (c, s\<lparr>su_pending := items\<rparr>))
          else (c, s\<lparr>su_phase := Live\<rparr>))
     | Live \<Rightarrow>
         (case queue_of c (su_queue s) of
            [] \<Rightarrow> (let target = latest_sequence (co_journal c) in
                 if target \<le> su_cursor s then (c, s) else (c, s\<lparr>su_phase := Repair target\<rparr>))
          | e # rest \<Rightarrow>
              (let c' = pop_queue (su_queue s) c in
               if se_sequence e \<le> su_cursor s then (c', s)
               else if se_sequence e = su_cursor s + 1 then (c', s\<lparr>su_pending := [e]\<rparr>)
               else (c', s\<lparr>su_phase := Repair (se_sequence e)\<rparr>)))
     | Repair target \<Rightarrow>
         (if su_cursor s < target
          then (case fetch_upto env (co_journal c) (su_cursor s) target of
              Inl e \<Rightarrow> (c, s\<lparr>su_phase := SubFailed e\<rparr>)
            | Inr [] \<Rightarrow> (c, s\<lparr>su_phase := SubFailed (CoordinatorError ''journal sequence gap could not be repaired'')\<rparr>)
            | Inr items \<Rightarrow> (c, s\<lparr>su_pending := items\<rparr>))
          else (c, s\<lparr>su_phase := Live\<rparr>))
     | SubFailed e \<Rightarrow> (c, s)))"

section \<open>A run is settled whatever its stream does\<close>

text \<open>
  The coordinator owns the run: its lease is in the journal and the run has no terminal event. The
  run is settled: nobody holds the lease and its terminal event is stored.
\<close>

definition holds_run :: "journal_env \<Rightarrow> coordinator \<Rightarrow> string \<Rightarrow> int \<Rightarrow> bool" where
  "holds_run env c run_id token \<longleftrightarrow> journal_wf env (co_journal c) \<and>
     (\<exists>l. j_lease (co_journal c) = Some l \<and> l_run_id l = run_id \<and> l_owner_id l = co_owner_id c \<and>
          l_fencing_token l = token) \<and>
     is_identifier (co_owner_id c) \<and> is_identifier run_id \<and>
     (\<forall>row \<in> set (j_events (co_journal c)). \<not> is_terminal_of run_id row)"

definition settled :: "journal_env \<Rightarrow> coordinator \<Rightarrow> string \<Rightarrow> bool" where
  "settled env c run_id \<longleftrightarrow> journal_wf env (co_journal c) \<and> j_lease (co_journal c) = None \<and>
     (\<exists>row \<in> set (j_events (co_journal c)). is_terminal_of run_id row)"

text \<open>
  The next \<open>k\<close> uuids are new identifiers, none of them an explicit id of the stream, and the
  clock yields timestamps that parse.
\<close>

definition event_ids :: "coordinator \<Rightarrow> string list" where
  "event_ids c = map r_event_id (j_events (co_journal c))"

definition fresh_stamps :: "journal_env \<Rightarrow> stamp_source \<Rightarrow> coordinator \<Rightarrow> nat \<Rightarrow> string list \<Rightarrow> bool" where
  "fresh_stamps env stamps c k used \<longleftrightarrow>
     (\<forall>n \<in> set [co_calls c..<co_calls c + k]. is_identifier (fst (stamps n)) \<and> snd (stamps n) \<noteq> [] \<and>
        fromisoformat env (snd (stamps n)) = Some True \<and>
        fst (stamps n) \<notin> set used \<and> fst (stamps n) \<notin> set (event_ids c)) \<and>
     distinct (map (fst \<circ> stamps) [co_calls c..<co_calls c + k])"

definition same_control :: "coordinator \<Rightarrow> coordinator \<Rightarrow> bool" where
  "same_control c c' \<longleftrightarrow> co_owner_id c' = co_owner_id c \<and> co_suspend c' = co_suspend c \<and> co_audit c' = co_audit c \<and>
     co_active_run c' = co_active_run c \<and> co_active_token c' = co_active_token c"

lemma same_control_refl [simp]: "same_control c c"
  by (simp add: same_control_def)

lemma same_control_trans: "same_control c c1 \<Longrightarrow> same_control c1 c2 \<Longrightarrow> same_control c c2"
  by (simp add: same_control_def)

lemma broadcast_frame [simp]:
  "co_journal (broadcast e c) = co_journal c" "co_calls (broadcast e c) = co_calls c"
  "co_owner_id (broadcast e c) = co_owner_id c" "co_suspend (broadcast e c) = co_suspend c"
  "co_audit (broadcast e c) = co_audit c" "co_active_run (broadcast e c) = co_active_run c"
  "co_active_token (broadcast e c) = co_active_token c" "co_queue_size (broadcast e c) = co_queue_size c"
  by (simp_all add: broadcast_def)

lemma persist_frame: "persist env stamps c run ev token = (c', r) \<Longrightarrow>
  same_control c c' \<and> co_calls c' = Suc (co_calls c)"
  by (auto simp: persist_def same_control_def Let_def split: prod.splits sum.splits if_splits)

text \<open>What a persisted event does to the journal.\<close>

lemma persist_Inl: "persist env stamps c run ev token = (c', Inl e) \<Longrightarrow> co_journal c' = co_journal c"
  by (auto simp: persist_def Let_def split: prod.splits sum.splits if_splits)

lemma persist_Inr:
  assumes "persist env stamps c run ev token = (c', Inr s)"
  obtains uuid now owner where "stamps (co_calls c) = (uuid, now)"
    and "owner = (if token = None then None else Some (co_owner_id c))"
    and "re_kind ev \<noteq> ''terminal'' \<Longrightarrow> append_event env uuid now (co_journal c) run (re_kind ev) (re_status ev)
       (PDict (re_payload ev)) (re_event_id ev) (re_timestamp ev) owner token = Inr (co_journal c', s)"
    and "re_kind ev = ''terminal'' \<Longrightarrow> append_terminal_and_release env uuid now (co_journal c) run (re_status ev)
       (PDict (re_payload ev)) (re_event_id ev) (re_timestamp ev) owner token = Inr (co_journal c', s)"
  using assms by (auto simp: persist_def Let_def split: prod.splits sum.splits if_splits)

lemma validated_event_id:
  assumes "validated_event_input env uuid now run kind status payload eid ts = Inr v"
  shows "v_event_id v = (case eid of None \<Rightarrow> uuid | Some i \<Rightarrow> i)"
  using assms by (auto simp: validated_event_input_def Let_def split: pyval.splits)

lemma terminal_tx_new:
  assumes "journal_wf env j" and "\<forall>row \<in> set (j_events j). \<not> is_terminal_of (v_run_id v) row"
  shows "terminal_in_transaction env j v = insert_event env j v"
proof -
  have "fetchone (is_terminal_of (v_run_id v)) (by_sequence j) = None"
    using assms by (simp add: by_sequence_wf [OF assms(1)])
  then show ?thesis unfolding terminal_in_transaction_def by (simp del: fetchone_None)
qed

lemma persist_journal:
  assumes hold: "holds_run env c run token" and p: "persist env stamps c run ev (Some token) = (c', Inr s)"
  shows "\<exists>v. v_event_id v = (case re_event_id ev of None \<Rightarrow> fst (stamps (co_calls c)) | Some i \<Rightarrow> i) \<and>
    v_run_id v = run \<and> v_kind v = re_kind ev \<and> journal_wf env (co_journal c') \<and>
    j_events (co_journal c') = j_events (co_journal c) @ [new_row (co_journal c) v] \<and>
    j_lease (co_journal c') = (if re_kind ev = ''terminal'' then None else j_lease (co_journal c))"
proof -
  have wf: "journal_wf env (co_journal c)" using hold by (simp add: holds_run_def)
  from p show ?thesis
  proof (cases rule: persist_Inr)
    case (1 uuid now owner)
    show ?thesis
    proof (cases "re_kind ev = ''terminal''")
      case True
      from 1(4) [OF True] show ?thesis
      proof (cases rule: terminal_release_commit)
        case t: (1 v j1)
        note f = validated_input_fields [OF t(1)]
        have "terminal_in_transaction env (co_journal c) v = insert_event env (co_journal c) v"
          using terminal_tx_new [OF wf] hold f(1) by (auto simp: holds_run_def)
        then have ins: "insert_event env (co_journal c) v = Inr (j1, s)" using t(3) by simp
        note w = insert_event_wf [OF wf ins]
        have "j_lease (release_if run j1) = None"
          using hold w(2) by (auto simp: holds_run_def release_if_def)
        then show ?thesis
          using t(4) f True w validated_event_id [OF t(1)] release_if_wf [OF w(1)] 1(1) by (intro exI [of _ v]) (simp split: option.splits)
      qed
    next
      case False
      from 1(3) [OF this] obtain v where
        v: "validated_event_input env uuid now run (re_kind ev) (re_status ev) (PDict (re_payload ev))
              (re_event_id ev) (re_timestamp ev) = Inr v"
        and ins: "insert_event env (co_journal c) v = Inr (co_journal c', s)" by (auto simp: append_event_Inr)
      show ?thesis
        using insert_event_wf [OF wf ins] validated_input_fields [OF v] validated_event_id [OF v] False 1(1)
        by (intro exI [of _ v]) (simp split: option.splits)
    qed
  qed
qed

lemma holds_run_frame:
  "holds_run env c run token \<Longrightarrow> co_journal c' = co_journal c \<Longrightarrow> co_owner_id c' = co_owner_id c \<Longrightarrow>
   holds_run env c' run token"
  by (simp add: holds_run_def)

lemma settled_frame: "settled env c run \<Longrightarrow> co_journal c' = co_journal c \<Longrightarrow> settled env c' run"
  by (simp add: settled_def)

lemma persist_cases:
  assumes hold: "holds_run env c run token" and p: "persist env stamps c run ev (Some token) = (c', r)"
  obtains e where "r = Inl e" and "holds_run env c' run token"
  | s where "r = Inr s" and "re_kind ev \<noteq> ''terminal''" and "holds_run env c' run token"
  | s where "r = Inr s" and "re_kind ev = ''terminal''" and "settled env c' run"
proof (cases r)
  case (Inl e)
  then have "holds_run env c' run token"
    using persist_Inl [of env stamps c run ev "Some token" c' e] persist_frame [OF p] p
    by (intro holds_run_frame [OF hold]) (auto simp: same_control_def)
  with Inl that(1) show ?thesis by blast
next
  case (Inr s)
  with p have p': "persist env stamps c run ev (Some token) = (c', Inr s)" by simp
  from persist_journal [OF hold p'] obtain v where
    v: "v_run_id v = run" "v_kind v = re_kind ev" "journal_wf env (co_journal c')"
    "j_events (co_journal c') = j_events (co_journal c) @ [new_row (co_journal c) v]"
    "j_lease (co_journal c') = (if re_kind ev = ''terminal'' then None else j_lease (co_journal c))" by blast
  show ?thesis
  proof (cases "re_kind ev = ''terminal''")
    case True
    then have "settled env c' run" using v by (auto simp: settled_def is_terminal_of_def new_row_def)
    with Inr True that(3) show ?thesis by blast
  next
    case False
    then have "holds_run env c' run token"
      using v hold persist_frame [OF p'] by (auto simp: holds_run_def same_control_def is_terminal_of_def new_row_def)
    with Inr False that(2) show ?thesis by blast
  qed
qed

lemma fresh_stamps_next:
  assumes "fresh_stamps env stamps c (Suc k) used" and "co_calls c' = Suc (co_calls c)"
    and "set (event_ids c') \<subseteq> set (event_ids c) \<union> set used \<union> {fst (stamps (co_calls c))}"
  shows "fresh_stamps env stamps c' k used"
proof -
  have up: "[co_calls c..<co_calls c + Suc k] = co_calls c # [co_calls c'..<co_calls c' + k]"
    using assms(2) by (simp add: upt_rec)
  have all: "fresh_stamps env stamps c (Suc k) used" by (rule assms(1))
  have dist: "distinct (map (fst \<circ> stamps) (co_calls c # [co_calls c'..<co_calls c' + k]))"
    using all unfolding fresh_stamps_def up by blast
  from dist have new: "\<forall>n \<in> set [co_calls c'..<co_calls c' + k]. fst (stamps n) \<noteq> fst (stamps (co_calls c))"
    by (auto simp: image_iff)
  show ?thesis unfolding fresh_stamps_def
  proof (intro conjI ballI)
    fix n assume n: "n \<in> set [co_calls c'..<co_calls c' + k]"
    then have "n \<in> set [co_calls c..<co_calls c + Suc k]" unfolding up by simp
    then show "is_identifier (fst (stamps n))" "snd (stamps n) \<noteq> []" "fromisoformat env (snd (stamps n)) = Some True"
      "fst (stamps n) \<notin> set used" "fst (stamps n) \<notin> set (event_ids c')"
      using all new n assms(3) unfolding fresh_stamps_def by blast+
  qed (use dist in simp)
qed

lemma persist_fresh:
  assumes "holds_run env c run token" and "persist env stamps c run ev (Some token) = (c', r)"
    and "fresh_stamps env stamps c (Suc k) used" and "\<And>i. re_event_id ev = Some i \<Longrightarrow> i \<in> set used"
  shows "fresh_stamps env stamps c' k used"
proof (rule fresh_stamps_next [OF assms(3)])
  show "co_calls c' = Suc (co_calls c)" using persist_frame [OF assms(2)] by simp
  show "set (event_ids c') \<subseteq> set (event_ids c) \<union> set used \<union> {fst (stamps (co_calls c))}"
  proof (cases r)
    case (Inl e)
    then show ?thesis using persist_Inl assms(2) by (fastforce simp: event_ids_def)
  next
    case (Inr s)
    with assms(2) have p: "persist env stamps c run ev (Some token) = (c', Inr s)" by simp
    from persist_journal [OF assms(1) p] assms(4) show ?thesis
      by (auto simp: event_ids_def new_row_def split: option.splits)
  qed
qed


text \<open>A small payload makes a terminal event that is always accepted from the owner.\<close>

definition small_payload :: "pydict \<Rightarrow> bool" where
  "small_payload d \<longleftrightarrow> strict_json_value (PDict d) \<and> unique_objects (PDict d) \<and> ints_printable (PDict d) \<and>
     json_bytes (PDict d) \<le> MAX_PAYLOAD_BYTES"

lemma persist_terminal:
  assumes hold: "holds_run env c run token" and fresh: "fresh_stamps env stamps c (Suc k) used"
    and d: "small_payload d" and st: "status \<in> set TERMINAL_STATUSES"
  shows "\<exists>c' s. persist env stamps c run (terminal_event status d) (Some token) = (c', Inr s) \<and> settled env c' run \<and>
    se_status s = status \<and> same_control c c'"
proof -
  let ?j = "co_journal c" and ?uuid = "fst (stamps (co_calls c))" and ?now = "snd (stamps (co_calls c))"
  have st': "status \<in> set STATUSES" "validate_kind_status ''terminal'' status = Inr ()" "''terminal'' \<in> set KINDS"
    using st by (auto simp: TERMINAL_STATUSES_def STATUSES_def KINDS_def validate_kind_status_def)
  have now: "is_identifier ?uuid" "?now \<noteq> []" "fromisoformat env ?now = Some True" "?uuid \<notin> r_event_id ` set (j_events ?j)"
    using fresh by (auto simp: fresh_stamps_def event_ids_def)
  have h: "journal_wf env ?j" "is_identifier run" "\<forall>row \<in> set (j_events ?j). \<not> is_terminal_of run row"
    and lease: "assert_run_lease ?j run (Some (co_owner_id c)) (Some token) = Inr ()"
    using hold by (auto simp: holds_run_def assert_run_lease_def journal_wf_def)
  obtain v where v: "validated_event_input env ?uuid ?now run ''terminal'' status (PDict d) None None = Inr v"
    using h(2) now d st' by (auto simp: validated_event_input_def validate_timestamp_def small_payload_def
      simp del: json_bytes.simps strict_json_value.simps ints_printable.simps unique_objects.simps)
  obtain j' e where ins: "insert_event env ?j v = Inr (j', e)" "se_status e = status"
    using fresh_terminal_insert [OF h(1) v _ now(4) h(3)] d by (auto simp: small_payload_def)
  have "terminal_in_transaction env ?j v = Inr (j', e)"
    using terminal_tx_new [OF h(1)] h(3) validated_input_fields [OF v] ins by auto
  then have "append_terminal_and_release env ?uuid ?now ?j run status (PDict d) None None
      (Some (co_owner_id c)) (Some token) = Inr (release_if (v_run_id v) j', e)"
    using v st lease by (simp add: append_terminal_and_release_def)
  then obtain c' where c': "persist env stamps c run (terminal_event status d) (Some token) = (c', Inr e)"
    using st by (simp add: persist_def terminal_event_def case_prod_unfold Let_def)
  then have "settled env c' run" using persist_cases [OF hold c'] by (auto simp: terminal_event_def)
  then show ?thesis using c' ins(2) persist_frame [OF c'] by blast
qed

lemma fixed_payloads_small: "small_payload (re_payload completed_event)" "small_payload (re_payload cancelled_event)"
  "small_payload interrupted_payload"
  by code_simp+

lemma string_bytes_le: "string_bytes s \<le> 2 + 6 * int (length s)"
proof -
  have "escaped_bytes c \<le> 6" for c by (simp add: escaped_bytes_def Let_def)
  then have "sum_list (map escaped_bytes s) \<le> 6 * int (length s)" by (induction s) (auto intro: add_mono)
  then show ?thesis by (simp add: string_bytes_def)
qed

lemma error_payload_small: "length name \<le> 1000 \<Longrightarrow> small_payload (re_payload (error_event name))"
  using string_bytes_le [of name]
  by (simp add: small_payload_def error_event_def terminal_event_def separators_def MAX_PAYLOAD_BYTES_def
    string_bytes_def escaped_bytes_def Let_def)

lemma length_error_name [simp]: "length (error_name e) \<le> 1000"
  by (cases e) simp_all

lemma persist_settled:
  assumes "settled env c run"
  shows "\<exists>c' e. persist env stamps c run ev (Some token) = (c', Inl e) \<and> settled env c' run \<and> same_control c c'"
proof -
  obtain c' r where p: "persist env stamps c run ev (Some token) = (c', r)" by fastforce
  have none: "map_option l_fencing_token (j_lease (co_journal c)) \<noteq> Some token" using assms by (simp add: settled_def)
  have "\<exists>e. r = Inl e"
  proof (rule not_Inr_Inl)
    fix s show "r \<noteq> Inr s"
    proof
      assume "r = Inr s"
      with p have "persist env stamps c run ev (Some token) = (c', Inr s)" by simp
      then show False
        by (rule persist_Inr) (use fenced_writes_raise(1,3) [OF none] in \<open>metis Inl_Inr_False option.distinct(1)\<close>)
    qed
  qed
  then show ?thesis using p persist_Inl [of env stamps c run ev "Some token" c'] persist_frame [OF p] settled_frame [OF assms]
    by blast
qed


lemma fresh_stamps_le: "fresh_stamps env stamps c (k + m) used \<Longrightarrow> fresh_stamps env stamps c k used"
proof -
  have up: "[co_calls c..<co_calls c + (k + m)] = [co_calls c..<co_calls c + k] @ [co_calls c + k..<co_calls c + k + m]"
    by (metis add.assoc le_add1 upt_add_eq_append)
  show "fresh_stamps env stamps c (k + m) used \<Longrightarrow> fresh_stamps env stamps c k used"
    unfolding fresh_stamps_def up by auto
qed

definition known_id :: "string list \<Rightarrow> run_event \<Rightarrow> bool" where
  "known_id used event \<longleftrightarrow> (case re_event_id event of None \<Rightarrow> True | Some i \<Rightarrow> i \<in> set used)"

fun item_ok :: "string list \<Rightarrow> stream_item \<Rightarrow> bool" where
  "item_ok used (SEvent raw) = (case coerce_event raw of Inl _ \<Rightarrow> True | Inr event \<Rightarrow> known_id used event)"
| "item_ok used (SEventCancel raw) = (case coerce_event raw of Inl _ \<Rightarrow> True | Inr event \<Rightarrow> known_id used event)"
| "item_ok used (SRaise name) = (length name \<le> 1000)"
| "item_ok used _ = True"

lemma known_id_None [simp]: "known_id used (terminal_event st d)"
  by (simp add: known_id_def terminal_event_def)

text \<open>Owning the run with \<open>m\<close> fresh uuids left, or having settled it.\<close>

definition in_hand :: "journal_env \<Rightarrow> stamp_source \<Rightarrow> string list \<Rightarrow> string \<Rightarrow> int \<Rightarrow> nat \<Rightarrow> coordinator \<Rightarrow> bool" where
  "in_hand env stamps used run token m c \<longleftrightarrow> holds_run env c run token \<and> fresh_stamps env stamps c m used"

lemma persist_in_hand:
  assumes "in_hand env stamps used run token (Suc m) c" and "known_id used ev"
    and p: "persist env stamps c run ev (Some token) = (c', r)"
  obtains e where "r = Inl e" and "in_hand env stamps used run token m c'"
  | s where "r = Inr s" and "re_kind ev \<noteq> ''terminal''" and "in_hand env stamps used run token m c'"
  | s where "r = Inr s" and "re_kind ev = ''terminal''" and "settled env c' run"
proof -
  have h: "holds_run env c run token" and f: "fresh_stamps env stamps c (Suc m) used"
    using assms(1) by (simp_all add: in_hand_def)
  have "fresh_stamps env stamps c' m used"
    by (rule persist_fresh [OF h p f]) (use assms(2) in \<open>simp add: known_id_def\<close>)
  then show ?thesis using persist_cases [OF h p] that by (auto simp: in_hand_def)
qed

lemma in_hand_le: "in_hand env stamps used run token (k + m) c \<Longrightarrow> in_hand env stamps used run token k c"
  by (auto simp: in_hand_def intro: fresh_stamps_le)

lemma finish_in_hand:
  assumes "in_hand env stamps used run token (Suc m) c" and "small_payload d" and "status \<in> set TERMINAL_STATUSES"
  shows "\<exists>c' s. persist env stamps c run (terminal_event status d) (Some token) = (c', Inr s) \<and> settled env c' run \<and>
    same_control c c'"
  using persist_terminal [OF _ _ assms(2,3)] assms(1) unfolding in_hand_def by blast

lemma finish_events:
  assumes h: "in_hand env stamps used run token (Suc m) c"
  shows "\<exists>c' s. persist env stamps c run completed_event (Some token) = (c', Inr s) \<and> settled env c' run \<and> same_control c c'"
    and "\<exists>c' s. persist env stamps c run cancelled_event (Some token) = (c', Inr s) \<and> settled env c' run \<and> same_control c c'"
    and "length name \<le> 1000 \<Longrightarrow>
      \<exists>c' s. persist env stamps c run (error_event name) (Some token) = (c', Inr s) \<and> settled env c' run \<and> same_control c c'"
proof -
  have st: "''completed'' \<in> set TERMINAL_STATUSES" "''cancelled'' \<in> set TERMINAL_STATUSES" "''error'' \<in> set TERMINAL_STATUSES"
    by code_simp+
  have d: "small_payload [(PStr ''event'', PStr ''run_completed'')]" "small_payload [(PStr ''event'', PStr ''run_cancelled'')]"
    using fixed_payloads_small by (simp_all add: completed_event_def cancelled_event_def terminal_event_def)
  show "\<exists>c' s. persist env stamps c run completed_event (Some token) = (c', Inr s) \<and> settled env c' run \<and> same_control c c'"
    unfolding completed_event_def by (rule finish_in_hand [OF h d(1) st(1)])
  show "\<exists>c' s. persist env stamps c run cancelled_event (Some token) = (c', Inr s) \<and> settled env c' run \<and> same_control c c'"
    unfolding cancelled_event_def by (rule finish_in_hand [OF h d(2) st(2)])
  assume "length name \<le> 1000"
  from error_payload_small [OF this]
  have "small_payload [(PStr ''event'', PStr ''run_error''), (PStr ''error_type'', PStr name)]"
    by (simp add: error_event_def terminal_event_def)
  from finish_in_hand [OF h this st(3)]
  show "\<exists>c' s. persist env stamps c run (error_event name) (Some token) = (c', Inr s) \<and> settled env c' run \<and> same_control c c'"
    unfolding error_event_def .
qed

lemma persist_keeps:
  assumes "in_hand env stamps used run token (Suc m) c" and "known_id used ev"
    and "persist env stamps c run ev (Some token) = (c', r)"
  shows "same_control c c'" and "settled env c' run \<or> in_hand env stamps used run token m c'"
  using persist_frame [OF assms(3)] by (simp, metis persist_in_hand [OF assms])

lemma consume_loop_in_hand:
  assumes "in_hand env stamps used run token (length stream + Suc m) c" and "list_all (item_ok used) stream"
    and "consume_loop env stamps run token c stream = (c', exit)"
  shows "same_control c c' \<and> (exit = LoopDone \<longrightarrow> settled env c' run) \<and>
    (exit = LoopCancelled \<longrightarrow> settled env c' run \<or> in_hand env stamps used run token m c') \<and>
    (\<forall>name. exit = LoopRaised name \<longrightarrow> in_hand env stamps used run token m c' \<and> length name \<le> 1000)"
  using assms
proof (induction stream arbitrary: c)
  case Nil
  then show ?case using finish_events(1) [of env stamps used run token m c] by auto
next
  case (Cons item rest)
  have h: "in_hand env stamps used run token (Suc (length rest + Suc m)) c"
    and hm: "in_hand env stamps used run token m c" using Cons.prems(1) in_hand_le [of _ _ _ _ _ m "Suc (Suc (length rest))" c]
    by (simp_all add: add.commute)
  show ?case
  proof (cases item)
    case (SEvent raw)
    show ?thesis
    proof (cases "coerce_event raw")
      case (Inl e)
      then show ?thesis using Cons.prems(3) SEvent hm by auto
    next
      case (Inr ev)
      obtain c1 r where p: "persist env stamps c run ev (Some token) = (c1, r)" by fastforce
      have k: "known_id used ev" using Cons.prems(2) SEvent Inr by simp
      note frame = persist_frame [OF p]
      from h k p show ?thesis
      proof (cases rule: persist_in_hand)
        case (1 e)
        then have "in_hand env stamps used run token m c1" using in_hand_le [of _ _ _ _ _ m "Suc (length rest)"] by (simp add: add.commute)
        then show ?thesis using Cons.prems(3) SEvent Inr p 1 frame by auto
      next
        case (2 s)
        from Cons.IH [OF 2(3)] Cons.prems(2,3) SEvent Inr p 2 frame show ?thesis
          by (auto intro: same_control_trans)
      next
        case (3 s)
        then show ?thesis using Cons.prems(3) SEvent Inr p frame by auto
      qed
    qed
  next
    case (SEventCancel raw)
    show ?thesis
    proof (cases "coerce_event raw")
      case (Inl e)
      then show ?thesis using Cons.prems(3) SEventCancel hm by auto
    next
      case (Inr ev)
      obtain c1 r where p: "persist env stamps c run ev (Some token) = (c1, r)" by fastforce
      have k: "known_id used ev" using Cons.prems(2) SEventCancel Inr by simp
      have "settled env c1 run \<or> in_hand env stamps used run token m c1"
        using persist_keeps(2) [OF h k p] in_hand_le [of _ _ _ _ _ m "Suc (length rest)"] by (auto simp: add.commute)
      then show ?thesis using Cons.prems(3) SEventCancel Inr p persist_frame [OF p] by auto
    qed
  next
    case (SEndCancel b)
    obtain c1 s where p: "persist env stamps c run completed_event (Some token) = (c1, Inr s)" "settled env c1 run"
      using finish_events(1) [OF h] by blast
    then show ?thesis using Cons.prems(3) SEndCancel hm settled_frame [OF p(2)]
      by (auto simp: abandoned_store_def Let_def same_control_def split: if_splits)
  qed (use Cons.prems hm in auto)
qed

lemma persist_all_keeps:
  assumes "settled env c run \<or> in_hand env stamps used run token (length events + m) c"
    and "list_all (known_id used) events" and "persist_all env stamps run token c events = (c', r)"
  shows "same_control c c' \<and> (settled env c' run \<or> in_hand env stamps used run token m c')"
  using assms
proof (induction events arbitrary: c)
  case (Cons ev rest)
  obtain c1 r1 where p: "persist env stamps c run ev (Some token) = (c1, r1)" by fastforce
  have k: "same_control c c1 \<and> (settled env c1 run \<or> in_hand env stamps used run token (length rest + m) c1)"
  proof (cases "settled env c run")
    case True
    then show ?thesis using persist_settled [OF True, of stamps ev token] p by auto
  next
    case False
    then have "in_hand env stamps used run token (Suc (length rest + m)) c" using Cons.prems(1) by simp
    then show ?thesis using persist_keeps [OF _ _ p] Cons.prems(2) by simp
  qed
  then have km: "same_control c c1 \<and> (settled env c1 run \<or> in_hand env stamps used run token m c1)"
    using in_hand_le [of env stamps used run token m "length rest" c1] by (auto simp: add.commute)
  show ?case
  proof (cases r1)
    case (Inl e)
    then show ?thesis using Cons.prems(3) p km by simp
  next
    case (Inr s)
    then show ?thesis using Cons.IH [of c1] Cons.prems(2,3) p k by (auto intro: same_control_trans)
  qed
qed auto

lemma pop_audit_frame [simp]:
  "co_journal (pop_audit r c) = co_journal c" "co_calls (pop_audit r c) = co_calls c" "co_owner_id (pop_audit r c) = co_owner_id c"
  "co_suspend (pop_audit r c) = co_suspend c" "co_active_run (pop_audit r c) = co_active_run c"
  "co_active_token (pop_audit r c) = co_active_token c"
  by (simp_all add: pop_audit_def)

lemma in_hand_frame:
  "in_hand env stamps used run token m c \<Longrightarrow> co_journal c' = co_journal c \<Longrightarrow> co_calls c' = co_calls c \<Longrightarrow>
   co_owner_id c' = co_owner_id c \<Longrightarrow> in_hand env stamps used run token m c'"
  by (simp add: in_hand_def holds_run_def fresh_stamps_def event_ids_def)

lemma cancelled_run_settled:
  assumes "settled env c run \<or> in_hand env stamps used run token (length (audit_of c run) + 1) c"
    and "list_all (known_id used) (audit_of c run)"
    and "persist_cancelled_run env stamps run token c = (c', r)"
  shows "settled env c' run \<and> co_active_run c' = co_active_run c"
proof -
  obtain c1 r1 where a: "persist_all env stamps run token (pop_audit run c) (audit_of c run) = (c1, r1)" by fastforce
  have "settled env (pop_audit run c) run \<or>
      in_hand env stamps used run token (length (audit_of c run) + 1) (pop_audit run c)"
    using assms(1) settled_frame [of env c run "pop_audit run c"] in_hand_frame [where c = c and c' = "pop_audit run c"] by auto
  from persist_all_keeps [OF this assms(2) a]
  have c1: "same_control (pop_audit run c) c1" "settled env c1 run \<or> in_hand env stamps used run token (Suc 0) c1" by auto
  from c1(2) obtain c2 r2 where p: "persist env stamps c1 run cancelled_event (Some token) = (c2, r2)"
    "settled env c2 run" "same_control c1 c2"
    using finish_events(2) [of env stamps used run token 0 c1] persist_settled [of env c1 run stamps cancelled_event token] by metis
  then have "c' = c2" using assms(3) a by (auto simp: persist_cancelled_run_def split: sum.splits)
  then show ?thesis using p c1(1) by (simp add: same_control_def)
qed

lemma release_held:
  assumes "holds_run env c run token"
  shows "\<exists>j'. release_run_lease (co_journal c) run (co_owner_id c) token = Inr (j', True) \<and>
    journal_wf env j' \<and> j_lease j' = None \<and> j_events j' = j_events (co_journal c)"
  using assms release_if_wf [of env "co_journal c" run]
  by (auto simp: holds_run_def release_run_lease_def assert_run_lease_def release_if_def journal_wf_def)

lemma consume_cancelled_done:
  assumes "settled env c run \<or> in_hand env stamps used run token (length (audit_of c run) + 1) c"
    and "list_all (known_id used) (audit_of c run)"
    and "consume_cancelled env stamps run token c = (c', outcome)"
  shows "journal_wf env (co_journal c') \<and> j_lease (co_journal c') = None \<and> co_active_run c' = co_active_run c \<and>
    (run \<in> set (co_suspend c) \<and> outcome = TaskCancelled \<longrightarrow> j_events (co_journal c') = j_events (co_journal c)) \<and>
    (run \<notin> set (co_suspend c) \<or> outcome \<noteq> TaskCancelled \<longrightarrow> settled env c' run)"
proof (cases "run \<in> set (co_suspend c)")
  case True
  show ?thesis
  proof (cases "settled env c run")
    case s: True
    then have "\<exists>e. release_run_lease (co_journal c) run (co_owner_id c) token = Inl e"
      using fenced_writes_raise(4) by (simp add: settled_def)
    then show ?thesis using True s assms(3) by (auto simp: consume_cancelled_def settled_def)
  next
    case False
    then have "holds_run env c run token" using assms(1) by (simp add: in_hand_def)
    from release_held [OF this] True assms(3) show ?thesis by (auto simp: consume_cancelled_def)
  qed
next
  case False
  obtain c1 r where "persist_cancelled_run env stamps run token c = (c1, r)" by fastforce
  with cancelled_run_settled [OF assms(1,2) this] False assms(3) show ?thesis
    by (auto simp: consume_cancelled_def settled_def split: sum.splits)
qed

lemma forget_run_frame:
  "co_journal (forget_run run c) = co_journal c" "co_calls (forget_run run c) = co_calls c"
  "co_owner_id (forget_run run c) = co_owner_id c" "co_active_run (forget_run run c) \<noteq> Some run"
  by (auto simp: forget_run_def Let_def)

text \<open>
  When the task is over the run is given up, unless the error terminal was lost to a cancellation; then
  the run is still in hand.
\<close>

definition given_up :: "journal_env \<Rightarrow> string \<Rightarrow> bool \<Rightarrow> task_outcome \<Rightarrow> coordinator \<Rightarrow> bool" where
  "given_up env run suspended outcome c \<longleftrightarrow> journal_wf env (co_journal c) \<and> j_lease (co_journal c) = None \<and>
     (\<not> suspended \<or> outcome \<noteq> TaskCancelled \<longrightarrow> settled env c run)"

lemma given_up_frame:
  "given_up env run s out c \<Longrightarrow> co_journal c' = co_journal c \<Longrightarrow> out' = out \<or> out' = TaskCancelled \<Longrightarrow> given_up env run s out' c'"
  by (auto simp: given_up_def settled_def)

lemma settled_given_up: "settled env c run \<Longrightarrow> given_up env run s out c"
  by (simp add: given_up_def settled_def)

lemma abandoned_store_in_hand:
  assumes "in_hand env stamps used run token (Suc m) c" and "length name \<le> 1000"
  shows "if commits then settled env (abandoned_store env stamps c run (error_event name) token commits) run
    else abandoned_store env stamps c run (error_event name) token commits = c"
proof (cases commits)
  case True
  obtain c1 s where p: "persist env stamps c run (error_event name) (Some token) = (c1, Inr s)" "settled env c1 run"
    using finish_events(3) [OF assms] by blast
  then show ?thesis using True settled_frame [OF p(2)] by (simp add: abandoned_store_def)
qed (simp add: abandoned_store_def)

lemma consume_done:
  assumes "in_hand env stamps used run token (length stream + length (audit_of c run) + 2 + m) c"
    and "list_all (item_ok used) stream" and "list_all (known_id used) (audit_of c run)"
    and "consume env stamps run token c stream late = (c', outcome)"
  shows "(\<not> lc_close late \<longrightarrow> co_active_run c' \<noteq> Some run) \<and>
    (given_up env run (run \<in> set (co_suspend c)) outcome c' \<or>
     lc_store late = Some False \<and> outcome = TaskCancelled \<and> in_hand env stamps used run token (Suc m) c')"
proof -
  obtain c1 exit where l: "consume_loop env stamps run token c stream = (c1, exit)" by fastforce
  have "in_hand env stamps used run token (length stream + Suc (length (audit_of c run) + 1 + m)) c"
    using assms(1) by (simp add: algebra_simps)
  note loop = consume_loop_in_hand [OF this assms(2) l]
  have sc: "co_suspend c1 = co_suspend c" "audit_of c1 run = audit_of c run"
    using loop by (simp_all add: same_control_def audit_of_def)
  define body where "body = (case exit of LoopDone \<Rightarrow> (c1, TaskDone) | LoopCancelled \<Rightarrow> consume_cancelled env stamps run token c1
        | LoopRaised name \<Rightarrow> store_error env stamps run token c1 name (lc_store late))"
  obtain c2 out where b: "body = (c2, out)" by fastforce
  have fin_state: "c' = (if lc_close late then c2 else forget_run run c2)" "outcome = (if lc_close late then TaskCancelled else out)"
  proof -
    have "consume env stamps run token c stream late =
        (if lc_close late then (fst body, TaskCancelled) else (forget_run run (fst body), snd body))"
      unfolding consume_def l body_def prod.case by (simp add: split_def Let_def)
    then show "c' = (if lc_close late then c2 else forget_run run c2)" "outcome = (if lc_close late then TaskCancelled else out)"
      using assms(4) unfolding b by (simp_all split: if_splits)
  qed
  have fin: "given_up env run (run \<in> set (co_suspend c)) out c2 \<or>
     lc_store late = Some False \<and> out = TaskCancelled \<and> in_hand env stamps used run token (Suc m) c2"
  proof (cases exit)
    case LoopDone
    then show ?thesis using b loop by (simp add: body_def settled_given_up)
  next
    case LoopCancelled
    have h: "settled env c1 run \<or> in_hand env stamps used run token (length (audit_of c1 run) + 1) c1"
      and au: "list_all (known_id used) (audit_of c1 run)"
      using loop LoopCancelled sc assms(3) in_hand_le [of env stamps used run token "length (audit_of c1 run) + 1" m c1] by auto
    have "consume_cancelled env stamps run token c1 = (c2, out)" using b LoopCancelled by (simp add: body_def)
    from consume_cancelled_done [OF h au this] sc show ?thesis by (auto simp: given_up_def)
  next
    case (LoopRaised name)
    then have h: "in_hand env stamps used run token (Suc (length (audit_of c run) + m)) c1" and n: "length name \<le> 1000"
      using loop by auto
    obtain c3 s where p: "persist env stamps c1 run (error_event name) (Some token) = (c3, Inr s)" "settled env c3 run"
      using finish_events(3) [OF h n] by blast
    have m: "in_hand env stamps used run token (Suc m) c1"
      using h in_hand_le [of env stamps used run token "Suc m" "length (audit_of c run)" c1] by (simp add: add.commute)
    show ?thesis
    proof (cases "lc_store late")
      case None
      then show ?thesis using b LoopRaised p by (simp add: body_def store_error_def settled_given_up)
    next
      case (Some commits)
      then show ?thesis using b LoopRaised m abandoned_store_in_hand [OF h n, of commits]
        by (cases commits) (auto simp: body_def store_error_def intro: settled_given_up)
    qed
  qed
  have j: "co_journal c' = co_journal c2" "co_calls c' = co_calls c2" "co_owner_id c' = co_owner_id c2"
    and o: "outcome = out \<or> outcome = TaskCancelled"
    using forget_run_frame [of run c2] by (simp_all add: fin_state)
  have "\<not> lc_close late \<longrightarrow> co_active_run c' \<noteq> Some run" using forget_run_frame(4) [of run c2] by (simp add: fin_state)
  moreover have "given_up env run (run \<in> set (co_suspend c)) outcome c'" if "given_up env run (run \<in> set (co_suspend c)) out c2"
    by (rule given_up_frame [OF that j(1) o])
  moreover have "in_hand env stamps used run token (Suc m) c'" if "in_hand env stamps used run token (Suc m) c2"
    by (rule in_hand_frame [OF that j])
  ultimately show ?thesis using fin o by blast
qed

definition sample_stamps :: stamp_source where
  "sample_stamps n = (''ex'' @ replicate n CHR ''y'', ''t'')"

definition sample_coordinator :: coordinator where
  "sample_coordinator = \<lparr>co_journal = started_journal, co_calls = 0, co_owner_id = ''owner'', co_owner_pid = -1,
     co_queue_size = 256, co_active_run = Some ''run1'', co_active_token = Some 1, co_suspend = [],
     co_audit = [], co_subscribers = [(0, [])], co_last_broadcast = 1\<rparr>"

lemma sample_holds: "holds_run sample_env sample_coordinator ''run1'' 1"
proof -
  have "is_identifier ''owner''" "is_identifier ''run1''" by code_simp+
  then show ?thesis using started_wf
    by (simp add: holds_run_def sample_coordinator_def) (simp add: started_journal_def started_row_def is_terminal_of_def)
qed

lemma sample_fresh: "fresh_stamps sample_env sample_stamps sample_coordinator 6 []"
  by code_simp

lemma settled_once:
  assumes "settled env c run"
  shows "length (filter (is_terminal_of run) (j_events (co_journal c))) = 1"
proof -
  have "length (filter (is_terminal_of run) (j_events (co_journal c))) \<le> 1"
    using assms by (simp add: settled_def journal_wf_def)
  moreover have "filter (is_terminal_of run) (j_events (co_journal c)) \<noteq> []"
    using assms by (auto simp: settled_def filter_empty_conv)
  ultimately show ?thesis by (simp add: le_Suc_eq)
qed


definition no_late_cancel :: late_cancel where
  "no_late_cancel = \<lparr>lc_store = None, lc_close = False\<rparr>"


lemma audit_registered: "audit_of (register_audit run events c) run \<in> {events, audit_of c run}"
  by (auto simp: register_audit_def audit_of_def AList.update_conv' split: option.splits)

lemma register_audit_frame [simp]:
  "co_journal (register_audit run events c) = co_journal c" "co_calls (register_audit run events c) = co_calls c"
  "co_owner_id (register_audit run events c) = co_owner_id c" "co_suspend (register_audit run events c) = co_suspend c"
  "co_active_run (register_audit run events c) = co_active_run c"
  by (simp_all add: register_audit_def)

lemma drop_active_frame [simp]:
  "co_journal (drop_active run c) = co_journal c" "co_suspend (drop_active run c) = co_suspend c"
  "co_active_run (drop_active run c) \<noteq> Some run"
  by (simp_all add: drop_active_def)

text \<open>
  C23: cancelling the active run settles it, wherever the cancellation reaches the task: before its first
  step, in its stream, while it stores the error terminal of a stream that raised, or while it closes the
  stream; and even if an audit event is refused. The call returns \<open>True\<close> or raises, and either way the run
  has exactly one terminal event, the lease is free and the coordinator is ready for the next run.
\<close>

theorem cancel_settles_run:
  assumes "holds_run env c run token" and "co_active_run c = Some run" and "co_active_token c = Some token"
    and "run \<notin> set (co_suspend c)" and "audit_of c run = []"
    and "list_all (\<lambda>ev. re_kind ev \<noteq> ''terminal'' \<and> re_status ev \<notin> {''cancelled'', ''interrupted''}) audits"
    and "fresh_stamps env stamps c (length (case at_point of NotStarted \<Rightarrow> [] | Running stream late \<Rightarrow> stream) + length audits + 3) used"
    and "list_all (known_id used) audits"
    and "list_all (item_ok used) (case at_point of NotStarted \<Rightarrow> [] | Running stream late \<Rightarrow> stream)"
    and "cancel env stamps c run audits at_point = (c', r)"
  shows "(r = Inr True \<or> (\<exists>name. r = Inl name)) \<and> j_lease (co_journal c') = None \<and> co_active_run c' \<noteq> Some run \<and>
    length (filter (is_terminal_of run) (j_events (co_journal c'))) = 1"
proof -
  let ?c0 = "register_audit run audits c" and ?stream = "case at_point of NotStarted \<Rightarrow> [] | Running stream late \<Rightarrow> stream"
  have au: "list_all (known_id used) (audit_of ?c0 run)" "length (audit_of ?c0 run) \<le> length audits"
    using audit_registered [of run audits c] assms(5,8) by auto
  have hold: "in_hand env stamps used run token (length ?stream + length (audit_of ?c0 run) + 2 + Suc (length audits - length (audit_of ?c0 run))) ?c0"
    using assms(1,7) au(2) in_hand_frame [where c = c and c' = ?c0] by (simp add: in_hand_def numeral_3_eq_3)
  have guard: "\<not> list_ex (\<lambda>ev. re_kind ev = ''terminal'' \<or> re_status ev \<in> {''cancelled'', ''interrupted''}) audits"
    using assms(6) by (auto simp: list_ex_iff list_all_iff)
  obtain c1 out where task: "cancelled_task env stamps run token ?c0 at_point = (c1, out)" by fastforce
  have ended: "given_up env run False out c1 \<and> (out = TaskCancelled \<or> out = TaskDone \<or> co_active_run c1 \<noteq> Some run) \<or>
      out = TaskCancelled \<and> in_hand env stamps used run token (Suc (length audits - length (audit_of ?c0 run))) c1"
  proof (cases at_point)
    case NotStarted
    then have "c1 = ?c0" "out = TaskCancelled" using task by (simp_all add: cancelled_task_def)
    then show ?thesis using hold NotStarted in_hand_le [of env stamps used run token
        "Suc (length audits - length (audit_of ?c0 run))" "length (audit_of ?c0 run) + 2" ?c0] by (simp add: algebra_simps)
  next
    case (Running stream late)
    then have c: "consume env stamps run token ?c0 stream late = (c1, out)" using task by (simp add: cancelled_task_def)
    have s: "?stream = stream" "list_all (item_ok used) stream" using Running assms(9) by simp_all
    have "out = TaskCancelled" if "lc_close late" using c that by (simp add: consume_def split: prod.splits)
    then show ?thesis using consume_done [OF hold [unfolded s(1)] s(2) au(1) c] assms(4) in_hand_le [of env stamps used run token
        "Suc (length audits - length (audit_of ?c0 run))" 1 c1] by auto
  qed
  have "settled env c' run \<and> co_active_run c' \<noteq> Some run \<and> (r = Inr True \<or> (\<exists>name. r = Inl name))"
    using ended
  proof
    assume g: "given_up env run False out c1 \<and> (out = TaskCancelled \<or> out = TaskDone \<or> co_active_run c1 \<noteq> Some run)"
    then have s: "settled env c1 run" by (simp add: given_up_def)
    then have "active_run_id (co_journal c1) \<noteq> Some run" by (simp add: settled_def active_run_id_def)
    then show ?thesis using g assms(2,3,10) guard task s settled_frame [of env c1 run "drop_active run c1"]
      by (auto simp: cancel_def split: task_outcome.splits)
  next
    assume h: "out = TaskCancelled \<and> in_hand env stamps used run token (Suc (length audits - length (audit_of ?c0 run))) c1"
    obtain c2 s where p: "persist env stamps c1 run cancelled_event (Some token) = (c2, Inr s)" "settled env c2 run"
      using finish_events(2) h by blast
    have "active_run_id (co_journal c1) = Some run" using h by (auto simp: in_hand_def holds_run_def active_run_id_def)
    then show ?thesis using assms(2,3,10) guard task h p settled_frame [OF p(2)] by (auto simp: cancel_def)
  qed
  then show ?thesis using settled_once [of env c' run] by (auto simp: settled_def)
qed

theorem cancel_settles_run_witness:
  "\<exists>c' r. cancel sample_env sample_stamps sample_coordinator ''run1'' [] NotStarted = (c', r) \<and>
     j_lease (co_journal c') = None \<and> length (filter (is_terminal_of ''run1'') (j_events (co_journal c'))) = 1"
proof -
  obtain c' r where c: "cancel sample_env sample_stamps sample_coordinator ''run1'' [] NotStarted = (c', r)" by fastforce
  have a: "audit_of sample_coordinator ''run1'' = []" "co_suspend sample_coordinator = []"
    "co_active_run sample_coordinator = Some ''run1''" "co_active_token sample_coordinator = Some 1"
    by (simp_all add: audit_of_def sample_coordinator_def)
  have "fresh_stamps sample_env sample_stamps sample_coordinator (3 + 3) []" using sample_fresh by simp
  from fresh_stamps_le [OF this] cancel_settles_run [OF sample_holds a(3,4) _ a(1) _ _ _ _ c, of "[]"] a(2) c
  show ?thesis by simp
qed

text \<open>
  Suspending a running task gives the run up without ending it. When the task is waiting
  for its stream, the call returns \<open>True\<close>, frees the lease and writes no event, and the run can be
  resumed at once by any owner with a valid identity, under a token never used before.
\<close>

theorem suspend_then_resume:
  assumes "holds_run env c run token" and "co_active_run c = Some run" and "co_active_token c = Some token"
    and "row \<in> set (j_events (co_journal c))" and "r_run_id row = run"
    and "is_identifier owner" and "owner_process_start env pid = Inr start"
  shows "\<exists>c'. suspend_for_restart env stamps c run (Running [SCancel] no_late_cancel) = (c', Inr True) \<and>
    j_lease (co_journal c') = None \<and> j_events (co_journal c') = j_events (co_journal c) \<and>
    co_active_run c' = None \<and> run \<notin> set (co_suspend c') \<and>
    (\<exists>j' t. resume_run env now (co_journal c') run owner pid = Inr (j', t) \<and> token < t)"
proof -
  let ?c0 = "c\<lparr>co_suspend := List.insert run (co_suspend c)\<rparr>"
  have "holds_run env ?c0 run token" using assms(1) by (rule holds_run_frame) simp_all
  from release_held [OF this] obtain j' where
    j': "release_run_lease (co_journal c) run (co_owner_id c) token = Inr (j', True)" "journal_wf env j'"
    "j_lease j' = None" "j_events j' = j_events (co_journal c)" by auto
  let ?c1 = "forget_run run (?c0\<lparr>co_journal := j'\<rparr>)"
  have "consume env stamps run token ?c0 [SCancel] no_late_cancel = (?c1, TaskCancelled)"
    using j'(1) by (simp add: consume_def consume_cancelled_def no_late_cancel_def)
  then have s: "suspend_for_restart env stamps c run (Running [SCancel] no_late_cancel)
      = ((drop_active run ?c1)\<lparr>co_suspend := removeAll run (co_suspend (drop_active run ?c1))\<rparr>, Inr True)"
    using assms(2,3) by (simp add: suspend_for_restart_def cancelled_task_def Let_def)
  obtain f where f: "j_fence (co_journal c) = Some f" "1 \<le> f" "token < f"
    using assms(1) by (auto simp: holds_run_def journal_wf_def)
  have fj: "j_fence j' = Some f"
    using j'(1) f(1) by (auto simp: release_run_lease_def release_if_def split: option.splits if_splits)
  have "resume_run env now j' run owner pid = Inr (j'\<lparr>j_fence := Some (f + 1), j_lease := Some
      \<lparr>l_run_id = run, l_owner_id = owner, l_owner_pid = pid, l_owner_process_start = start, l_fencing_token = f,
       l_acquired_at = now\<rparr>\<rparr>, f)"
    using assms(1,4,5,6,7) j'(3,4) f fj
    by (auto simp: resume_run_def holds_run_def not_terminal_def allocate_fencing_token_def put_lease_def)
  then show ?thesis using s j'(3,4) f(3) assms(2)
    by (auto simp: forget_run_def drop_active_def pop_audit_def Let_def)
qed

theorem suspend_then_resume_witness:
  "\<exists>c'. suspend_for_restart sample_env sample_stamps sample_coordinator ''run1'' (Running [SCancel] no_late_cancel) = (c', Inr True) \<and>
     (\<exists>j' t. resume_run sample_env ''t9'' (co_journal c') ''run1'' ''owner2'' (-1) = Inr (j', t) \<and> 1 < t)"
proof -
  have "is_identifier ''owner2''" "owner_process_start sample_env (-1) = Inr []" by code_simp+
  moreover have "co_active_run sample_coordinator = Some ''run1''" "co_active_token sample_coordinator = Some 1"
    "started_row \<in> set (j_events (co_journal sample_coordinator))" "r_run_id started_row = ''run1''"
    by (simp_all add: sample_coordinator_def started_journal_def started_row_def)
  ultimately show ?thesis using suspend_then_resume [OF sample_holds, of started_row "''owner2''" "-1" "[]"] by blast
qed



lemma begin_owned:
  assumes wf: "journal_wf env j" and bg: "begin_run env uuid now j run owner pid ctx = Inr (j', res)"
  shows "j_lease j = None" and "j_fence j = Some (br_fencing_token res)" and "journal_wf env j'"
    and "\<exists>l. j_lease j' = Some l \<and> l_run_id l = run \<and> l_owner_id l = owner \<and> l_fencing_token l = br_fencing_token res"
    and "\<forall>row \<in> set (j_events j'). \<not> is_terminal_of run row"
    and "r_event_id ` set (j_events j') \<subseteq> r_event_id ` set (j_events j) \<union> {uuid}"
    and "is_identifier owner" and "is_identifier run"
proof -
  show "is_identifier owner" "is_identifier run" using bg by (auto simp: begin_run_def)
  obtain start v j1 j2 where
    v: "validated_event_input env uuid now run ''system'' ''running''
          (PDict ((PStr ''event'', PStr ''run_started'') #
            (case ctx of None \<Rightarrow> [] | Some c \<Rightarrow> [(PStr ''surface_context'', PDict c)]))) None (Some now) = Inr v"
    and nt: "not_terminal j run = Inr ()" and al: "allocate_fencing_token j = Inr (j1, br_fencing_token res)"
    and pt: "put_lease j1 run owner pid start (br_fencing_token res) now = Inr j2"
    and ins: "insert_event env j2 v = Inr (j', br_event res)"
    using begin_commit [OF bg] by metis
  note lease = take_lease_wf [OF wf al pt]
  note new = insert_event_wf [OF lease(1) ins]
  show "j_lease j = None" "j_fence j = Some (br_fencing_token res)" "journal_wf env j'"
    using lease new by auto
  show "\<exists>l. j_lease j' = Some l \<and> l_run_id l = run \<and> l_owner_id l = owner \<and> l_fencing_token l = br_fencing_token res"
    using lease new by auto
  show "\<forall>row \<in> set (j_events j'). \<not> is_terminal_of run row"
    using nt lease(5) new(4) validated_input_fields [OF v] by (auto simp: not_terminal_def is_terminal_of_def new_row_def)
  show "r_event_id ` set (j_events j') \<subseteq> r_event_id ` set (j_events j) \<union> {uuid}"
    using lease(5) new(4) validated_event_id [OF v] by (auto simp: new_row_def)
qed

text \<open>
  C24: a start either takes the run over completely or leaves no trace in the lease table. If
  \<open>start_run\<close> returns, the coordinator holds the lease of the run and has it as its active run; if it
  raises, also when its caller is cancelled half way, the lease table is as before and the
  coordinator has no active run.
\<close>

theorem start_run_all_or_nothing:
  assumes "journal_wf env (co_journal c)" and "co_active_run c = None" and "fresh_stamps env stamps c 2 used"
    and "start_run env stamps c run ctx cancelled = (c', closed, r)"
  shows "(\<exists>token. r = Inr token \<and> holds_run env c' run token \<and> co_active_run c' = Some run \<and>
      co_active_token c' = Some token \<and> \<not> cancelled \<and> j_fence (co_journal c) = Some token) \<or>
    (\<exists>e. r = Inl e \<and> co_active_run c' = None \<and> j_lease (co_journal c') = j_lease (co_journal c))"
proof -
  obtain c1 b where b: "coord_begin_run env stamps c run ctx = (c1, b)" by fastforce
  show ?thesis
  proof (cases b)
    case (Inl e)
    then have "co_journal c1 = co_journal c" "co_active_run c1 = None"
      using b assms(2) by (auto simp: coord_begin_run_def Let_def split: prod.splits sum.splits)
    then show ?thesis using assms(2,4) b Inl
      by (auto simp: start_run_def split: sum.splits option.splits if_splits py_error.splits)
  next
    case (Inr res)
    let ?t = "br_fencing_token res"
    obtain uuid now j' where st: "stamps (co_calls c) = (uuid, now)"
      and bg: "begin_run env uuid now (co_journal c) run (co_owner_id c) (co_owner_pid c) ctx = Inr (j', res)"
      and c1: "c1 = broadcast (br_event res) (c\<lparr>co_calls := Suc (co_calls c), co_journal := j'\<rparr>)"
      using b Inr by (auto simp: coord_begin_run_def Let_def split: prod.splits sum.splits)
    note own = begin_owned [OF assms(1) bg]
    have hold: "holds_run env c1 run ?t" using own c1 by (auto simp: holds_run_def)
    have ids: "set (event_ids c1) \<subseteq> set (event_ids c) \<union> {uuid}" using own(6) c1 by (simp add: event_ids_def)
    note free = own(1) and tk = own(2)
    show ?thesis
    proof (cases cancelled)
      case True
      have "fresh_stamps env stamps c1 1 used"
        using fresh_stamps_next [of env stamps c 1 used c1] assms(3) c1 ids st by (auto simp: numeral_2_eq_2)
      then obtain c2 s where "persist env stamps c1 run cancelled_event (Some ?t) = (c2, Inr s)" "settled env c2 run"
          "same_control c1 c2"
        using finish_events(2) [of env stamps used run ?t 0 c1] hold by (auto simp: in_hand_def)
      then show ?thesis using assms(2,4) b Inr True free c1
        by (auto simp: start_run_def settled_def same_control_def split: sum.splits option.splits)
    next
      case False
      then show ?thesis using assms(2,4) b Inr free tk holds_run_frame [OF hold]
        by (auto simp: start_run_def split: sum.splits option.splits)
    qed
  qed
qed


theorem start_run_all_or_nothing_witness:
  "\<exists>token c'. start_run sample_env sample_stamps (sample_coordinator\<lparr>co_journal := new_journal ''s'', co_active_run := None\<rparr>)
     ''run1'' None False = (c', False, Inr token) \<and> holds_run sample_env c' ''run1'' token"
proof -
  let ?c = "sample_coordinator\<lparr>co_journal := new_journal ''s'', co_active_run := None\<rparr>"
  have r: "start_run sample_env sample_stamps ?c ''run1'' None False
     = (fst (start_run sample_env sample_stamps ?c ''run1'' None False), False, Inr 1)" by code_simp
  have f: "fresh_stamps sample_env sample_stamps ?c 2 []" by code_simp
  show ?thesis using start_run_all_or_nothing [OF _ _ f r] r by auto
qed

section \<open>Subscribers see every event once\<close>

definition stored :: "journal_env \<Rightarrow> journal \<Rightarrow> session_event \<Rightarrow> bool" where
  "stored env j e \<longleftrightarrow> (\<exists>row \<in> set (j_events j). event_from_row env row (j_session_id j) = Inr e)"

definition queues_stored :: "journal_env \<Rightarrow> coordinator \<Rightarrow> bool" where
  "queues_stored env c \<longleftrightarrow> (\<forall>(q, queue) \<in> set (co_subscribers c). \<forall>e \<in> set queue. stored env (co_journal c) e)"

lemma stored_extends: "journal_extends j j' \<Longrightarrow> stored env j e \<Longrightarrow> stored env j' e"
  by (auto simp: stored_def journal_extends_def)

lemma stored_bound: "journal_wf env j \<Longrightarrow> stored env j e \<Longrightarrow> 1 \<le> se_sequence e \<and> se_sequence e \<le> j_seq j"
proof -
  assume wf: "journal_wf env j" and "stored env j e"
  then obtain row where row: "row \<in> set (j_events j)" "se_sequence e = r_sequence row"
    by (auto simp: stored_def event_from_row_def)
  have "r_sequence row \<in> set (map r_sequence (j_events j))" using row by simp
  then show ?thesis using wf row unfolding journal_wf_def by simp
qed

lemma queues_stored_extends:
  "queues_stored env c \<Longrightarrow> journal_extends (co_journal c) j' \<Longrightarrow> queues_stored env (c\<lparr>co_calls := n, co_journal := j'\<rparr>)"
  by (fastforce simp: queues_stored_def intro: stored_extends)

lemma set_put_bounded: "set (put_bounded n e queue) \<subseteq> insert e (set queue)"
  by (auto simp: put_bounded_def dest: list.set_sel(2) split: if_splits) (metis empty_iff list.sel(2) list.set(1) list.set_sel(2))

lemma broadcast_stored: "queues_stored env c \<Longrightarrow> stored env (co_journal c) e \<Longrightarrow> queues_stored env (broadcast e c)"
  using set_put_bounded by (fastforce simp: queues_stored_def broadcast_def)

text \<open>A published operation commits to the journal and broadcasts an event that is in it.\<close>

definition published :: "journal_env \<Rightarrow> coordinator \<Rightarrow> coordinator \<Rightarrow> bool" where
  "published env c c' \<longleftrightarrow> journal_wf env (co_journal c') \<and> journal_extends (co_journal c) (co_journal c') \<and> queues_stored env c'"

lemma publish:
  assumes "journal_wf env j'" and "journal_extends (co_journal c) j'" and "stored env j' e" and "queues_stored env c"
  shows "published env c (broadcast e (c\<lparr>co_calls := n, co_journal := j'\<rparr>))"
  using assms broadcast_stored [of env "c\<lparr>co_calls := n, co_journal := j'\<rparr>" e] queues_stored_extends [of env c j' n]
  by (simp add: published_def)

lemma not_published: "journal_wf env (co_journal c) \<Longrightarrow> queues_stored env c \<Longrightarrow> published env c (c\<lparr>co_calls := n\<rparr>)"
  by (simp add: published_def queues_stored_def)

lemma insert_stored: "journal_wf env j \<Longrightarrow> insert_event env j v = Inr (j', e) \<Longrightarrow> stored env j' e"
  using insert_event_wf(4-6) by (fastforce simp: stored_def)

lemma append_published:
  assumes wf: "journal_wf env j"
  shows "append_event env uuid now j run kind status payload eid ts owner token = Inr (j', e) \<Longrightarrow>
      journal_wf env j' \<and> journal_extends j j' \<and> stored env j' e"
    and "append_terminal_and_release env uuid now j run status payload eid ts owner token = Inr (j', e) \<Longrightarrow>
      journal_wf env j' \<and> journal_extends j j' \<and> stored env j' e"
proof -
  assume "append_event env uuid now j run kind status payload eid ts owner token = Inr (j', e)"
  then show "journal_wf env j' \<and> journal_extends j j' \<and> stored env j' e"
    using insert_event_wf(1) [OF wf] insert_event_ext insert_stored [OF wf] by (fastforce simp: append_event_Inr)
next
  assume "append_terminal_and_release env uuid now j run status payload eid ts owner token = Inr (j', e)"
  then show "journal_wf env j' \<and> journal_extends j j' \<and> stored env j' e"
  proof (cases rule: terminal_release_commit)
    case (1 v j1)
    have "stored env j1 e"
      using terminal_in_transaction_stored [OF wf 1(3)] validated_input_fields [OF 1(1)] by (auto simp: stored_def)
    then have "stored env j' e" using 1(4) by (simp add: stored_def)
    then show ?thesis
      using 1(4) release_if_wf [OF terminal_in_transaction_wf(1) [OF wf 1(3)]]
        journal_extends_trans [OF terminal_in_transaction_ext [OF 1(3)] release_if_ext] by blast
  qed
qed

lemma persist_published:
  assumes "journal_wf env (co_journal c)" and "queues_stored env c" and "persist env stamps c run ev token = (c', r)"
  shows "published env c c'"
proof (cases "c' = c\<lparr>co_calls := Suc (co_calls c)\<rparr>")
  case True
  then show ?thesis using not_published assms by simp
next
  case False
  then obtain j' e where "c' = broadcast e (c\<lparr>co_calls := Suc (co_calls c), co_journal := j'\<rparr>)"
    "journal_wf env j' \<and> journal_extends (co_journal c) j' \<and> stored env j' e"
    using assms(3) append_published [OF assms(1)]
    by (auto simp: persist_def Let_def case_prod_unfold split: sum.splits if_splits prod.splits) 
  then show ?thesis using publish assms(2) by simp
qed

lemma begin_published:
  assumes "journal_wf env (co_journal c)" and "queues_stored env c" and "coord_begin_run env stamps c run ctx = (c', r)"
  shows "published env c c'"
proof (cases r)
  case (Inl e)
  then have "c' = c\<lparr>co_calls := Suc (co_calls c)\<rparr>" using assms(3)
    by (auto simp: coord_begin_run_def Let_def split: prod.splits sum.splits)
  then show ?thesis using not_published assms by simp
next
  case (Inr res)
  then obtain uuid now j' where
    b: "begin_run env uuid now (co_journal c) run (co_owner_id c) (co_owner_pid c) ctx = Inr (j', res)"
    and c': "c' = broadcast (br_event res) (c\<lparr>co_calls := Suc (co_calls c), co_journal := j'\<rparr>)"
    using assms(3) by (auto simp: coord_begin_run_def Let_def split: prod.splits sum.splits)
  from b have "journal_extends (co_journal c) j' \<and> stored env j' (br_event res)"
  proof (cases rule: begin_commit)
    case (1 start v j1 j2)
    then show ?thesis
      using journal_extends_trans [OF take_lease_ext [OF 1(4,5)] insert_event_ext [OF 1(6)]]
        insert_stored [OF take_lease_wf(1) [OF assms(1) 1(4,5)] 1(6)] by blast
  qed
  then show ?thesis using publish [OF begin_owned(3) [OF assms(1) b]] assms(2) c' by blast
qed

lemma recover_published:
  assumes "journal_wf env (co_journal c)" and "queues_stored env c" and "recover_lease_and_publish env stamps c = (c', r)"
  shows "published env c c'"
proof -
  obtain uuid now where st: "stamps (co_calls c) = (uuid, now)" by fastforce
  show ?thesis
  proof (cases "recover_run_lease env uuid now (co_journal c) (co_owner_id c)")
    case (Inl e)
    then show ?thesis using assms not_published st by (auto simp: recover_lease_and_publish_def)
  next
    case (Inr res)
    obtain j' out where res: "res = (j', out)" by fastforce
    have x: "journal_exec env uuid now (co_journal c) (OpRecover (co_owner_id c)) = Inr j'" using Inr res by simp
    have j': "journal_wf env j'" "journal_extends (co_journal c) j'"
      using journal_exec_wf [OF assms(1) x] journal_exec_ext [OF x] by simp_all
    show ?thesis
    proof (cases out)
      case None
      then show ?thesis using assms(2,3) st Inr res j' queues_stored_extends [OF assms(2) j'(2)]
        by (auto simp: recover_lease_and_publish_def published_def)
    next
      case (Some e)
      have "stored env j' e" using Inr unfolding res Some
        by (rule recover_commit) (auto simp: stored_def dest: insert_stored [OF assms(1)])
      then show ?thesis using publish [OF j' _ assms(2)] assms(3) st Inr res Some
        by (auto simp: recover_lease_and_publish_def)
    qed
  qed
qed


text \<open>
  One step of a session with a subscriber: another process commits to the journal, this coordinator
  publishes, or the subscriber takes a step. The process table may change between steps.
\<close>

inductive sub_step :: "journal_env \<Rightarrow> coordinator \<times> subscriber \<Rightarrow> coordinator \<times> subscriber \<Rightarrow> bool" for env0 where
  foreign: "journal_step env0 (co_journal c) j' \<Longrightarrow> sub_step env0 (c, s) (c\<lparr>co_journal := j'\<rparr>, s)"
| persisted: "fromisoformat env = fromisoformat env0 \<Longrightarrow> persist env stamps c run ev token = (c', r) \<Longrightarrow>
    sub_step env0 (c, s) (c', s)"
| begun: "fromisoformat env = fromisoformat env0 \<Longrightarrow> coord_begin_run env stamps c run ctx = (c', r) \<Longrightarrow>
    sub_step env0 (c, s) (c', s)"
| recovered: "fromisoformat env = fromisoformat env0 \<Longrightarrow> recover_lease_and_publish env stamps c = (c', r) \<Longrightarrow>
    sub_step env0 (c, s) (c', s)"
| advanced: "sub_advance env0 c s = (c', s') \<Longrightarrow> sub_step env0 (c, s) (c', s')"

inductive_cases sub_stepE: "sub_step env0 x y"

definition sub_inv :: "journal_env \<Rightarrow> int \<Rightarrow> coordinator \<times> subscriber \<Rightarrow> bool" where
  "sub_inv env after x \<longleftrightarrow> (case x of (c, s) \<Rightarrow>
     journal_wf env (co_journal c) \<and> queues_stored env c \<and> 0 \<le> after \<and> after \<le> su_cursor s \<and>
     map se_sequence (su_yielded s) = [after + 1..su_cursor s] \<and>
     map se_sequence (su_pending s) = [su_cursor s + 1..su_cursor s + int (length (su_pending s))] \<and>
     (\<forall>e \<in> set (su_yielded s) \<union> set (su_pending s). stored env (co_journal c) e) \<and>
     su_high_water s \<le> j_seq (co_journal c) \<and>
     (case su_phase s of Repair t \<Rightarrow> t \<le> j_seq (co_journal c) | SubFailed _ \<Rightarrow> False | _ \<Rightarrow> True))"

lemma extends_seq:
  assumes "journal_wf env j" and "journal_wf env j'" and "journal_extends j j'"
  shows "j_seq j \<le> j_seq j'"
  using events_length [OF assms(1)] events_length [OF assms(2)] assms(3) by (auto simp: journal_extends_def)

lemma sub_inv_publish:
  assumes "sub_inv env after (c, s)" and "published env c c'"
  shows "sub_inv env after (c', s)"
proof -
  have "j_seq (co_journal c) \<le> j_seq (co_journal c')"
    using assms extends_seq by (auto simp: sub_inv_def published_def)
  moreover have "\<forall>e. stored env (co_journal c) e \<longrightarrow> stored env (co_journal c') e"
    using assms(2) stored_extends by (auto simp: published_def)
  ultimately show ?thesis using assms by (auto simp: sub_inv_def published_def split: sub_phase.splits)
qed

lemma filter_le_upto: "filter (\<lambda>x. x \<le> t) [a..b] = [a..min b t]" for t :: int
  by (rule sorted_distinct_set_unique) (auto intro: sorted_wrt_filter)

lemma fetch_upto_ok:
  assumes wf: "journal_wf env j" and c: "0 \<le> cursor" "cursor < target" "target \<le> j_seq j"
  shows "\<exists>items. fetch_upto env j cursor target = Inr items \<and> items \<noteq> [] \<and>
    map se_sequence items = [cursor + 1..cursor + int (length items)] \<and> (\<forall>e \<in> set items. stored env j e)"
proof -
  from replay_slice [OF wf c(1), of 500] obtain page where page: "replay env j cursor 500 = Inr page"
    "map se_sequence (rp_items page) = [cursor + 1..min (cursor + 500) (j_seq j)]" by auto
  let ?items = "filter (\<lambda>e. se_sequence e \<le> target) (rp_items page)"
  have "map se_sequence ?items = filter (\<lambda>x. x \<le> target) (map se_sequence (rp_items page))"
    by (simp add: filter_map comp_def)
  also have "\<dots> = [cursor + 1..min (cursor + 500) target]" using c(3) by (simp add: page(2) filter_le_upto min_def)
  finally have seqs: "map se_sequence ?items = [cursor + 1..min (cursor + 500) target]" .
  have "length (map se_sequence ?items) = nat (min (cursor + 500) target - cursor)" unfolding seqs by simp
  then have len: "int (length ?items) = min (cursor + 500) target - cursor" using c(2) by simp
  have "\<forall>e \<in> set (rp_items page). stored env j e"
    using page(1) by (auto simp: replay_def Let_def stored_def rows_after_def by_sequence_wf [OF wf]
      dest!: emap_setD in_set_takeD)
  moreover have "?items \<noteq> []" using len c(2) by (metis diff_gt_0_iff_gt length_0_conv less_irrefl min_less_iff_conj
      less_add_same_cancel1 zero_less_numeral of_nat_0)
  ultimately show ?thesis using page(1) seqs len unfolding fetch_upto_def by (intro exI [of _ ?items]) simp
qed

lemma queue_head_stored:
  assumes "queues_stored env c" and "queue_of c q = e # rest"
  shows "stored env (co_journal c) e"
  using assms by (auto simp: queue_of_def queues_stored_def dest!: map_of_SomeD split: option.splits)

lemma pop_queue_frame [simp]: "co_journal (pop_queue q c) = co_journal c"
  by (simp add: pop_queue_def)

lemma in_set_tl: "x \<in> set (tl xs) \<Longrightarrow> x \<in> set xs"
  by (cases xs) auto

lemma pop_queue_stored: "queues_stored env c \<Longrightarrow> queues_stored env (pop_queue q c)"
  by (fastforce simp: queues_stored_def pop_queue_def dest: in_set_tl split: if_splits)

text \<open>A step of the subscriber either yields, or leaves what it has yielded and its cursor.\<close>

lemma yield_inv:
  assumes inv: "sub_inv env after (c, s)" and p: "su_pending s = e # rest"
  shows "sub_inv env after (c, s\<lparr>su_pending := rest, su_cursor := se_sequence e, su_yielded := su_yielded s @ [e]\<rparr>)"
proof -
  have up: "[su_cursor s + 1..su_cursor s + int (length (e # rest))]
      = (su_cursor s + 1) # [su_cursor s + 1 + 1..su_cursor s + 1 + int (length rest)]"
    by (subst upto_rec1) (simp_all add: add.commute add.left_commute)
  have "map se_sequence (e # rest) = [su_cursor s + 1..su_cursor s + int (length (e # rest))]"
    using inv p by (simp add: sub_inv_def)
  then have e: "se_sequence e = su_cursor s + 1"
    and rest: "map se_sequence rest = [su_cursor s + 1 + 1..su_cursor s + 1 + int (length rest)]"
    unfolding up by simp_all
  have "map se_sequence (su_yielded s @ [e]) = [after + 1..su_cursor s + 1]"
    using inv e upto_snoc [of "after + 1" "su_cursor s"] by (auto simp: sub_inv_def)
  then show ?thesis using inv p e rest by (auto simp: sub_inv_def)
qed

lemma fetch_inv:
  assumes inv: "sub_inv env after (c, s)" and "su_pending s = []" and "su_cursor s < target" and "target \<le> j_seq (co_journal c)"
  shows "\<exists>e items. fetch_upto env (co_journal c) (su_cursor s) target = Inr (e # items) \<and>
    sub_inv env after (c, s\<lparr>su_pending := e # items\<rparr>)"
proof -
  have wf: "journal_wf env (co_journal c)" "0 \<le> su_cursor s" using inv by (auto simp: sub_inv_def)
  from fetch_upto_ok [OF this assms(3,4)] obtain items where items:
    "fetch_upto env (co_journal c) (su_cursor s) target = Inr items" "items \<noteq> []"
    "map se_sequence items = [su_cursor s + 1..su_cursor s + int (length items)]"
    "\<forall>e \<in> set items. stored env (co_journal c) e" by blast
  then have "sub_inv env after (c, s\<lparr>su_pending := items\<rparr>)" using inv by (auto simp: sub_inv_def)
  then show ?thesis using items by (cases items) auto
qed

lemma advance_inv:
  assumes inv: "sub_inv env after (c, s)" and a: "sub_advance env c s = (c', s')"
  shows "sub_inv env after (c', s')"
proof (cases "su_pending s")
  case (Cons e rest)
  then show ?thesis using yield_inv [OF inv Cons] a by (auto simp: sub_advance_def)
next
  case Nil
  have live: "sub_inv env after (c, s\<lparr>su_phase := Live\<rparr>)" using inv by (auto simp: sub_inv_def)
  have hw: "su_high_water s \<le> j_seq (co_journal c)" using inv by (simp add: sub_inv_def)
  show ?thesis
  proof (cases "su_phase s")
    case CatchUp
    show ?thesis
    proof (cases "su_cursor s < su_high_water s")
      case True
      from fetch_inv [OF inv Nil True hw] a Nil CatchUp True show ?thesis by (auto simp: sub_advance_def)
    next
      case False
      then show ?thesis using a Nil CatchUp live by (auto simp: sub_advance_def)
    qed
  next
    case (Repair t)
    then have t: "t \<le> j_seq (co_journal c)" using inv by (simp add: sub_inv_def)
    show ?thesis
    proof (cases "su_cursor s < t")
      case True
      from fetch_inv [OF inv Nil True t] a Nil Repair True show ?thesis by (auto simp: sub_advance_def)
    next
      case False
      then show ?thesis using a Nil Repair live by (auto simp: sub_advance_def)
    qed
  next
    case Live
    have seq: "latest_sequence (co_journal c) = j_seq (co_journal c)"
      using inv latest_sequence_wf [of env "co_journal c"] by (simp add: sub_inv_def)
    show ?thesis
    proof (cases "queue_of c (su_queue s)")
      case q: Nil
      then show ?thesis using a Nil Live inv seq by (auto simp: sub_advance_def sub_inv_def Let_def split: if_splits)
    next
      case (Cons e rest)
      have "stored env (co_journal c) e" "queues_stored env (pop_queue (su_queue s) c)"
        using inv queue_head_stored [OF _ Cons] pop_queue_stored by (auto simp: sub_inv_def)
      moreover have "se_sequence e \<le> j_seq (co_journal c)"
        using stored_bound [OF _ \<open>stored env (co_journal c) e\<close>] inv by (simp add: sub_inv_def)
      ultimately show ?thesis using a Nil Live Cons inv
        by (auto simp: sub_advance_def sub_inv_def Let_def split: if_splits)
    qed
  next
    case (SubFailed e)
    then show ?thesis using inv by (simp add: sub_inv_def)
  qed
qed

lemma sub_step_inv:
  assumes "sub_inv env0 after x" and "sub_step env0 x y"
  shows "sub_inv env0 after y"
proof -
  have ok: "published env c c' \<Longrightarrow> fromisoformat env = fromisoformat env0 \<Longrightarrow> published env0 c c'" for env c c'
    by (simp add: published_def queues_stored_def stored_def event_from_row_env [of env env0] journal_wf_env [of env env0])
  have pre: "fromisoformat env = fromisoformat env0 \<Longrightarrow> queues_stored env c = queues_stored env0 c" for env c
    by (simp add: queues_stored_def stored_def event_from_row_env [of env env0])
  show ?thesis using assms(2)
  proof cases
    case (foreign c j' s)
    have "journal_wf env0 (co_journal c)" "queues_stored env0 c" using assms(1) foreign(1) by (simp_all add: sub_inv_def)
    moreover have "journal_extends (co_journal c) j'" using run_extends [OF r_into_rtranclp [of "journal_step env0"]] foreign(3) by blast
    moreover have "journal_wf env0 j'" using journal_lease.inv_step foreign(3) calculation(1) by blast
    ultimately have "published env0 c (c\<lparr>co_journal := j'\<rparr>)"
      using queues_stored_extends [of env0 c j' "co_calls c"] by (simp add: published_def)
    then show ?thesis using sub_inv_publish assms(1) foreign by blast
  next
    case (persisted env stamps c run ev token c' r s)
    have "journal_wf env (co_journal c)" "queues_stored env c"
      using assms(1) persisted(1) pre [OF persisted(3)] journal_wf_env [OF persisted(3)] by (simp_all add: sub_inv_def)
    then show ?thesis using ok [OF persist_published [OF _ _ persisted(4)] persisted(3)] sub_inv_publish assms(1) persisted(1,2) by blast
  next
    case (begun env stamps c run ctx c' r s)
    have "journal_wf env (co_journal c)" "queues_stored env c"
      using assms(1) begun(1) pre [OF begun(3)] journal_wf_env [OF begun(3)] by (simp_all add: sub_inv_def)
    then show ?thesis using ok [OF begin_published [OF _ _ begun(4)] begun(3)] sub_inv_publish assms(1) begun(1,2) by blast
  next
    case (recovered env stamps c c' r s)
    have "journal_wf env (co_journal c)" "queues_stored env c"
      using assms(1) recovered(1) pre [OF recovered(3)] journal_wf_env [OF recovered(3)] by (simp_all add: sub_inv_def)
    then show ?thesis using ok [OF recover_published [OF _ _ recovered(4)] recovered(3)] sub_inv_publish assms(1) recovered(1,2) by blast
  next
    case (advanced c s c' s')
    then show ?thesis using advance_inv assms(1) by blast
  qed
qed

lemma subscribe_inv:
  assumes "journal_wf env (co_journal c)" and "queues_stored env c" and "0 \<le> after"
  shows "sub_inv env after (subscribe c q after)"
  using assms latest_sequence_wf [OF assms(1)] by (auto simp: subscribe_def sub_inv_def queues_stored_def)

text \<open>
  C3: a subscriber sees every event exactly once and in order. However its steps interleave with
  appends of this coordinator and of other processes, and although its queue drops events when it is
  full, what it has yielded after subscribing at \<open>after\<close> is the unbroken sequence of journal events
  \<open>after + 1\<close>, \<open>after + 2\<close>, \dots, and it never fails on a gap.
\<close>

theorem subscriber_gap_free:
  assumes "journal_wf env (co_journal c)" and "queues_stored env c" and "0 \<le> after"
    and "rtranclp (sub_step env) (subscribe c q after) (c', s)"
  shows "map se_sequence (su_yielded s) = [after + 1..su_cursor s] \<and>
    (\<forall>e \<in> set (su_yielded s). stored env (co_journal c') e) \<and> (\<forall>e. su_phase s \<noteq> SubFailed e)"
proof -
  have "sub_inv env after (c', s)" using assms(4)
    by (induction rule: rtranclp_induct) (auto intro: subscribe_inv assms sub_step_inv)
  then show ?thesis by (auto simp: sub_inv_def)
qed


theorem subscriber_gap_free_witness:
  "map se_sequence (su_yielded (snd (subscribe sample_coordinator 1 0)))
     = [0 + 1..su_cursor (snd (subscribe sample_coordinator 1 0))]"
proof -
  have "journal_wf sample_env (co_journal sample_coordinator)" "queues_stored sample_env sample_coordinator"
    using started_wf by (simp_all add: sample_coordinator_def queues_stored_def)
  from subscriber_gap_free [OF this, of 0 1 "fst (subscribe sample_coordinator 1 0)" "snd (subscribe sample_coordinator 1 0)"]
  show ?thesis by simp
qed

section \<open>A subscriber left alone catches up\<close>

definition sub_rank :: "subscriber \<Rightarrow> nat" where
  "sub_rank s = (if su_pending s \<noteq> [] then 0 else case su_phase s of
     CatchUp \<Rightarrow> if su_cursor s < su_high_water s then 1 else 3
   | Repair t \<Rightarrow> if su_cursor s < t then 1 else 3
   | Live \<Rightarrow> 2
   | SubFailed _ \<Rightarrow> 0)"

definition sub_measure :: "(coordinator \<times> subscriber) rel" where
  "sub_measure = inv_image (less_than <*lex*> less_than <*lex*> less_than)
     (\<lambda>(c, s). (nat (j_seq (co_journal c) - su_cursor s), length (queue_of c (su_queue s)), sub_rank s))"

lemma queue_of_pop: "queue_of (pop_queue q c) q = tl (queue_of c q)"
proof -
  have "map_of (map (\<lambda>(k, queue). (k, if k = q then tl queue else queue)) qs) q = map_option tl (map_of qs q)" for qs
    by (induction qs) auto
  then have "map_of (co_subscribers (pop_queue q c)) q = map_option tl (map_of (co_subscribers c) q)"
    by (simp add: pop_queue_def)
  then show ?thesis by (cases "map_of (co_subscribers c) q") (simp_all add: queue_of_def)
qed

lemma advance_measure:
  assumes inv: "sub_inv env after (c, s)" and behind: "su_cursor s < j_seq (co_journal c)"
    and a: "sub_advance env c s = (c', s')"
  shows "((c', s'), (c, s)) \<in> sub_measure" and "co_journal c' = co_journal c"
proof -
  have seq: "latest_sequence (co_journal c) = j_seq (co_journal c)"
    using inv latest_sequence_wf [of env "co_journal c"] by (simp add: sub_inv_def)
  show "co_journal c' = co_journal c"
    using a by (auto simp: sub_advance_def Let_def split: list.splits sub_phase.splits if_splits sum.splits)
  show "((c', s'), (c, s)) \<in> sub_measure"
  proof (cases "su_pending s")
    case (Cons e rest)
    have "map se_sequence (e # rest) = [su_cursor s + 1..su_cursor s + int (length (e # rest))]"
      using inv Cons by (simp add: sub_inv_def)
    then have "se_sequence e = su_cursor s + 1" by (auto simp: upto_rec1)
    then show ?thesis using a Cons behind by (auto simp: sub_advance_def sub_measure_def)
  next
    case Nil
    show ?thesis
    proof (cases "su_phase s")
      case CatchUp
      have "su_high_water s \<le> j_seq (co_journal c)" using inv by (simp add: sub_inv_def)
      then show ?thesis using fetch_inv [OF inv Nil, of "su_high_water s"] a Nil CatchUp
        by (cases "su_cursor s < su_high_water s") (auto simp: sub_advance_def sub_measure_def sub_rank_def)
    next
      case (Repair t)
      then have "t \<le> j_seq (co_journal c)" using inv by (simp add: sub_inv_def)
      then show ?thesis using fetch_inv [OF inv Nil, of t] a Nil Repair
        by (cases "su_cursor s < t") (auto simp: sub_advance_def sub_measure_def sub_rank_def)
    next
      case Live
      then show ?thesis using a Nil behind seq queue_of_pop [of "su_queue s" c]
        by (auto simp: sub_advance_def sub_measure_def sub_rank_def Let_def split: list.splits if_splits)
    next
      case (SubFailed e)
      then show ?thesis using inv by (simp add: sub_inv_def)
    qed
  qed
qed

lemma wf_sub_measure: "wf sub_measure"
  by (auto simp: sub_measure_def)

lemma advance_catches_up:
  assumes "sub_inv env after x"
  shows "\<exists>n c' s'. ((\<lambda>(c, s). sub_advance env c s) ^^ n) x = (c', s') \<and> co_journal c' = co_journal (fst x) \<and>
    sub_inv env after (c', s') \<and> j_seq (co_journal c') \<le> su_cursor s'"
  using assms
proof (induction x rule: wf_induct_rule [OF wf_sub_measure])
  case (1 x)
  obtain c s where x: "x = (c, s)" by fastforce
  obtain c1 s1 where a: "sub_advance env c s = (c1, s1)" by fastforce
  have inv: "sub_inv env after (c, s)" using 1(2) x by simp
  show ?case
  proof (cases "su_cursor s < j_seq (co_journal c)")
    case True
    note step = advance_measure [OF inv True a]
    from 1(1) [of "(c1, s1)"] step(1) advance_inv [OF inv a] obtain n c' s' where
      n: "((\<lambda>(c, s). sub_advance env c s) ^^ n) (c1, s1) = (c', s')" "co_journal c' = co_journal c1"
      "sub_inv env after (c', s')" "j_seq (co_journal c') \<le> su_cursor s'" using x by auto
    then have "((\<lambda>(c, s). sub_advance env c s) ^^ Suc n) x = (c', s')" using a x by (simp add: funpow_swap1)
    then show ?thesis using n step(2) x by (metis fst_conv)
  next
    case False
    then show ?thesis using inv x by (intro exI [of _ 0]) auto
  qed
qed

text \<open>
  C22: a subscriber that keeps running delivers everything. From any state a subscription can
  reach, with no further appends, finitely many steps bring it to the end of the journal, and then it has
  yielded every event after its starting point.
\<close>

theorem subscriber_catches_up:
  assumes "journal_wf env (co_journal c)" and "queues_stored env c" and "0 \<le> after"
    and "rtranclp (sub_step env) (subscribe c q after) (c', s)" and "after \<le> j_seq (co_journal c')"
  shows "\<exists>n c'' s'. ((\<lambda>(c, s). sub_advance env c s) ^^ n) (c', s) = (c'', s') \<and>
    map se_sequence (su_yielded s') = [after + 1..j_seq (co_journal c')]"
proof -
  have "sub_inv env after (c', s)" using assms(4)
    by (induction rule: rtranclp_induct) (auto intro: subscribe_inv assms sub_step_inv)
  from advance_catches_up [OF this] obtain n c'' s' where n: "((\<lambda>(c, s). sub_advance env c s) ^^ n) (c', s) = (c'', s')"
    "co_journal c'' = co_journal c'" and inv: "sub_inv env after (c'', s')" and le: "j_seq (co_journal c') \<le> su_cursor s'"
    by auto
  have y: "map se_sequence (su_yielded s') = [after + 1..su_cursor s']" using inv by (simp add: sub_inv_def)
  have "su_cursor s' \<le> j_seq (co_journal c')"
  proof (rule ccontr)
    assume beyond: "\<not> ?thesis"
    then have "su_cursor s' \<in> set (map se_sequence (su_yielded s'))" unfolding y using assms(5) by simp
    then obtain e where "e \<in> set (su_yielded s')" "se_sequence e = su_cursor s'" by auto
    then show False using inv stored_bound [of env "co_journal c''" e] n(2) beyond by (auto simp: sub_inv_def)
  qed
  then show ?thesis using n(1) y le by fastforce
qed

theorem subscriber_catches_up_witness:
  "\<exists>n c'' s'. ((\<lambda>(c, s). sub_advance sample_env c s) ^^ n) (subscribe sample_coordinator 1 0) = (c'', s') \<and>
     map se_sequence (su_yielded s') = [0 + 1..1]"
proof -
  let ?c = "fst (subscribe sample_coordinator 1 0)" and ?s = "snd (subscribe sample_coordinator 1 0)"
  have a: "journal_wf sample_env (co_journal sample_coordinator)" "queues_stored sample_env sample_coordinator"
    using started_wf by (simp_all add: sample_coordinator_def queues_stored_def)
  have j: "j_seq (co_journal ?c) = 1" by (simp add: subscribe_def sample_coordinator_def started_journal_def)
  from subscriber_catches_up [OF a, of 0 1 ?c ?s] show ?thesis unfolding j by simp
qed

section \<open>Queues stay bounded\<close>

definition queues_ok :: "coordinator \<Rightarrow> bool" where
  "queues_ok c \<longleftrightarrow> 1 \<le> co_queue_size c \<and> (\<forall>(q, queue) \<in> set (co_subscribers c). length queue \<le> co_queue_size c \<and>
     sorted_wrt (<) (map se_sequence queue) \<and> (\<forall>e \<in> set queue. se_sequence e \<le> co_last_broadcast c))"

lemma put_bounded_ok:
  assumes "length queue \<le> n" and "1 \<le> n" and "sorted_wrt (<) (map se_sequence queue)" and "\<forall>x \<in> set queue. se_sequence x < se_sequence e"
  shows "length (put_bounded n e queue) \<le> n" and "sorted_wrt (<) (map se_sequence (put_bounded n e queue))"
    and "\<forall>x \<in> set (put_bounded n e queue). se_sequence x \<le> se_sequence e"
  using assms by (cases queue; auto simp: put_bounded_def sorted_wrt_append less_imp_le)+

lemma broadcast_queues_ok: "queues_ok c \<Longrightarrow> queues_ok (broadcast e c)"
proof (cases "se_sequence e \<le> co_last_broadcast c")
  case False
  assume ok: "queues_ok c"
  have "length (put_bounded (co_queue_size c) e queue) \<le> co_queue_size c \<and>
      sorted_wrt (<) (map se_sequence (put_bounded (co_queue_size c) e queue)) \<and>
      (\<forall>x \<in> set (put_bounded (co_queue_size c) e queue). se_sequence x \<le> se_sequence e)"
    if "(q, queue) \<in> set (co_subscribers c)" for q queue
    using put_bounded_ok [of queue "co_queue_size c" e] ok that False by (fastforce simp: queues_ok_def)
  then show ?thesis using ok False by (auto simp: queues_ok_def broadcast_def)
qed (simp add: broadcast_def)

text \<open>
  A slow subscriber cannot exhaust memory and never sees events out of order. Whatever is
  broadcast, in any order and with repetitions, every queue keeps at most its maximal number of
  events, and they are in strictly increasing order of their sequence numbers.
\<close>

theorem broadcast_bounded_ordered:
  assumes "queues_ok c" and "(q, queue) \<in> set (co_subscribers (fold broadcast events c))"
  shows "length queue \<le> co_queue_size c \<and> sorted_wrt (<) (map se_sequence queue)"
proof -
  have "queues_ok (fold broadcast events c) \<and> co_queue_size (fold broadcast events c) = co_queue_size c"
    using assms(1) by (induction events arbitrary: c) (auto simp: broadcast_queues_ok)
  then show ?thesis using assms(2) by (force simp: queues_ok_def)
qed

theorem broadcast_bounded_ordered_witness:
  "length [finished_event] \<le> (1::nat) \<and> sorted_wrt (<) (map se_sequence [finished_event])"
proof -
  let ?c = "sample_coordinator\<lparr>co_queue_size := 1, co_last_broadcast := 0\<rparr>"
  have "queues_ok ?c" by (simp add: queues_ok_def sample_coordinator_def)
  moreover have "(0, [finished_event]) \<in> set (co_subscribers (fold broadcast [started_event, finished_event] ?c))"
    by (simp add: broadcast_def sample_coordinator_def started_event_def finished_event_def put_bounded_def)
  ultimately show ?thesis using broadcast_bounded_ordered [of ?c 0 "[finished_event]"] by fastforce
qed

section \<open>Recovery leaves no orphan\<close>

lemma approval_rows:
  assumes wf: "journal_wf env j" and run: "is_identifier run"
  shows "\<exists>events. emap (\<lambda>row. event_from_row env row (j_session_id j))
      (filter (\<lambda>row. r_run_id row = run \<and> \<not> list_ex (is_terminal_of run) (j_events j)) (j_events j)) = Inr events \<and>
    recoverable_approval env j (Some run) = Inr (scan_approvals [] None events)"
proof -
  have "set (filter (\<lambda>row. r_run_id row = run \<and> \<not> list_ex (is_terminal_of run) (j_events j)) (j_events j)) \<subseteq> set (j_events j)"
    by auto
  from read_rows [OF wf this] obtain es where es: "emap (\<lambda>row. event_from_row env row (j_session_id j))
      (filter (\<lambda>row. r_run_id row = run \<and> \<not> list_ex (is_terminal_of run) (j_events j)) (j_events j)) = Inr es" by blast
  have "filter (\<lambda>row. r_run_id row = run \<and> \<not> list_ex (is_terminal_of (r_run_id row)) (j_events j)) (j_events j) =
      filter (\<lambda>row. r_run_id row = run \<and> \<not> list_ex (is_terminal_of run) (j_events j)) (j_events j)"
    by (rule filter_cong) auto
  then show ?thesis using es run by (simp add: recoverable_approval_def by_sequence_wf [OF wf])
qed

lemma recoverable_other:
  assumes wf: "journal_wf env j" "journal_wf env j'" and run: "is_identifier run" and s: "j_session_id j' = j_session_id j"
    and ev: "j_events j' = j_events j @ rows" and other: "\<forall>row \<in> set rows. r_run_id row \<noteq> run"
  shows "recoverable_approval env j' (Some run) = recoverable_approval env j (Some run)"
proof -
  have "list_ex (is_terminal_of run) (j_events j') = list_ex (is_terminal_of run) (j_events j)"
    using ev other by (auto simp: list_ex_iff is_terminal_of_def)
  then have "filter (\<lambda>row. r_run_id row = run \<and> \<not> list_ex (is_terminal_of run) (j_events j')) (j_events j') =
      filter (\<lambda>row. r_run_id row = run \<and> \<not> list_ex (is_terminal_of run) (j_events j)) (j_events j)"
    using ev other by (auto simp: filter_empty_conv)
  then show ?thesis using approval_rows [OF wf(1) run] approval_rows [OF wf(2) run] s by auto
qed

lemma persist_interrupted:
  assumes wf: "journal_wf env (co_journal c)" and run: "is_identifier run" and act: "active_run_id (co_journal c) \<noteq> Some run"
    and nt: "\<forall>row \<in> set (j_events (co_journal c)). \<not> is_terminal_of run row" and f: "fresh_stamps env stamps c (Suc k) []"
  shows "\<exists>c' s row. persist env stamps c run interrupted_event None = (c', Inr s) \<and> journal_wf env (co_journal c') \<and>
    j_events (co_journal c') = j_events (co_journal c) @ [row] \<and> is_terminal_of run row \<and> r_status row \<noteq> ''running'' \<and>
    j_lease (co_journal c') = j_lease (co_journal c) \<and> j_session_id (co_journal c') = j_session_id (co_journal c) \<and>
    fresh_stamps env stamps c' k []"
proof -
  let ?j = "co_journal c" and ?uuid = "fst (stamps (co_calls c))" and ?now = "snd (stamps (co_calls c))"
  have now: "is_identifier ?uuid" "?now \<noteq> []" "fromisoformat env ?now = Some True" "?uuid \<notin> r_event_id ` set (j_events ?j)"
    using f by (auto simp: fresh_stamps_def event_ids_def)
  have lease: "assert_run_lease ?j run None None = Inr ()"
    using act by (auto simp: assert_run_lease_def active_run_id_def split: option.splits)
  have st: "''interrupted'' \<in> set STATUSES" "validate_kind_status ''terminal'' ''interrupted'' = Inr ()" "''terminal'' \<in> set KINDS"
    "''interrupted'' \<in> set TERMINAL_STATUSES" by code_simp+
  obtain v where v: "validated_event_input env ?uuid ?now run ''terminal'' ''interrupted'' (PDict interrupted_payload) None None = Inr v"
    using run now fixed_payloads_small(3) st by (auto simp: validated_event_input_def validate_timestamp_def small_payload_def
      simp del: json_bytes.simps strict_json_value.simps ints_printable.simps unique_objects.simps)
  obtain j' e where ins: "insert_event env ?j v = Inr (j', e)"
    using fresh_terminal_insert [OF wf v _ now(4) nt] fixed_payloads_small(3) by (auto simp: small_payload_def)
  note w = insert_event_wf [OF wf ins] and vf = validated_input_fields [OF v]
  have rel: "release_if run j' = j'" using act w(2) by (auto simp: release_if_def active_run_id_def split: option.splits)
  have "terminal_in_transaction env ?j v = Inr (j', e)" using terminal_tx_new [OF wf] nt vf ins by auto
  then have "append_terminal_and_release env ?uuid ?now ?j run ''interrupted'' (PDict interrupted_payload) None None None None
      = Inr (j', e)" using v st lease rel vf by (simp add: append_terminal_and_release_def)
  then have p: "persist env stamps c run interrupted_event None
      = (broadcast e (c\<lparr>co_calls := Suc (co_calls c), co_journal := j'\<rparr>), Inr e)"
    using st by (simp add: persist_def interrupted_event_def terminal_event_def case_prod_unfold Let_def)
  have "fresh_stamps env stamps (broadcast e (c\<lparr>co_calls := Suc (co_calls c), co_journal := j'\<rparr>)) k []"
    by (rule fresh_stamps_next [OF f]) (use w(4) validated_event_id [OF v] in \<open>auto simp: event_ids_def new_row_def\<close>)
  then show ?thesis using p w vf by (auto simp: is_terminal_of_def new_row_def)
qed

lemma interrupt_all_ok:
  assumes "journal_wf env (co_journal c)" and "distinct runs" and "fresh_stamps env stamps c (length runs) []"
    and "\<forall>run \<in> set runs. is_identifier run \<and> active_run_id (co_journal c) \<noteq> Some run \<and>
           (\<forall>row \<in> set (j_events (co_journal c)). \<not> is_terminal_of run row)"
  shows "\<exists>c' out rows. interrupt_all env stamps c rec runs = (c', Inr out) \<and> journal_wf env (co_journal c') \<and>
    j_events (co_journal c') = j_events (co_journal c) @ rows \<and> j_lease (co_journal c') = j_lease (co_journal c) \<and>
    j_session_id (co_journal c') = j_session_id (co_journal c) \<and>
    (\<forall>row \<in> set rows. r_run_id row \<in> set runs \<and> r_status row \<noteq> ''running'') \<and>
    (\<forall>run \<in> set runs. list_ex (is_terminal_of run) (j_events (co_journal c')) \<or>
       (\<exists>d. recoverable_approval env (co_journal c') (Some run) = Inr (Some d)))"
  using assms
proof (induction runs arbitrary: c rec)
  case (Cons run runs)
  note wf = Cons.prems(1)
  have run: "is_identifier run" and act: "active_run_id (co_journal c) \<noteq> Some run"
    and nt: "\<forall>row \<in> set (j_events (co_journal c)). \<not> is_terminal_of run row" using Cons.prems(4) by auto
  have other: "(\<forall>row \<in> set rows. r_run_id row \<noteq> run)"
    if "\<forall>row \<in> set rows. r_run_id row \<in> set runs \<and> r_status row \<noteq> ''running''" for rows
    using that Cons.prems(2) by auto
  obtain out where out: "recoverable_approval env (co_journal c) (Some run) = Inr out" using approval_rows [OF wf run] by blast
  show ?case
  proof (cases out)
    case (Some d)
    have "fresh_stamps env stamps c (length runs) []" using fresh_stamps_le [of env stamps c "length runs" 1] Cons.prems(3) by simp
    from Cons.IH [OF wf _ this, of rec] Cons.prems obtain c' o' rows where
      ih: "interrupt_all env stamps c rec runs = (c', Inr o')" "journal_wf env (co_journal c')"
      "j_events (co_journal c') = j_events (co_journal c) @ rows" "j_lease (co_journal c') = j_lease (co_journal c)"
      "j_session_id (co_journal c') = j_session_id (co_journal c)"
      "\<forall>row \<in> set rows. r_run_id row \<in> set runs \<and> r_status row \<noteq> ''running''"
      "\<forall>run \<in> set runs. list_ex (is_terminal_of run) (j_events (co_journal c')) \<or>
         (\<exists>d. recoverable_approval env (co_journal c') (Some run) = Inr (Some d))" by auto
    have "recoverable_approval env (co_journal c') (Some run) = Inr (Some d)"
      using recoverable_other [OF wf ih(2) run ih(5,3) other [OF ih(6)]] out Some by simp
    then show ?thesis using ih out Some by auto
  next
    case None
    from Cons.prems(3) have "fresh_stamps env stamps c (Suc (length runs)) []" by simp
    from persist_interrupted [OF wf run act nt this] obtain c1 s row where
      p: "persist env stamps c run interrupted_event None = (c1, Inr s)" "journal_wf env (co_journal c1)"
      "j_events (co_journal c1) = j_events (co_journal c) @ [row]" "is_terminal_of run row" "r_status row \<noteq> ''running''"
      "j_lease (co_journal c1) = j_lease (co_journal c)" "j_session_id (co_journal c1) = j_session_id (co_journal c)"
      "fresh_stamps env stamps c1 (length runs) []" by blast
    have pre: "\<forall>r \<in> set runs. is_identifier r \<and> active_run_id (co_journal c1) \<noteq> Some r \<and>
        (\<forall>row \<in> set (j_events (co_journal c1)). \<not> is_terminal_of r row)"
      using Cons.prems(2,4) p(3,4,6) by (auto simp: active_run_id_def is_terminal_of_def)
    from Cons.IH [OF p(2) _ p(8) pre, of "rec @ [run]"] Cons.prems(2) obtain c' o' rows where
      ih: "interrupt_all env stamps c1 (rec @ [run]) runs = (c', Inr o')" "journal_wf env (co_journal c')"
      "j_events (co_journal c') = j_events (co_journal c1) @ rows" "j_lease (co_journal c') = j_lease (co_journal c1)"
      "j_session_id (co_journal c') = j_session_id (co_journal c1)"
      "\<forall>row \<in> set rows. r_run_id row \<in> set runs \<and> r_status row \<noteq> ''running''"
      "\<forall>run \<in> set runs. list_ex (is_terminal_of run) (j_events (co_journal c')) \<or>
         (\<exists>d. recoverable_approval env (co_journal c') (Some run) = Inr (Some d))" by auto
    have "r_run_id row = run" using p(4) by (simp add: is_terminal_of_def)
    then show ?thesis using ih p None out
      by (intro exI [of _ c'] exI [of _ o'] exI [of _ "row # rows"]) (auto simp: list_ex_iff)
  qed
qed auto

lemma is_run_started_total:
  assumes "event_from_row env row s = Inr e"
  shows "is_run_started row = Inr (is_run_started row = Inr True)"
  using assms by (auto simp: event_from_row_def load_payload_def is_run_started_def split: json_text.splits pyval.splits if_splits)

lemma row_identifiers: "event_from_row env row s = Inr e \<Longrightarrow> is_identifier (r_run_id row)"
  by (auto simp: event_from_row_def as_corruption_def validate_identifier_def split: sum.splits if_splits)

lemma unfinished_ok:
  assumes wf: "journal_wf env j"
  shows "\<exists>ids. unfinished_run_ids j = Inr ids \<and> distinct ids \<and>
    (\<forall>run. run \<in> set ids \<longleftrightarrow> (\<exists>row \<in> set (j_events j). r_run_id row = run \<and> is_run_started row = Inr True) \<and>
       \<not> list_ex (is_terminal_of run) (j_events j) \<and> active_run_id j \<noteq> Some run)"
proof -
  let ?marked = "map (\<lambda>row. (row, is_run_started row = Inr True)) (j_events j)"
  have "emap (\<lambda>row. ebind (is_run_started row) (\<lambda>b. Inr (row, b))) (j_events j) = Inr ?marked"
  proof (rule emap_total)
    fix row assume "row \<in> set (j_events j)"
    then obtain e where "event_from_row env row (j_session_id j) = Inr e" using wf by (auto simp: journal_wf_def)
    from is_run_started_total [OF this]
    show "ebind (is_run_started row) (\<lambda>b. Inr (row, b)) = Inr (row, is_run_started row = Inr True)"
      by (metis ebind_simps(2))
  qed
  then have "unfinished_run_ids j = Inr (filter (\<lambda>run. list_ex (\<lambda>(row, b). r_run_id row = run \<and> b) ?marked
        \<and> \<not> list_ex (is_terminal_of run) (j_events j) \<and> active_run_id j \<noteq> Some run)
      (fromkeys (map (\<lambda>(row, b). r_run_id row) ?marked)))"
    by (simp add: unfinished_run_ids_def by_sequence_wf [OF wf])
  then show ?thesis by (auto simp: list_ex_iff)
qed

text \<open>
  C25: after recovery at start-up no run is left hanging. Once the lease has been dealt with, the
  loop over the unfinished runs always completes, and afterwards every run that is still
  unfinished and not leased waits for an approval that the journal can hand out again.
\<close>

theorem recovery_leaves_no_orphan:
  assumes "journal_wf env (co_journal c)" and "queues_stored env c"
    and "recover_lease_and_publish env stamps c = (c1, Inr recovered)"
    and "unfinished_run_ids (co_journal c1) = Inr runs" and "fresh_stamps env stamps c1 (length runs) []"
  shows "\<exists>c' out ids. recover_interrupted_runs env stamps c = (c', Inr out) \<and>
    unfinished_run_ids (co_journal c') = Inr ids \<and>
    (\<forall>run \<in> set ids. \<exists>d. recoverable_approval env (co_journal c') (Some run) = Inr (Some d))"
proof -
  have wf1: "journal_wf env (co_journal c1)" using recover_published [OF assms(1-3)] by (simp add: published_def)
  from unfinished_ok [OF wf1] assms(4) have runs: "distinct runs"
    "\<And>run. run \<in> set runs \<longleftrightarrow> (\<exists>row \<in> set (j_events (co_journal c1)). r_run_id row = run \<and> is_run_started row = Inr True) \<and>
       \<not> list_ex (is_terminal_of run) (j_events (co_journal c1)) \<and> active_run_id (co_journal c1) \<noteq> Some run" by auto
  have rid: "is_identifier (r_run_id row)" if "row \<in> set (j_events (co_journal c1))" for row
    using wf1 that row_identifiers by (auto simp: journal_wf_def)
  have pre: "\<forall>run \<in> set runs. is_identifier run \<and> active_run_id (co_journal c1) \<noteq> Some run \<and>
      (\<forall>row \<in> set (j_events (co_journal c1)). \<not> is_terminal_of run row)"
    using runs(2) rid by (auto simp: list_ex_iff)
  from interrupt_all_ok [OF wf1 runs(1) assms(5) pre, of recovered] obtain c' out rows where
    loop: "interrupt_all env stamps c1 recovered runs = (c', Inr out)" "journal_wf env (co_journal c')"
    "j_events (co_journal c') = j_events (co_journal c1) @ rows" "j_lease (co_journal c') = j_lease (co_journal c1)"
    "\<forall>row \<in> set rows. r_run_id row \<in> set runs \<and> r_status row \<noteq> ''running''"
    "\<forall>run \<in> set runs. list_ex (is_terminal_of run) (j_events (co_journal c')) \<or>
       (\<exists>d. recoverable_approval env (co_journal c') (Some run) = Inr (Some d))" by blast
  from unfinished_ok [OF loop(2)] obtain ids where ids: "unfinished_run_ids (co_journal c') = Inr ids"
    "\<And>run. run \<in> set ids \<longleftrightarrow> (\<exists>row \<in> set (j_events (co_journal c')). r_run_id row = run \<and> is_run_started row = Inr True) \<and>
       \<not> list_ex (is_terminal_of run) (j_events (co_journal c')) \<and> active_run_id (co_journal c') \<noteq> Some run" by blast
  have "\<forall>row \<in> set rows. is_run_started row \<noteq> Inr True" using loop(5) by (auto simp: is_run_started_def)
  then have "run \<in> set ids \<Longrightarrow> run \<in> set runs" for run
    using ids(2) [of run] runs(2) [of run] loop(3,4) by (auto simp: active_run_id_def)
  then have "\<forall>run \<in> set ids. \<exists>d. recoverable_approval env (co_journal c') (Some run) = Inr (Some d)"
    using loop(6) ids(2) by blast
  moreover have "recover_interrupted_runs env stamps c = (c', Inr out)"
    using assms(3,4) loop(1) by (simp add: recover_interrupted_runs_def)
  ultimately show ?thesis using ids(1) by blast
qed

theorem recovery_leaves_no_orphan_witness:
  "\<exists>c' out ids. recover_interrupted_runs sample_env sample_stamps sample_coordinator = (c', Inr out) \<and>
     unfinished_run_ids (co_journal c') = Inr ids"
proof -
  let ?c1 = "fst (recover_lease_and_publish sample_env sample_stamps sample_coordinator)"
  have a: "journal_wf sample_env (co_journal sample_coordinator)" "queues_stored sample_env sample_coordinator"
    using started_wf by (simp_all add: sample_coordinator_def queues_stored_def)
  have b: "recover_lease_and_publish sample_env sample_stamps sample_coordinator = (?c1, Inr [''run1''])"
    "unfinished_run_ids (co_journal ?c1) = Inr []" "fresh_stamps sample_env sample_stamps ?c1 (length ([] :: string list)) []" by code_simp+
  show ?thesis using recovery_leaves_no_orphan [OF a b] by blast
qed

end
