(* ===== verification/Posix_Path.thy ===== *)
theory Posix_Path
  imports Sage_Prelude
begin

text \<open>
  Relative POSIX paths as \<open>pathlib.PurePosixPath\<close> sees them, shared by the policy of the
  maintenance loop and by the synchronisation of knowledge sources.
\<close>

text \<open>\<open>PurePosixPath\<close>: the parts are the components other than the empty one and \<open>.\<close>.\<close>

fun split_slash :: "string \<Rightarrow> string list" where
  "split_slash [] = [[]]"
| "split_slash (c # cs) =
     (if c = CHR ''/'' then [] # split_slash cs
      else (case split_slash cs of [] \<Rightarrow> [[c]] | w # ws \<Rightarrow> (c # w) # ws))"

definition path_parts :: "string \<Rightarrow> string list" where
  "path_parts raw = filter (\<lambda>p. p \<noteq> [] \<and> p \<noteq> ''.'') (split_slash raw)"

fun join_slash :: "string list \<Rightarrow> string" where
  "join_slash [] = []"
| "join_slash [p] = p"
| "join_slash (p # ps) = p @ ''/'' @ join_slash ps"

text \<open>\<open>as_posix\<close> of a relative path; \<open>name\<close> is its last component.\<close>

definition as_posix :: "string \<Rightarrow> string" where
  "as_posix raw = (if path_parts raw = [] then ''.'' else join_slash (path_parts raw))"

definition path_name :: "string \<Rightarrow> string" where
  "path_name p = (if path_parts p = [] then [] else last (path_parts p))"

definition rstrip_slash :: "string \<Rightarrow> string" where
  "rstrip_slash s = rev (dropWhile (\<lambda>c. c = CHR ''/'') (rev s))"

text \<open>A path that starts with a slash is absolute.\<close>

definition is_absolute :: "string \<Rightarrow> bool" where
  "is_absolute raw = starts_with raw ''/''"

end
