(* ===== verification/Loop_Policy.thy ===== *)
theory Loop_Policy
  imports Complex_Main Posix_Path
begin

text \<open>
  The deterministic policy that decides which change of the maintenance loop may be applied, from
  \<open>core/loop_harness/policy.py\<close> and the contracts of \<open>core/loop_harness/models.py\<close>: the
  candidate a model proposes and the diff that was really made are checked against path, size and
  overlap rules and get a tier.

  The reasons, Chinese sentences in the source, are constructors here. A float is the decimal number
  of its \<open>repr\<close>. \<open>str.casefold\<close> is a table of Unicode and an argument.
\<close>

section \<open>Contracts\<close>

datatype worker_verdict = NO_OP | FIX | FRONTEND_CANDIDATE | REPORT | WBLOCKED

datatype loop_tier = TierA | TierB | TierC

datatype reviewer_verdict = RPASS | REQUEST_CHANGES | RBLOCK

record worker_result =
  wr_verdict :: worker_verdict
  wr_summary :: string
  wr_evidence :: "string list"
  wr_reproduction :: "string list"
  wr_changed_files :: "string list"
  wr_tests :: "string list"
  wr_risk_reasons :: "string list"
  wr_suggested_tier :: loop_tier
  wr_confidence :: rat

record diff_snapshot =
  ds_changed_files :: "string list"
  ds_additions :: int
  ds_deletions :: int
  ds_binary_files :: "string list"
  ds_symlink_files :: "string list"
  ds_behavior_changed :: bool
  ds_deleted_files :: "string list"

definition changed_lines :: "diff_snapshot \<Rightarrow> int" where
  "changed_lines s = ds_additions s + ds_deletions s"

datatype policy_reason =
    NotFixable | LowConfidence | ReportOnly | NoPaths | CandidateUnauthorized | OutOfScanScope | DirtyOverlap
  | EmptyDiff | Undeclared | DiffUnauthorized | DiffDirtyOverlap | BinaryFiles | SymlinkFiles | DeletedFiles
  | BehaviorChange | OverBudget

record policy_decision =
  pd_allowed :: bool
  pd_tier :: loop_tier
  pd_reasons :: "policy_reason list"

section \<open>Paths\<close>

definition invalid_path :: "string \<Rightarrow> bool" where
  "invalid_path raw = (starts_with raw ''/'' \<or> ''..'' \<in> set (path_parts raw) \<or>
     list_ex (\<lambda>c. (of_char c :: int) \<in> {92, 0, 10, 13}) raw)"

definition normalized_path :: "string \<Rightarrow> string" where
  "normalized_path raw = (if invalid_path raw then ''<invalid>/'' @ raw else as_posix raw)"

definition normalized_paths :: "string list \<Rightarrow> string list" where
  "normalized_paths paths = fromkeys (map normalized_path paths)"

definition PROTECTED_PREFIXES :: "string list" where
  "PROTECTED_PREFIXES = [''.cc-connect/'', ''.codex/'', ''.github/'', ''core/'', ''db/'', ''docs/loop-harness/'',
     ''scripts/'', ''frontend/src/api/'', ''frontend/src/router/'', ''frontend/src/stores/'', ''frontend/src/types/'']"

definition PROTECTED_FILES :: "string list" where
  "PROTECTED_FILES = [''AGENTS.md'', ''CLAUDE.md'', ''frontend/package.json'', ''frontend/package-lock.json'',
     ''frontend/pnpm-lock.yaml'', ''frontend/yarn.lock'']"

definition GLOBAL_DIRTY_PREFIXES :: "string list" where
  "GLOBAL_DIRTY_PREFIXES = [''.github/'', ''frontend/src/api/'', ''frontend/src/router/'', ''frontend/src/stores/'',
     ''frontend/src/types/'']"

definition GLOBAL_DIRTY_FILES :: "string list" where
  "GLOBAL_DIRTY_FILES = [''frontend/package.json'', ''frontend/package-lock.json'', ''frontend/pnpm-lock.yaml'',
     ''frontend/yarn.lock'', ''frontend/vite.config.ts'', ''frontend/tsconfig.json'']"

definition is_production_path :: "string \<Rightarrow> bool" where
  "is_production_path p = (ends_with p ''.vue'' \<and>
     (starts_with p ''frontend/src/components/'' \<or> starts_with p ''frontend/src/views/''))"

definition is_test_path :: "string \<Rightarrow> bool" where
  "is_test_path p = (starts_with p ''frontend/src/'' \<and> ends_with p ''.test.ts'')"

definition is_frontend_path :: "string \<Rightarrow> bool" where
  "is_frontend_path p = (is_production_path p \<or> is_test_path p)"

definition is_protected :: "string \<Rightarrow> bool" where
  "is_protected p = (p \<in> set PROTECTED_FILES \<or> list_ex (starts_with p) PROTECTED_PREFIXES)"

definition in_scan_scope :: "string \<Rightarrow> string list \<Rightarrow> bool" where
  "in_scan_scope p scope = list_ex (\<lambda>root. p = root \<or> starts_with p (rstrip_slash root @ ''/'')) scope"

definition is_global_dirty :: "string \<Rightarrow> bool" where
  "is_global_dirty p = (p \<in> set GLOBAL_DIRTY_FILES \<or> list_ex (starts_with p) GLOBAL_DIRTY_PREFIXES)"

definition companion_key :: "(string \<Rightarrow> string) \<Rightarrow> string \<Rightarrow> string" where
  "companion_key casefold p =
     (let name = path_name p in
      case List.find (ends_with name) [''.test.ts'', ''.spec.ts'', ''.vue'', ''.ts''] of
        Some suffix \<Rightarrow> casefold (take (length name - length suffix) name)
      | None \<Rightarrow> casefold name)"

definition overlaps_dirty :: "(string \<Rightarrow> string) \<Rightarrow> string list \<Rightarrow> string list \<Rightarrow> bool" where
  "overlaps_dirty casefold paths dirty_paths =
     (let dirty = normalized_paths dirty_paths in
      (paths \<noteq> [] \<and> list_ex is_global_dirty dirty) \<or>
      list_ex (\<lambda>p. list_ex (\<lambda>h. p = h \<or> companion_key casefold p = companion_key casefold h) dirty) paths)"

section \<open>Decisions\<close>

definition MIN_CONFIDENCE :: rat where
  "MIN_CONFIDENCE = 8 / 10"

definition reason_if :: "bool \<Rightarrow> policy_reason \<Rightarrow> policy_reason list" where
  "reason_if b r = (if b then [r] else [])"

definition classify_candidate ::
  "(string \<Rightarrow> string) \<Rightarrow> worker_result \<Rightarrow> string list \<Rightarrow> string list \<Rightarrow> policy_decision" where
  "classify_candidate casefold candidate dirty_paths scan_scope =
     (let paths = normalized_paths (wr_changed_files candidate);
        reasons = reason_if (wr_verdict candidate \<notin> {FIX, FRONTEND_CANDIDATE}) NotFixable
          @ reason_if (wr_confidence candidate < MIN_CONFIDENCE) LowConfidence
          @ reason_if (wr_suggested_tier candidate = TierC) ReportOnly
          @ reason_if (paths = []) NoPaths
          @ reason_if (list_ex (\<lambda>p. \<not> is_frontend_path p \<or> is_protected p) paths) CandidateUnauthorized
          @ reason_if (scan_scope \<noteq> [] \<and> list_ex (\<lambda>p. \<not> in_scan_scope p scan_scope) paths) OutOfScanScope
          @ reason_if (overlaps_dirty casefold paths dirty_paths) DirtyOverlap in
      if reasons \<noteq> [] then \<lparr>pd_allowed = False, pd_tier = TierC, pd_reasons = reasons\<rparr>
      else \<lparr>pd_allowed = True, pd_tier = wr_suggested_tier candidate, pd_reasons = []\<rparr>)"

definition diff_reasons ::
  "(string \<Rightarrow> string) \<Rightarrow> worker_result \<Rightarrow> diff_snapshot \<Rightarrow> string list \<Rightarrow> policy_reason list" where
  "diff_reasons casefold candidate snapshot dirty_paths =
     (let declared = normalized_paths (wr_changed_files candidate);
        actual = normalized_paths (ds_changed_files snapshot) in
      reason_if (actual = []) EmptyDiff
      @ reason_if (list_ex (\<lambda>p. p \<notin> set declared) actual) Undeclared
      @ reason_if (list_ex (\<lambda>p. \<not> is_frontend_path p \<or> is_protected p) actual) DiffUnauthorized
      @ reason_if (overlaps_dirty casefold actual dirty_paths) DiffDirtyOverlap
      @ reason_if (ds_binary_files snapshot \<noteq> []) BinaryFiles
      @ reason_if (ds_symlink_files snapshot \<noteq> []) SymlinkFiles
      @ reason_if (ds_deleted_files snapshot \<noteq> []) DeletedFiles)"

definition evaluate_diff ::
  "(string \<Rightarrow> string) \<Rightarrow> worker_result \<Rightarrow> diff_snapshot \<Rightarrow> string list \<Rightarrow> policy_decision" where
  "evaluate_diff casefold candidate snapshot dirty_paths =
     (let candidate_decision = classify_candidate casefold candidate dirty_paths [] in
      if \<not> pd_allowed candidate_decision then candidate_decision
      else let reasons = diff_reasons casefold candidate snapshot dirty_paths in
      if reasons \<noteq> [] then \<lparr>pd_allowed = False, pd_tier = TierC, pd_reasons = reasons\<rparr>
      else let actual = normalized_paths (ds_changed_files snapshot);
        production = filter is_production_path actual; tests = filter is_test_path actual;
        behavior_is_covered = (\<not> ds_behavior_changed snapshot \<or> tests \<noteq> []) in
      if production \<noteq> [] \<and> behavior_is_covered \<and> length production \<le> 2 \<and> length tests \<le> 1
         \<and> changed_lines snapshot \<le> 80
      then \<lparr>pd_allowed = True, pd_tier = TierA, pd_reasons = []\<rparr>
      else if length actual \<le> 3 \<and> changed_lines snapshot \<le> 150
      then \<lparr>pd_allowed = True, pd_tier = TierB,
            pd_reasons = reason_if (ds_behavior_changed snapshot) BehaviorChange\<rparr>
      else \<lparr>pd_allowed = False, pd_tier = TierC, pd_reasons = [OverBudget]\<rparr>)"

section \<open>What an allowed change guarantees\<close>

lemma reason_if_Nil [simp]: "reason_if b r = [] \<longleftrightarrow> \<not> b"
  by (simp add: reason_if_def)

lemma starts_with_append [simp]: "starts_with (a @ b) a"
  by (simp add: starts_with_def)

lemma invalid_not_frontend: "\<not> is_frontend_path (''<invalid>/'' @ raw)"
  by (simp add: is_frontend_path_def is_production_path_def is_test_path_def starts_with_def)

lemma frontend_path_valid: "is_frontend_path (normalized_path raw) \<Longrightarrow> \<not> invalid_path raw"
  using invalid_not_frontend [of raw] by (auto simp: normalized_path_def)

lemma set_normalized_paths [simp]: "set (normalized_paths ps) = normalized_path ` set ps"
  by (simp add: normalized_paths_def)

lemma normalized_paths_Nil [simp]: "normalized_paths ps = [] \<longleftrightarrow> ps = []"
  by (metis set_normalized_paths image_is_empty set_empty)

lemma classify_allowed:
  assumes "pd_allowed (classify_candidate casefold w dirty scope)"
  shows "wr_verdict w \<in> {FIX, FRONTEND_CANDIDATE}" and "MIN_CONFIDENCE \<le> wr_confidence w"
    and "wr_suggested_tier w \<noteq> TierC" and "wr_changed_files w \<noteq> []"
    and "\<forall>p \<in> set (normalized_paths (wr_changed_files w)). is_frontend_path p \<and> \<not> is_protected p"
    and "\<not> overlaps_dirty casefold (normalized_paths (wr_changed_files w)) dirty"
  using assms by (auto simp: classify_candidate_def Let_def list_ex_iff not_less split: if_splits)

lemma evaluate_allowed:
  assumes "pd_allowed (evaluate_diff casefold w s dirty)"
  shows "pd_allowed (classify_candidate casefold w dirty [])" and "diff_reasons casefold w s dirty = []"
  using assms by (auto simp: evaluate_diff_def Let_def split: if_splits)

text \<open>
  C37: a change the policy allows stays inside its mandate. Every file of the diff has a relative
  path without parent references, backslashes or control characters, is a component, view or test
  of the frontend, is not protected and was declared by the candidate; nothing the user has
  modified is touched, and no binary file, symbolic link or deletion is involved.
\<close>

theorem allowed_diff_in_mandate:
  assumes "pd_allowed (evaluate_diff casefold w s dirty)"
  shows "(\<forall>raw \<in> set (ds_changed_files s). \<not> invalid_path raw \<and> is_frontend_path (as_posix raw) \<and>
      \<not> is_protected (as_posix raw) \<and> as_posix raw \<in> set (normalized_paths (wr_changed_files w))) \<and>
    ds_changed_files s \<noteq> [] \<and> \<not> overlaps_dirty casefold (normalized_paths (ds_changed_files s)) dirty \<and>
    ds_binary_files s = [] \<and> ds_symlink_files s = [] \<and> ds_deleted_files s = [] \<and>
    MIN_CONFIDENCE \<le> wr_confidence w"
proof -
  note d = evaluate_allowed [OF assms]
  have paths: "\<forall>p \<in> set (normalized_paths (ds_changed_files s)). is_frontend_path p \<and> \<not> is_protected p \<and>
      p \<in> set (normalized_paths (wr_changed_files w))"
    using d(2) by (auto simp: diff_reasons_def Let_def list_ex_iff)
  have raw: "\<not> invalid_path raw \<and> normalized_path raw = as_posix raw" if "raw \<in> set (ds_changed_files s)" for raw
  proof -
    have "is_frontend_path (normalized_path raw)" using paths that by simp
    then have "\<not> invalid_path raw" by (rule frontend_path_valid)
    then show ?thesis by (simp add: normalized_path_def)
  qed
  have "\<forall>raw \<in> set (ds_changed_files s). \<not> invalid_path raw \<and> is_frontend_path (as_posix raw) \<and>
      \<not> is_protected (as_posix raw) \<and> as_posix raw \<in> set (normalized_paths (wr_changed_files w))"
    using paths raw by (metis image_eqI set_normalized_paths)
  then show ?thesis using d(2) classify_allowed(2) [OF d(1)] by (auto simp: diff_reasons_def Let_def)
qed

definition sample_candidate :: worker_result where
  "sample_candidate = \<lparr>wr_verdict = FIX, wr_summary = ''typo'', wr_evidence = [], wr_reproduction = [],
     wr_changed_files = [''frontend/src/views/A.vue''], wr_tests = [], wr_risk_reasons = [],
     wr_suggested_tier = TierA, wr_confidence = 9 / 10\<rparr>"

definition sample_diff :: diff_snapshot where
  "sample_diff = \<lparr>ds_changed_files = [''frontend/src/views//A.vue''], ds_additions = 3, ds_deletions = 1,
     ds_binary_files = [], ds_symlink_files = [], ds_behavior_changed = False, ds_deleted_files = []\<rparr>"

lemma sample_diff_allowed:
  "evaluate_diff id sample_candidate sample_diff [] = \<lparr>pd_allowed = True, pd_tier = TierA, pd_reasons = []\<rparr>"
  by code_simp

theorem allowed_diff_in_mandate_witness:
  "\<not> invalid_path ''frontend/src/views//A.vue'' \<and> is_frontend_path (as_posix ''frontend/src/views//A.vue'')"
  using allowed_diff_in_mandate [of id sample_candidate sample_diff "[]"]
  by (simp add: sample_diff_allowed) (simp add: sample_diff_def)

lemma length_le_cover:
  "\<forall>p \<in> set ps. is_frontend_path p \<Longrightarrow>
   length ps \<le> length (filter is_production_path ps) + length (filter is_test_path ps)"
  by (induction ps) (auto simp: is_frontend_path_def)

text \<open>
  The tier of an allowed change is honest. Tier A, which is merged without a human, means at
  least one and at most two components or views, at most one test, at most 80 changed lines, and a
  test whenever behaviour changed; tier B means at most three files and 150 lines; and tier C is
  never allowed.
\<close>

theorem allowed_tier_budget:
  assumes "pd_allowed (evaluate_diff casefold w s dirty)"
  shows "pd_tier (evaluate_diff casefold w s dirty) \<noteq> TierC \<and>
    (pd_tier (evaluate_diff casefold w s dirty) = TierA \<longrightarrow>
       (\<exists>p \<in> set (normalized_paths (ds_changed_files s)). is_production_path p) \<and>
       length (filter is_production_path (normalized_paths (ds_changed_files s))) \<le> 2 \<and>
       length (filter is_test_path (normalized_paths (ds_changed_files s))) \<le> 1 \<and> changed_lines s \<le> 80 \<and>
       (ds_behavior_changed s \<longrightarrow> (\<exists>p \<in> set (normalized_paths (ds_changed_files s)). is_test_path p))) \<and>
    length (normalized_paths (ds_changed_files s)) \<le> 3 \<and> changed_lines s \<le> 150"
proof -
  note d = evaluate_allowed [OF assms]
  let ?a = "normalized_paths (ds_changed_files s)"
  have "\<forall>p \<in> set ?a. is_frontend_path p"
    using d(2) by (auto simp: diff_reasons_def Let_def list_ex_iff)
  then have "length ?a \<le> length (filter is_production_path ?a) + length (filter is_test_path ?a)"
    by (rule length_le_cover)
  then show ?thesis using assms d
    by (auto simp: evaluate_diff_def Let_def filter_empty_conv split: if_splits)
qed


theorem allowed_tier_budget_witness: "pd_tier (evaluate_diff id sample_candidate sample_diff []) \<noteq> TierC"
  using allowed_tier_budget [of id sample_candidate sample_diff "[]"] by (simp add: sample_diff_allowed)

end
