(* ===== verification/Loop_State.thy ===== *)
theory Loop_State
  imports Loop_Policy Json_Payload Interfaces "HOL-Library.Option_ord"
begin

text \<open>
  The canonical state of the maintenance loop, from \<open>core/loop_harness/state.py\<close>: leases with
  fencing tokens, runs and their outcomes, candidates and findings, pull requests with their review
  and merge gates, artifacts, digests and settings. Every operation is one
  \<open>BEGIN IMMEDIATE\<close> transaction: it returns the new database, or an error and no change.

  A point in time is the number of microseconds since the epoch. The ISO texts that the code compares
  are all in UTC, where the order of the texts is the order of the times. An operation reads the clock
  once (\<open>now\<close>). SHA-256 over a JSON document, \<open>str.casefold\<close> and the calendar are arguments, in
  \<open>loop_env\<close>. JSON columns hold the values they encode; the digest text holds its parts.
\<close>

section \<open>Tables\<close>

record loop_lease =
  le_resource :: string
  le_run_id :: string
  le_owner_id :: string
  le_fencing_token :: int
  le_expires_at :: int

record run_row =
  rn_run_id :: string
  rn_base_sha :: "string option"
  rn_policy_version :: string
  rn_state :: string
  rn_error_code :: "string option"
  rn_summary :: string
  rn_started_at :: int
  rn_finished_at :: "int option"
  rn_mode :: string
  rn_target_branch :: "string option"

record cursor_row =
  cu_module :: string
  cu_base_sha :: string
  cu_last_scanned_at :: int

record diff_doc =
  dd_changed_files :: "string list"
  dd_additions :: int
  dd_deletions :: int
  dd_behavior_changed :: bool
  dd_validation :: "(string \<times> int \<times> rat) list"

record candidate_row =
  ca_fingerprint :: string
  ca_verdict :: worker_verdict
  ca_summary :: string
  ca_evidence :: "string list"
  ca_first_seen_at :: int
  ca_last_seen_at :: int
  ca_occurrence_count :: int
  ca_mode :: string
  ca_target_branch :: "string option"
  ca_base_sha :: "string option"
  ca_lifecycle_state :: string
  ca_suggested_tier :: loop_tier
  ca_changed_files :: "string list"
  ca_tests :: "string list"
  ca_risk_reasons :: "string list"
  ca_confidence :: rat
  ca_diff :: "diff_doc option"

record finding_row =
  fi_finding_id :: string
  fi_fingerprint :: string
  fi_status :: string
  fi_summary :: string
  fi_evidence :: "string list"
  fi_created_at :: int
  fi_updated_at :: int

record pr_row =
  pr_number :: int
  pr_run_id :: string
  pr_branch :: string
  pr_url :: string
  pr_base_sha :: string
  pr_head_sha :: string
  pr_tier :: loop_tier
  pr_state :: string
  pr_review_verdict :: "reviewer_verdict option"
  pr_review_summary :: "string option"
  pr_created_day :: string
  pr_created_at :: int
  pr_merged_sha :: "string option"
  pr_updated_at :: int

record artifact_row =
  ar_artifact_id :: string
  ar_run_id :: string
  ar_path :: string
  ar_sha256 :: string
  ar_size_bytes :: int
  ar_created_at :: int
  ar_expires_at :: int

text \<open>The parts of the digest text; the status is the mode, or \<open>None\<close> when the loop is paused.\<close>

record digest_payload =
  dp_date :: string
  dp_runs :: int
  dp_no_op :: int
  dp_skipped :: int
  dp_blocked :: int
  dp_findings :: int
  dp_status :: "string option"

record digest_row =
  dg_date :: string
  dg_payload :: digest_payload
  dg_emitted_at :: int

record loop_db =
  db_fences :: "(string \<times> int) list"
  db_leases :: "loop_lease list"
  db_runs :: "run_row list"
  db_cursors :: "cursor_row list"
  db_candidates :: "candidate_row list"
  db_findings :: "finding_row list"
  db_prs :: "pr_row list"
  db_artifacts :: "artifact_row list"
  db_digests :: "digest_row list"
  db_settings :: "(string \<times> string) list"

record loop_env =
  sha256_json :: "string \<Rightarrow> string list \<Rightarrow> string list \<Rightarrow> string option \<Rightarrow> string"
  casefold :: "string \<Rightarrow> string"
  utc_day :: "int \<Rightarrow> string"
  shanghai_day :: "int \<Rightarrow> string"

definition SUPPORTED_MODES :: "string list" where
  "SUPPORTED_MODES = [''DRY_RUN'', ''SHADOW_WRITE'', ''PR_CANARY'', ''AUTO_MERGE_TIER_A'', ''PAUSED_MANUAL'', ''PAUSED_ERROR'']"

definition OPEN_PR_STATES :: "string list" where
  "OPEN_PR_STATES = [''DRAFT'', ''REVIEWING'', ''DRAFT_REVIEWED'', ''CHANGES_REQUESTED'']"

section \<open>Helpers\<close>

definition bounded :: "string \<Rightarrow> nat \<Rightarrow> string" where
  "bounded v limit = take limit (join_words (split_words v))"

definition fingerprint :: "loop_env \<Rightarrow> string \<Rightarrow> string list \<Rightarrow> string list \<Rightarrow> string option \<Rightarrow> string" where
  "fingerprint env summary evidence changed_files target_branch =
     sha256_json env (casefold env (bounded summary 500)) evidence changed_files target_branch"

definition is_git_sha :: "string \<Rightarrow> bool" where
  "is_git_sha s = (length s = 40 \<and> list_all (\<lambda>c. c \<in> set ''0123456789abcdef'') s)"

definition upper_char :: "char \<Rightarrow> char" where
  "upper_char c = (let n = of_char c :: int in if 97 \<le> n \<and> n \<le> 122 then char_of (n - 32) else c)"

definition get_setting :: "loop_db \<Rightarrow> string \<Rightarrow> string \<Rightarrow> string" where
  "get_setting db key default_value = (case map_of (db_settings db) key of Some v \<Rightarrow> v | None \<Rightarrow> default_value)"

definition set_setting :: "string \<Rightarrow> string \<Rightarrow> loop_db \<Rightarrow> loop_db" where
  "set_setting key v db = db\<lparr>db_settings := AList.update key v (db_settings db)\<rparr>"

text \<open>\<open>int(text)\<close> for an optional sign and decimal digits.\<close>

definition digits_value :: "string \<Rightarrow> int" where
  "digits_value s = foldl (\<lambda>n c. 10 * n + (of_char c - 48)) 0 s"

definition parse_int :: "string \<Rightarrow> int result" where
  "parse_int text =
     (let t = strip text; negative = (t \<noteq> [] \<and> hd t = CHR ''-'');
        ds = (if t \<noteq> [] \<and> hd t \<in> {CHR ''-'', CHR ''+''} then tl t else t) in
      if all_digits ds then Inr (if negative then - digits_value ds else digits_value ds)
      else Inl (ValueError ''invalid literal for int()''))"

section \<open>Leases\<close>

definition empty_db :: loop_db where
  "empty_db = \<lparr>db_fences = [], db_leases = [], db_runs = [], db_cursors = [], db_candidates = [], db_findings = [],
     db_prs = [], db_artifacts = [], db_digests = [], db_settings = []\<rparr>"

definition initialize :: "loop_db \<Rightarrow> loop_db" where
  "initialize db =
     (let put = (\<lambda>k v d. if map_of (db_settings d) k = None then set_setting k v d else d) in
      put ''mode'' ''DRY_RUN'' (put ''enabled'' ''0'' db))"

definition lease_matches :: "loop_lease \<Rightarrow> int \<Rightarrow> loop_lease \<Rightarrow> bool" where
  "lease_matches lease now row = (le_resource row = le_resource lease \<and> le_run_id row = le_run_id lease
     \<and> le_owner_id row = le_owner_id lease \<and> le_fencing_token row = le_fencing_token lease \<and> now < le_expires_at row)"

definition assert_lease :: "loop_db \<Rightarrow> int \<Rightarrow> loop_lease \<Rightarrow> unit result" where
  "assert_lease db now lease = require (list_ex (lease_matches lease now) (db_leases db)) (LeaseLost (le_run_id lease))"

definition acquire_lease ::
  "int \<Rightarrow> loop_db \<Rightarrow> string \<Rightarrow> string \<Rightarrow> string \<Rightarrow> int \<Rightarrow> (loop_db \<times> loop_lease) result" where
  "acquire_lease now db resource run_id owner_id ttl_seconds =
     ebind (require (1 \<le> ttl_seconds) (ValueError ''lease ttl must be positive'')) (\<lambda>_.
     ebind (case fetchone (\<lambda>row. le_resource row = resource) (db_leases db) of
          Some row \<Rightarrow> require (le_expires_at row \<le> now) (LeaseBusy (le_run_id row))
        | None \<Rightarrow> Inr ()) (\<lambda>_.
     let leases = delete_where (\<lambda>row. le_resource row = resource) (db_leases db);
       fences = (case map_of (db_fences db) resource of Some _ \<Rightarrow> db_fences db | None \<Rightarrow> db_fences db @ [(resource, 1)]) in
     (case map_of fences resource of
        None \<Rightarrow> Inl (DatabaseError ''missing fence state'')
      | Some token \<Rightarrow>
          let lease = \<lparr>le_resource = resource, le_run_id = run_id, le_owner_id = owner_id, le_fencing_token = token,
                le_expires_at = now + ttl_seconds * 1000000\<rparr> in
          Inr (db\<lparr>db_leases := leases @ [lease], db_fences := AList.update resource (token + 1) fences\<rparr>, lease))))"

definition same_lease :: "loop_lease \<Rightarrow> loop_lease \<Rightarrow> bool" where
  "same_lease lease row = (le_resource row = le_resource lease \<and> le_run_id row = le_run_id lease
     \<and> le_owner_id row = le_owner_id lease \<and> le_fencing_token row = le_fencing_token lease)"

definition drop_lease :: "loop_lease \<Rightarrow> loop_db \<Rightarrow> loop_db" where
  "drop_lease lease db = db\<lparr>db_leases := delete_where (same_lease lease) (db_leases db)\<rparr>"

definition release_lease :: "int \<Rightarrow> loop_db \<Rightarrow> loop_lease \<Rightarrow> loop_db result" where
  "release_lease now db lease = ebind (assert_lease db now lease) (\<lambda>_. Inr (drop_lease lease db))"

section \<open>Runs\<close>

definition begin_loop_run ::
  "int \<Rightarrow> loop_db \<Rightarrow> loop_lease \<Rightarrow> string \<Rightarrow> string \<Rightarrow> string option \<Rightarrow> loop_db result" where
  "begin_loop_run now db lease policy_version mode target_branch =
     ebind (assert_lease db now lease) (\<lambda>_.
     ebind (require (\<not> list_ex (\<lambda>r. rn_run_id r = le_run_id lease) (db_runs db)) IntegrityError) (\<lambda>_.
     Inr (db\<lparr>db_runs := db_runs db @ [\<lparr>rn_run_id = le_run_id lease, rn_base_sha = None, rn_policy_version = policy_version,
       rn_state = ''RUNNING'', rn_error_code = None, rn_summary = [], rn_started_at = now, rn_finished_at = None,
       rn_mode = mode, rn_target_branch = target_branch\<rparr>]\<rparr>)))"

definition set_run_base_sha :: "int \<Rightarrow> loop_db \<Rightarrow> loop_lease \<Rightarrow> string \<Rightarrow> loop_db result" where
  "set_run_base_sha now db lease sha =
     ebind (require (is_git_sha sha) (ValueError ''base SHA must be a full lowercase Git SHA'')) (\<lambda>_.
     ebind (assert_lease db now lease) (\<lambda>_.
     Inr (db\<lparr>db_runs := update_where (\<lambda>r. rn_run_id r = le_run_id lease) (\<lambda>r. r\<lparr>rn_base_sha := Some sha\<rparr>) (db_runs db)\<rparr>)))"

definition register_outcome :: "loop_db \<Rightarrow> string option \<Rightarrow> (loop_db \<times> int \<times> bool) result" where
  "register_outcome db error_code = (case error_code of
     None \<Rightarrow> Inr (set_setting ''consecutive_error_count'' ''0'' (set_setting ''consecutive_error_code'' [] db), 0, False)
   | Some code \<Rightarrow>
       let previous_code = get_setting db ''consecutive_error_code'' [] in
       ebind (parse_int (get_setting db ''consecutive_error_count'' ''0'')) (\<lambda>previous_count.
       let count = (if previous_code = code then previous_count + 1 else 1);
         db1 = set_setting ''consecutive_error_count'' (show_int count) (set_setting ''consecutive_error_code'' code db);
         paused = (3 \<le> count) in
       Inr (if paused then set_setting ''mode'' ''PAUSED_ERROR'' (set_setting ''enabled'' ''0'' db1) else db1, count, paused)))"

definition terminalize ::
  "int \<Rightarrow> loop_db \<Rightarrow> loop_lease \<Rightarrow> string \<Rightarrow> string \<Rightarrow> string option \<Rightarrow> (loop_db \<times> int \<times> bool) result" where
  "terminalize now db lease state summary error_code =
     ebind (assert_lease db now lease) (\<lambda>_.
     let running = (\<lambda>r. rn_run_id r = le_run_id lease \<and> rn_state r = ''RUNNING'');
       db1 = db\<lparr>db_runs := update_where running (\<lambda>r. r\<lparr>rn_state := state, rn_error_code := error_code,
          rn_summary := bounded summary 1000, rn_finished_at := Some now\<rparr>) (db_runs db)\<rparr> in
     ebind (require (rowcount running (db_runs db) = 1) (LeaseLost (le_run_id lease))) (\<lambda>_.
     ebind (register_outcome db1 (if state = ''BLOCKED'' then error_code else None)) (\<lambda>(db2, count, paused).
     Inr (drop_lease lease db2, count, paused))))"

section \<open>Candidates, findings and artifacts\<close>

definition new_candidate ::
  "int \<Rightarrow> string \<Rightarrow> worker_result \<Rightarrow> string \<Rightarrow> string option \<Rightarrow> string option \<Rightarrow> candidate_row" where
  "new_candidate now fp w mode target_branch base_sha =
     \<lparr>ca_fingerprint = fp, ca_verdict = wr_verdict w, ca_summary = bounded (wr_summary w) 500, ca_evidence = wr_evidence w,
      ca_first_seen_at = now, ca_last_seen_at = now, ca_occurrence_count = 1, ca_mode = mode,
      ca_target_branch = target_branch, ca_base_sha = base_sha, ca_lifecycle_state = ''DISCOVERED'',
      ca_suggested_tier = wr_suggested_tier w, ca_changed_files = wr_changed_files w, ca_tests = wr_tests w,
      ca_risk_reasons = wr_risk_reasons w, ca_confidence = wr_confidence w, ca_diff = None\<rparr>"

definition upsert_candidate :: "candidate_row \<Rightarrow> candidate_row list \<Rightarrow> candidate_row list" where
  "upsert_candidate row rows =
     (if list_ex (\<lambda>r. ca_fingerprint r = ca_fingerprint row) rows
      then update_where (\<lambda>r. ca_fingerprint r = ca_fingerprint row)
        (\<lambda>r. row\<lparr>ca_first_seen_at := ca_first_seen_at r, ca_occurrence_count := ca_occurrence_count r + 1\<rparr>) rows
      else rows @ [row])"

definition finding_id_of :: "loop_env \<Rightarrow> int \<Rightarrow> string \<Rightarrow> string" where
  "finding_id_of env now fp = ''LH-'' @ utc_day env now @ ''-'' @ map upper_char (take 6 fp)"

definition upsert_finding :: "finding_row \<Rightarrow> finding_row list \<Rightarrow> finding_row list result" where
  "upsert_finding row rows =
     (if list_ex (\<lambda>r. fi_fingerprint r = fi_fingerprint row) rows
      then Inr (update_where (\<lambda>r. fi_fingerprint r = fi_fingerprint row) (\<lambda>r. r\<lparr>fi_updated_at := fi_updated_at row\<rparr>) rows)
      else if list_ex (\<lambda>r. fi_finding_id r = fi_finding_id row) rows then Inl IntegrityError
      else Inr (rows @ [row]))"

definition record_worker_result ::
  "loop_env \<Rightarrow> int \<Rightarrow> loop_db \<Rightarrow> loop_lease \<Rightarrow> worker_result \<Rightarrow> string \<Rightarrow> string option \<Rightarrow> string option \<Rightarrow>
   (loop_db \<times> string option) result" where
  "record_worker_result env now db lease w mode target_branch base_sha =
     (let fp = fingerprint env (wr_summary w) (wr_evidence w) (wr_changed_files w) target_branch in
     ebind (assert_lease db now lease) (\<lambda>_.
     let db1 = db\<lparr>db_candidates := upsert_candidate (new_candidate now fp w mode target_branch base_sha) (db_candidates db)\<rparr> in
     if wr_verdict w \<noteq> REPORT \<and> \<not> (wr_verdict w = FIX \<and> mode = ''DRY_RUN'') then Inr (db1, None)
     else
       let fid = finding_id_of env now fp in
       ebind (upsert_finding \<lparr>fi_finding_id = fid, fi_fingerprint = fp, fi_status = ''OPEN'',
           fi_summary = bounded (wr_summary w) 500, fi_evidence = wr_evidence w, fi_created_at = now, fi_updated_at = now\<rparr>
           (db_findings db1)) (\<lambda>rows.
       Inr (db1\<lparr>db_findings := rows\<rparr>,
            Some (case fetchone (\<lambda>r. fi_fingerprint r = fp) rows of Some r \<Rightarrow> fi_finding_id r | None \<Rightarrow> fid)))))"

definition record_shadow_result ::
  "loop_env \<Rightarrow> int \<Rightarrow> loop_db \<Rightarrow> loop_lease \<Rightarrow> worker_result \<Rightarrow> diff_snapshot \<Rightarrow> (string \<times> int \<times> rat) list \<Rightarrow>
   string \<times> string \<times> int \<Rightarrow> loop_tier \<Rightarrow> string option \<Rightarrow> loop_db result" where
  "record_shadow_result env now db lease w snapshot steps artifact tier target_branch =
     (let fp = fingerprint env (wr_summary w) (wr_evidence w) (wr_changed_files w) target_branch;
        doc = \<lparr>dd_changed_files = ds_changed_files snapshot, dd_additions = ds_additions snapshot,
          dd_deletions = ds_deletions snapshot, dd_behavior_changed = ds_behavior_changed snapshot, dd_validation = steps\<rparr>;
        (path, sha, size_bytes) = artifact in
     ebind (assert_lease db now lease) (\<lambda>_.
     let db1 = db\<lparr>db_candidates := update_where (\<lambda>r. ca_fingerprint r = fp)
           (\<lambda>r. r\<lparr>ca_lifecycle_state := ''SHADOW_VALIDATED'', ca_suggested_tier := tier, ca_diff := Some doc, ca_last_seen_at := now\<rparr>)
           (db_candidates db)\<rparr> in
     ebind (require (rowcount (\<lambda>r. ca_fingerprint r = fp) (db_candidates db) = 1)
       (DatabaseError ''shadow candidate was not recorded'')) (\<lambda>_.
     ebind (require (0 \<le> size_bytes \<and> \<not> list_ex (\<lambda>a. ar_artifact_id a = ''artifact-'' @ le_run_id lease \<or>
       ar_run_id a = le_run_id lease) (db_artifacts db)) IntegrityError) (\<lambda>_.
     Inr (db1\<lparr>db_artifacts := db_artifacts db1 @ [\<lparr>ar_artifact_id = ''artifact-'' @ le_run_id lease, ar_run_id = le_run_id lease,
       ar_path = path, ar_sha256 = sha, ar_size_bytes = size_bytes, ar_created_at = now,
       ar_expires_at = now + 7 * 86400 * 1000000\<rparr>]\<rparr>)))))"

definition expired_artifacts :: "int \<Rightarrow> loop_db \<Rightarrow> (string \<times> string) list" where
  "expired_artifacts now db = map (\<lambda>a. (ar_artifact_id a, ar_path a))
     (sort_key ar_expires_at (filter (\<lambda>a. ar_expires_at a < now) (db_artifacts db)))"

definition delete_artifact_record :: "int \<Rightarrow> loop_db \<Rightarrow> loop_lease \<Rightarrow> string \<Rightarrow> loop_db result" where
  "delete_artifact_record now db lease artifact_id = ebind (assert_lease db now lease) (\<lambda>_.
     Inr (db\<lparr>db_artifacts := delete_where (\<lambda>a. ar_artifact_id a = artifact_id) (db_artifacts db)\<rparr>))"

section \<open>Pull requests\<close>

definition require_pr_capacity :: "loop_env \<Rightarrow> int \<Rightarrow> loop_db \<Rightarrow> loop_lease \<Rightarrow> string result" where
  "require_pr_capacity env now db lease =
     (let created_day = shanghai_day env now in
      ebind (assert_lease db now lease) (\<lambda>_.
      ebind (require (rowcount (\<lambda>p. pr_state p \<in> set OPEN_PR_STATES) (db_prs db) = 0)
        (LeaseBusy ''an open Loop PR already exists'')) (\<lambda>_.
      ebind (require (rowcount (\<lambda>p. pr_created_day p = created_day) (db_prs db) = 0)
        (LeaseBusy ''daily Loop PR quota is exhausted'')) (\<lambda>_.
      Inr created_day))))"

definition record_pull_request ::
  "int \<Rightarrow> loop_db \<Rightarrow> loop_lease \<Rightarrow> int \<Rightarrow> string \<Rightarrow> string \<Rightarrow> string \<Rightarrow> string \<Rightarrow> loop_tier \<Rightarrow> string \<Rightarrow> loop_db result" where
  "record_pull_request now db lease number url branch head_sha base_sha tier created_day =
     ebind (assert_lease db now lease) (\<lambda>_.
     ebind (case fetchone (\<lambda>p. pr_branch p = branch) (db_prs db) of
         Some existing \<Rightarrow> require (pr_number existing = number \<and> pr_head_sha existing = head_sha)
           (DatabaseError ''PR branch idempotency conflict'')
       | None \<Rightarrow> Inr ()) (\<lambda>_.
     if list_ex (\<lambda>p. pr_number p = number) (db_prs db)
     then Inr (db\<lparr>db_prs := update_where (\<lambda>p. pr_number p = number)
       (\<lambda>p. p\<lparr>pr_url := url, pr_updated_at := now\<rparr>) (db_prs db)\<rparr>)
     else Inr (db\<lparr>db_prs := db_prs db @ [\<lparr>pr_number = number, pr_run_id = le_run_id lease, pr_branch = branch, pr_url = url,
       pr_base_sha = base_sha, pr_head_sha = head_sha, pr_tier = tier, pr_state = ''DRAFT'', pr_review_verdict = None,
       pr_review_summary = None, pr_created_day = created_day, pr_created_at = now, pr_merged_sha = None,
       pr_updated_at = now\<rparr>]\<rparr>)))"

fun review_state :: "reviewer_verdict \<Rightarrow> string" where
  "review_state RPASS = ''DRAFT_REVIEWED''"
| "review_state REQUEST_CHANGES = ''CHANGES_REQUESTED''"
| "review_state RBLOCK = ''CHANGES_REQUESTED''"

definition record_review_result ::
  "int \<Rightarrow> loop_db \<Rightarrow> loop_lease \<Rightarrow> int \<Rightarrow> string \<Rightarrow> reviewer_verdict \<Rightarrow> string \<Rightarrow> loop_db result" where
  "record_review_result now db lease number head_sha verdict summary =
     (let target = (\<lambda>p. pr_number p = number \<and> pr_head_sha p = head_sha) in
      ebind (assert_lease db now lease) (\<lambda>_.
      ebind (require (rowcount target (db_prs db) = 1) (DatabaseError ''PR review head does not match durable state'')) (\<lambda>_.
      Inr (db\<lparr>db_prs := update_where target (\<lambda>p. p\<lparr>pr_state := review_state verdict, pr_review_verdict := Some verdict,
        pr_review_summary := Some (bounded summary 1000), pr_updated_at := now\<rparr>) (db_prs db)\<rparr>))))"

definition record_merge_result ::
  "int \<Rightarrow> loop_db \<Rightarrow> loop_lease \<Rightarrow> int \<Rightarrow> string \<Rightarrow> string \<Rightarrow> loop_db result" where
  "record_merge_result now db lease number head_sha merged_sha =
     (let target = (\<lambda>p. pr_number p = number \<and> pr_head_sha p = head_sha \<and> pr_tier p = TierA \<and> pr_review_verdict p = Some RPASS) in
      ebind (require (is_git_sha merged_sha) (ValueError ''merge SHA must be a full lowercase Git SHA'')) (\<lambda>_.
      ebind (assert_lease db now lease) (\<lambda>_.
      ebind (require (rowcount target (db_prs db) = 1) (DatabaseError ''merged PR does not satisfy durable Tier A gates'')) (\<lambda>_.
      Inr (db\<lparr>db_prs := update_where target (\<lambda>p. p\<lparr>pr_state := ''MERGED'', pr_merged_sha := Some merged_sha,
        pr_updated_at := now\<rparr>) (db_prs db)\<rparr>)))))"

section \<open>Settings, scanning and housekeeping\<close>

definition set_enabled :: "loop_db \<Rightarrow> bool \<Rightarrow> string \<Rightarrow> loop_db result" where
  "set_enabled db enabled mode =
     ebind (require (mode \<in> set SUPPORTED_MODES) (ValueError ''unsupported Loop mode'')) (\<lambda>_.
     ebind (require (\<not> (enabled \<and> starts_with mode ''PAUSED_'')) (ValueError ''enabled Loop cannot use a paused mode'')) (\<lambda>_.
     let db1 = set_setting ''mode'' mode (set_setting ''enabled'' (if enabled then ''1'' else ''0'') db) in
     Inr (if enabled then set_setting ''consecutive_error_count'' ''0'' (set_setting ''consecutive_error_code'' [] db1) else db1)))"

definition is_enabled :: "loop_db \<Rightarrow> bool" where
  "is_enabled db = (get_setting db ''enabled'' ''0'' = ''1'')"

definition loop_mode :: "loop_db \<Rightarrow> string" where
  "loop_mode db = get_setting db ''mode'' ''DRY_RUN''"

text \<open>\<open>min(scopes, key=\<dots>)\<close>: the first scope whose module was scanned least recently; a module
  never scanned comes before every other.\<close>

definition last_scan :: "loop_db \<Rightarrow> string list \<Rightarrow> int option" where
  "last_scan db scope = map_option cu_last_scanned_at (fetchone (\<lambda>c. cu_module c = hd scope) (db_cursors db))"

fun first_min :: "('a \<Rightarrow> 'b::linorder) \<Rightarrow> 'a \<Rightarrow> 'a list \<Rightarrow> 'a" where
  "first_min key best [] = best"
| "first_min key best (x # xs) = first_min key (if key x < key best then x else best) xs"

definition choose_scan_scope :: "loop_db \<Rightarrow> string list list \<Rightarrow> string list result" where
  "choose_scan_scope db scopes = (case scopes of
     [] \<Rightarrow> Inl (ValueError ''scan scopes must not be empty'')
   | s # rest \<Rightarrow>
       if list_ex (\<lambda>scope. scope = []) scopes then Inl (ValueError ''scan scopes must not be empty'')
       else Inr (first_min (last_scan db) s rest))"

definition record_scan_scope :: "int \<Rightarrow> loop_db \<Rightarrow> loop_lease \<Rightarrow> string list \<Rightarrow> string \<Rightarrow> loop_db result" where
  "record_scan_scope now db lease scope base_sha =
     ebind (require (scope \<noteq> []) (ValueError ''scan scope must not be empty'')) (\<lambda>_.
     ebind (assert_lease db now lease) (\<lambda>_.
     let row = \<lparr>cu_module = hd scope, cu_base_sha = base_sha, cu_last_scanned_at = now\<rparr> in
     Inr (db\<lparr>db_cursors := (if list_ex (\<lambda>c. cu_module c = hd scope) (db_cursors db)
        then update_where (\<lambda>c. cu_module c = hd scope) (\<lambda>_. row) (db_cursors db) else db_cursors db @ [row])\<rparr>)))"

definition count_state :: "string \<Rightarrow> run_row list \<Rightarrow> int" where
  "count_state state rows = int (rowcount (\<lambda>r. rn_state r = state) rows)"

definition digest :: "int \<Rightarrow> loop_db \<Rightarrow> string \<Rightarrow> int \<Rightarrow> int \<Rightarrow> bool \<Rightarrow> loop_db \<times> digest_payload option" where
  "digest now db digest_date start_at end_at force =
     (if list_ex (\<lambda>d. dg_date d = digest_date) (db_digests db) \<and> \<not> force then (db, None)
      else let rows = filter (\<lambda>r. start_at \<le> rn_started_at r \<and> rn_started_at r < end_at) (db_runs db);
        payload = \<lparr>dp_date = drop 5 digest_date, dp_runs = int (length rows), dp_no_op = count_state ''NO_OP'' rows,
          dp_skipped = count_state ''SKIPPED'' rows, dp_blocked = count_state ''BLOCKED'' rows,
          dp_findings = int (rowcount (\<lambda>f. start_at \<le> fi_created_at f \<and> fi_created_at f < end_at) (db_findings db)),
          dp_status = (if is_enabled db then Some (loop_mode db) else None)\<rparr>;
        row = \<lparr>dg_date = digest_date, dg_payload = payload, dg_emitted_at = now\<rparr> in
      (db\<lparr>db_digests := (if list_ex (\<lambda>d. dg_date d = digest_date) (db_digests db)
          then update_where (\<lambda>d. dg_date d = digest_date) (\<lambda>_. row) (db_digests db) else db_digests db @ [row])\<rparr>, Some payload))"

definition cleanup :: "int \<Rightarrow> loop_db \<Rightarrow> loop_db \<times> int \<times> int \<times> int" where
  "cleanup reference db =
     (let cutoff = reference - 90 * 86400 * 1000000;
        open_fps = map fi_fingerprint (filter (\<lambda>f. fi_status f = ''OPEN'') (db_findings db));
        old_candidate = (\<lambda>c. ca_last_seen_at c < cutoff \<and> ca_fingerprint c \<notin> set open_fps);
        old_run = (\<lambda>r. case rn_finished_at r of None \<Rightarrow> False | Some t \<Rightarrow> t < cutoff);
        old_digest = (\<lambda>d. dg_emitted_at d < cutoff) in
      (db\<lparr>db_candidates := delete_where old_candidate (db_candidates db), db_runs := delete_where old_run (db_runs db),
          db_digests := delete_where old_digest (db_digests db)\<rparr>,
       int (rowcount old_candidate (db_candidates db)), int (rowcount old_run (db_runs db)),
       int (rowcount old_digest (db_digests db))))"

section \<open>Histories\<close>

text \<open>Every operation that writes, with the arguments its caller chooses.\<close>

datatype loop_op =
    LAcquire string string string int
  | LRelease loop_lease
  | LBegin loop_lease string string "string option"
  | LBaseSha loop_lease string
  | LTerminalize loop_lease string string "string option"
  | LWorker loop_lease worker_result string "string option" "string option"
  | LShadow loop_lease worker_result diff_snapshot "(string \<times> int \<times> rat) list" "string \<times> string \<times> int" loop_tier "string option"
  | LPullRequest loop_lease int string string string string loop_tier string
  | LReview loop_lease int string reviewer_verdict string
  | LMerge loop_lease int string string
  | LScan loop_lease "string list" string
  | LDeleteArtifact loop_lease string
  | LSetEnabled bool string
  | LDigest string int int bool
  | LCleanup int

fun loop_exec :: "loop_env \<Rightarrow> int \<Rightarrow> loop_db \<Rightarrow> loop_op \<Rightarrow> loop_db result" where
  "loop_exec env now db (LAcquire resource run owner ttl) =
     ebind (acquire_lease now db resource run owner ttl) (\<lambda>r. Inr (fst r))"
| "loop_exec env now db (LRelease lease) = release_lease now db lease"
| "loop_exec env now db (LBegin lease version mode branch) = begin_loop_run now db lease version mode branch"
| "loop_exec env now db (LBaseSha lease sha) = set_run_base_sha now db lease sha"
| "loop_exec env now db (LTerminalize lease state summary code) =
     ebind (terminalize now db lease state summary code) (\<lambda>r. Inr (fst r))"
| "loop_exec env now db (LWorker lease w mode branch sha) =
     ebind (record_worker_result env now db lease w mode branch sha) (\<lambda>r. Inr (fst r))"
| "loop_exec env now db (LShadow lease w s steps artifact tier branch) =
     record_shadow_result env now db lease w s steps artifact tier branch"
| "loop_exec env now db (LPullRequest lease n url branch head base tier day) =
     record_pull_request now db lease n url branch head base tier day"
| "loop_exec env now db (LReview lease n head verdict summary) = record_review_result now db lease n head verdict summary"
| "loop_exec env now db (LMerge lease n head sha) = record_merge_result now db lease n head sha"
| "loop_exec env now db (LScan lease scope sha) = record_scan_scope now db lease scope sha"
| "loop_exec env now db (LDeleteArtifact lease aid) = delete_artifact_record now db lease aid"
| "loop_exec env now db (LSetEnabled b mode) = set_enabled db b mode"
| "loop_exec env now db (LDigest date a b force) = Inr (fst (digest now db date a b force))"
| "loop_exec env now db (LCleanup reference) = Inr (fst (cleanup reference db))"

inductive loop_step :: "loop_env \<Rightarrow> loop_db \<Rightarrow> loop_db \<Rightarrow> bool" for env where
  step: "loop_exec env now db op = Inr db' \<Longrightarrow> loop_step env db db'"

inductive_cases loop_stepE: "loop_step env db db'"

text \<open>The lease that an operation presents.\<close>

fun lease_of :: "loop_op \<Rightarrow> loop_lease option" where
  "lease_of (LRelease lease) = Some lease"
| "lease_of (LBegin lease _ _ _) = Some lease"
| "lease_of (LBaseSha lease _) = Some lease"
| "lease_of (LTerminalize lease _ _ _) = Some lease"
| "lease_of (LWorker lease _ _ _ _) = Some lease"
| "lease_of (LShadow lease _ _ _ _ _ _) = Some lease"
| "lease_of (LPullRequest lease _ _ _ _ _ _ _) = Some lease"
| "lease_of (LReview lease _ _ _ _) = Some lease"
| "lease_of (LMerge lease _ _ _) = Some lease"
| "lease_of (LScan lease _ _) = Some lease"
| "lease_of (LDeleteArtifact lease _) = Some lease"
| "lease_of _ = None"

lemma guarded_op:
  assumes "lease_of op = Some lease" and "loop_exec env now db op = Inr db'"
  shows "assert_lease db now lease = Inr ()"
  using assms
  by (cases op) (auto simp: release_lease_def begin_loop_run_def set_run_base_sha_def terminalize_def record_worker_result_def
    record_shadow_result_def record_pull_request_def record_review_result_def record_merge_result_def record_scan_scope_def
    delete_artifact_record_def Let_def split: prod.splits)

section \<open>Fencing\<close>

definition loop_wf :: "loop_db \<Rightarrow> bool" where
  "loop_wf db \<longleftrightarrow> distinct (map fst (db_fences db)) \<and> distinct (map le_resource (db_leases db)) \<and>
     (\<forall>l \<in> set (db_leases db). \<exists>n. map_of (db_fences db) (le_resource l) = Some n \<and> le_fencing_token l < n)"

definition next_fence :: "string \<Rightarrow> loop_db \<Rightarrow> int" where
  "next_fence resource db = (case map_of (db_fences db) resource of Some n \<Rightarrow> n | None \<Rightarrow> 1)"

definition lease_holder :: "string \<Rightarrow> loop_db \<Rightarrow> int option" where
  "lease_holder resource db = map_option le_fencing_token (fetchone (\<lambda>l. le_resource l = resource) (db_leases db))"

lemma set_setting_frame [simp]:
  "db_fences (set_setting k v db) = db_fences db" "db_leases (set_setting k v db) = db_leases db"
  "db_runs (set_setting k v db) = db_runs db" "db_prs (set_setting k v db) = db_prs db"
  by (simp_all add: set_setting_def)

lemma register_outcome_frame:
  assumes "register_outcome db code = Inr (db', n, p)"
  shows "db_fences db' = db_fences db \<and> db_leases db' = db_leases db \<and> db_runs db' = db_runs db \<and> db_prs db' = db_prs db"
  using assms by (auto simp: register_outcome_def Let_def split: option.splits)

text \<open>Only the acquisition of a lease touches the fences; the others leave the leases or drop one.\<close>

lemma exec_leases:
  assumes "loop_exec env now db op = Inr db'"
  shows "(\<exists>r run owner ttl. op = LAcquire r run owner ttl) \<or>
    db_fences db' = db_fences db \<and> (db_leases db' = db_leases db \<or> (\<exists>l. db_leases db' = delete_where (same_lease l) (db_leases db)))"
  using assms
  by (cases op) (auto simp: release_lease_def begin_loop_run_def set_run_base_sha_def terminalize_def record_worker_result_def
    record_shadow_result_def record_pull_request_def record_review_result_def record_merge_result_def record_scan_scope_def
    delete_artifact_record_def set_enabled_def digest_def cleanup_def drop_lease_def Let_def
    dest!: register_outcome_frame split: prod.splits if_splits option.splits)

lemma acquire_Inr:
  assumes "acquire_lease now db resource run owner ttl = Inr (db', lease)"
  shows "le_resource lease = resource" and "le_fencing_token lease = next_fence resource db" and "le_run_id lease = run"
    and "le_owner_id lease = owner" and "le_expires_at lease = now + ttl * 1000000" and "1 \<le> ttl"
    and "db_leases db' = delete_where (\<lambda>row. le_resource row = resource) (db_leases db) @ [lease]"
    and "map_of (db_fences db') = (map_of (db_fences db))(resource \<mapsto> next_fence resource db + 1)"
    and "distinct (map fst (db_fences db)) \<Longrightarrow> distinct (map fst (db_fences db'))"
    and "\<And>row. fetchone (\<lambda>row. le_resource row = resource) (db_leases db) = Some row \<Longrightarrow> le_expires_at row \<le> now"
proof -
  let ?f = "case map_of (db_fences db) resource of Some _ \<Rightarrow> db_fences db | None \<Rightarrow> db_fences db @ [(resource, 1)]"
  have f: "map_of ?f resource = Some (next_fence resource db)"
    by (auto simp: next_fence_def map_add_def split: option.splits)
  have m: "(map_of ?f)(resource \<mapsto> v) = (map_of (db_fences db))(resource \<mapsto> v)" for v
    by (auto simp: map_add_def split: option.splits)
  have d: "distinct (map fst (db_fences db)) \<Longrightarrow> distinct (map fst ?f)"
    by (auto simp: map_of_eq_None_iff split: option.splits)
  have db': "db' = db\<lparr>db_leases := delete_where (\<lambda>row. le_resource row = resource) (db_leases db) @ [lease],
      db_fences := AList.update resource (next_fence resource db + 1) ?f\<rparr>"
    and l: "lease = \<lparr>le_resource = resource, le_run_id = run, le_owner_id = owner, le_fencing_token = next_fence resource db,
      le_expires_at = now + ttl * 1000000\<rparr>" and ttl: "1 \<le> ttl"
    using assms f by (auto simp: acquire_lease_def Let_def split del: option.split)
  show "le_resource lease = resource" "le_fencing_token lease = next_fence resource db" "le_run_id lease = run"
    "le_owner_id lease = owner" "le_expires_at lease = now + ttl * 1000000" "1 \<le> ttl" using l ttl by simp_all
  show "db_leases db' = delete_where (\<lambda>row. le_resource row = resource) (db_leases db) @ [lease]" using db' by simp
  show "map_of (db_fences db') = (map_of (db_fences db))(resource \<mapsto> next_fence resource db + 1)"
    using db' m by (simp add: AList.update_conv')
  show "distinct (map fst (db_fences db')) " if "distinct (map fst (db_fences db))"
    using db' d [OF that] by (simp add: distinct_update)
  show "le_expires_at row \<le> now" if "fetchone (\<lambda>row. le_resource row = resource) (db_leases db) = Some row" for row
    using assms that by (auto simp: acquire_lease_def)
qed

lemma acquire_wf:
  assumes wf: "loop_wf db" and a: "acquire_lease now db resource run owner ttl = Inr (db', lease)"
  shows "loop_wf db'"
proof -
  note i = acquire_Inr [OF a]
  have "distinct (map le_resource (db_leases db'))"
    using wf i(1,7) by (auto simp: loop_wf_def)
  moreover have "\<forall>l \<in> set (db_leases db'). \<exists>n. map_of (db_fences db') (le_resource l) = Some n \<and> le_fencing_token l < n"
    using wf i(1,2,7,8) by (auto simp: loop_wf_def)
  ultimately show ?thesis using i(9) wf by (simp add: loop_wf_def)
qed

lemma loop_exec_wf: "loop_wf db \<Longrightarrow> loop_exec env now db op = Inr db' \<Longrightarrow> loop_wf db'"
proof -
  assume wf: "loop_wf db" and x: "loop_exec env now db op = Inr db'"
  show "loop_wf db'"
  proof (cases "\<exists>r run owner ttl. op = LAcquire r run owner ttl")
    case True
    then show ?thesis using x acquire_wf [OF wf] by auto
  next
    case False
    then show ?thesis using exec_leases [OF x] wf by (auto simp: loop_wf_def)
  qed
qed

lemma holder_row:
  assumes "loop_wf db"
  shows "lease_holder r db = Some t \<longleftrightarrow> (\<exists>l \<in> set (db_leases db). le_resource l = r \<and> le_fencing_token l = t)"
proof
  assume "lease_holder r db = Some t"
  then show "\<exists>l \<in> set (db_leases db). le_resource l = r \<and> le_fencing_token l = t"
    by (auto simp: lease_holder_def dest: fetchone_SomeD)
next
  assume "\<exists>l \<in> set (db_leases db). le_resource l = r \<and> le_fencing_token l = t"
  then obtain l where l: "l \<in> set (db_leases db)" "le_resource l = r" "le_fencing_token l = t" by blast
  have "fetchone (\<lambda>l. le_resource l = r) (db_leases db) = Some l"
    using l assms by (intro fetchone_unique) (auto simp: loop_wf_def dest: map_key_inj)
  then show "lease_holder r db = Some t" using l by (simp add: lease_holder_def)
qed

interpretation loop_fence: fenced_lease "loop_step env" loop_wf "next_fence r" "lease_holder r" for env r
proof unfold_locales
  fix db db' t
  assume wf: "loop_wf db"
  show "lease_holder r db = Some t \<Longrightarrow> t < next_fence r db"
    using wf by (auto simp: holder_row [OF wf] loop_wf_def next_fence_def)
  assume "loop_step env db db'"
  then obtain now op where x: "loop_exec env now db op = Inr db'" by (auto elim: loop_stepE)
  show wf': "loop_wf db'" using loop_exec_wf [OF wf x] .
  show "next_fence r db \<le> next_fence r db'" "lease_holder r db' = Some t \<Longrightarrow> lease_holder r db = Some t \<or> next_fence r db \<le> t"
  proof -
    have "next_fence r db \<le> next_fence r db' \<and> (lease_holder r db' = Some t \<longrightarrow> lease_holder r db = Some t \<or> next_fence r db \<le> t)"
    proof (cases "\<exists>r run owner ttl. op = LAcquire r run owner ttl")
      case True
      then obtain res run owner ttl lease where "acquire_lease now db res run owner ttl = Inr (db', lease)" using x by auto
      note i = acquire_Inr [OF this]
      show ?thesis using i(1,2,7,8) by (auto simp: holder_row [OF wf] holder_row [OF wf'] next_fence_def split: option.splits)
    next
      case False
      then show ?thesis using exec_leases [OF x] by (auto simp: holder_row [OF wf] holder_row [OF wf'] next_fence_def)
    qed
    then show "next_fence r db \<le> next_fence r db'"
      "lease_holder r db' = Some t \<Longrightarrow> lease_holder r db = Some t \<or> next_fence r db \<le> t" by blast+
  qed
qed

lemma empty_db_wf [simp]: "loop_wf empty_db"
  by (simp add: loop_wf_def empty_db_def)

text \<open>
  C33: a loop run that lost its lease can do nothing any more. Once its token is not the one in the
  lease table, whether it expired and was taken over or was released, every later operation that
  presents this lease raises, whatever happened in between.
\<close>

theorem loop_stale_lease_fenced:
  assumes "rtranclp (loop_step env) empty_db db" and "le_fencing_token lease < next_fence (le_resource lease) db"
    and "lease_holder (le_resource lease) db \<noteq> Some (le_fencing_token lease)"
    and "rtranclp (loop_step env) db db'" and "lease_of op = Some lease"
  shows "\<exists>e. loop_exec env now db' op = Inl e"
proof (cases "loop_exec env now db' op")
  case (Inr db'')
  have wf: "loop_wf db" "loop_wf db'" using loop_fence.run_inv [OF assms(1)] loop_fence.run_inv [OF assms(4)] by auto
  have "lease_holder (le_resource lease) db' \<noteq> Some (le_fencing_token lease)"
    using loop_fence.lost_forever [OF assms(4) wf(1) assms(2,3)] .
  moreover have "assert_lease db' now lease = Inr ()" by (rule guarded_op [OF assms(5) Inr])
  ultimately show ?thesis by (auto simp: assert_lease_def holder_row [OF wf(2)] list_ex_iff lease_matches_def)
qed simp

definition sample_lease :: loop_lease where
  "sample_lease = \<lparr>le_resource = ''loop'', le_run_id = ''r1'', le_owner_id = ''o1'', le_fencing_token = 1, le_expires_at = 60000000\<rparr>"

definition leased_db :: loop_db where
  "leased_db = empty_db\<lparr>db_fences := [(''loop'', 2)], db_leases := [sample_lease]\<rparr>"

definition sample_loop_env :: loop_env where
  "sample_loop_env = \<lparr>sha256_json = (\<lambda>s _ _ _. s), casefold = id, utc_day = (\<lambda>_. ''20260101''), shanghai_day = (\<lambda>_. ''2026-01-01'')\<rparr>"

lemma sample_acquire: "acquire_lease 0 empty_db ''loop'' ''r1'' ''o1'' 60 = Inr (leased_db, sample_lease)"
  by (simp add: acquire_lease_def empty_db_def leased_db_def sample_lease_def fetchone_def delete_where_def Let_def)

lemma sample_leased: "rtranclp (loop_step sample_loop_env) empty_db leased_db"
  by (rule r_into_rtranclp, rule step [of _ 0 _ "LAcquire ''loop'' ''r1'' ''o1'' 60"]) (simp add: sample_acquire)

lemma sample_loop_release: "release_lease 0 leased_db sample_lease = Inr (leased_db\<lparr>db_leases := []\<rparr>)"
  by (simp add: release_lease_def assert_lease_def leased_db_def lease_matches_def sample_lease_def drop_lease_def
    delete_where_def same_lease_def)

theorem loop_stale_lease_fenced_witness:
  "\<exists>e. loop_exec sample_loop_env 5 (leased_db\<lparr>db_leases := []\<rparr>) (LTerminalize sample_lease ''NO_OP'' [] None) = Inl e"
proof -
  have "loop_step sample_loop_env leased_db (leased_db\<lparr>db_leases := []\<rparr>)"
    by (rule step [of _ 0 _ "LRelease sample_lease"]) (simp add: sample_loop_release)
  then have "rtranclp (loop_step sample_loop_env) empty_db (leased_db\<lparr>db_leases := []\<rparr>)" using sample_leased by auto
  from loop_stale_lease_fenced [OF this _ _ rtranclp.rtrancl_refl, of sample_lease "LTerminalize sample_lease ''NO_OP'' [] None"]
  show ?thesis by (simp add: next_fence_def lease_holder_def leased_db_def sample_lease_def fetchone_def)
qed

text \<open>
  A resource has one owner at a time. In any reachable state two leases on the same resource
  that are both valid at the same moment belong to the same run and owner and carry the same token,
  and as long as a lease is valid nobody can acquire the resource.
\<close>

theorem loop_lease_exclusive:
  assumes "rtranclp (loop_step env) empty_db db" and "assert_lease db now l1 = Inr ()" and "le_resource l2 = le_resource l1"
  shows "(assert_lease db now l2 = Inr () \<longrightarrow> le_run_id l2 = le_run_id l1 \<and> le_owner_id l2 = le_owner_id l1 \<and>
      le_fencing_token l2 = le_fencing_token l1) \<and>
    (1 \<le> ttl \<longrightarrow> acquire_lease now db (le_resource l1) run owner ttl = Inl (LeaseBusy (le_run_id l1)))"
proof -
  have wf: "loop_wf db" using loop_fence.run_inv [OF assms(1)] by simp
  obtain row where row: "row \<in> set (db_leases db)" "lease_matches l1 now row"
    using assms(2) by (auto simp: assert_lease_def list_ex_iff)
  have uniq: "row' = row" if "row' \<in> set (db_leases db)" "le_resource row' = le_resource l1" for row'
    using map_key_inj [of le_resource "db_leases db" row' row] wf that row by (auto simp: loop_wf_def lease_matches_def)
  have "fetchone (\<lambda>r. le_resource r = le_resource l1) (db_leases db) = Some row"
    by (rule fetchone_unique [OF row(1) _ uniq]) (use row(2) in \<open>simp_all add: lease_matches_def\<close>)
  note f = this
  have r: "le_run_id row = le_run_id l1" "\<not> le_expires_at row \<le> now" using row(2) by (simp_all add: lease_matches_def)
  have "acquire_lease now db (le_resource l1) run owner ttl = Inl (LeaseBusy (le_run_id l1))" if "1 \<le> ttl"
    unfolding acquire_lease_def f using that r by simp
  moreover have "le_run_id l2 = le_run_id l1 \<and> le_owner_id l2 = le_owner_id l1 \<and> le_fencing_token l2 = le_fencing_token l1"
    if "assert_lease db now l2 = Inr ()"
    using that uniq row(2) assms(3) by (auto simp: assert_lease_def list_ex_iff lease_matches_def)
  ultimately show ?thesis by blast
qed

theorem loop_lease_exclusive_witness:
  "acquire_lease 5 leased_db ''loop'' ''r2'' ''o2'' 60 = Inl (LeaseBusy ''r1'')"
proof -
  have "assert_lease leased_db 5 sample_lease = Inr ()"
    by (simp add: assert_lease_def leased_db_def lease_matches_def sample_lease_def)
  from loop_lease_exclusive [OF sample_leased this, of sample_lease 60 "''r2''" "''o2''"] show ?thesis
    by (simp add: sample_lease_def)
qed

section \<open>The merge gate\<close>

definition merge_gate :: "pr_row \<Rightarrow> bool" where
  "merge_gate p \<longleftrightarrow> (pr_state p = ''MERGED'' \<longrightarrow>
     pr_tier p = TierA \<and> pr_review_verdict p = Some RPASS \<and> (\<exists>sha. pr_merged_sha p = Some sha \<and> is_git_sha sha))"

lemma review_not_merged [simp]: "review_state v \<noteq> ''MERGED''"
  by (cases v) simp_all

lemma exec_merge_gate:
  assumes "\<forall>p \<in> set (db_prs db). merge_gate p" and "loop_exec env now db op = Inr db'"
  shows "\<forall>p \<in> set (db_prs db'). merge_gate p"
proof (cases op)
  case (LMerge lease n head sha)
  then show ?thesis using assms by (auto simp: record_merge_result_def Let_def merge_gate_def)
next
  case (LReview lease n head v sm)
  then show ?thesis using assms by (auto simp: record_review_result_def Let_def merge_gate_def)
next
  case (LPullRequest lease n url branch head base tier day)
  then show ?thesis using assms by (auto simp: record_pull_request_def Let_def merge_gate_def split: if_splits)
qed (use assms in \<open>auto simp: acquire_lease_def release_lease_def begin_loop_run_def set_run_base_sha_def terminalize_def
    record_worker_result_def record_shadow_result_def record_scan_scope_def delete_artifact_record_def set_enabled_def digest_def
    cleanup_def drop_lease_def Let_def dest!: register_outcome_frame split: prod.splits if_splits option.splits\<close>)

text \<open>
  C34: nothing is recorded as merged without passing the gates. In every reachable state a pull
  request in state MERGED is of tier A, its latest review for this head passed, and its merge
  commit is a full SHA.
\<close>

theorem merged_only_through_gates:
  assumes "rtranclp (loop_step env) empty_db db" and "p \<in> set (db_prs db)" and "pr_state p = ''MERGED''"
  shows "pr_tier p = TierA \<and> pr_review_verdict p = Some RPASS \<and> (\<exists>sha. pr_merged_sha p = Some sha \<and> is_git_sha sha)"
proof -
  have "\<forall>p \<in> set (db_prs db). merge_gate p" using assms(1)
    by (induction rule: rtranclp_induct) (auto simp: empty_db_def elim!: loop_stepE dest: exec_merge_gate)
  then show ?thesis using assms(2,3) by (auto simp: merge_gate_def)
qed


lemma ops_reach:
  "efold (\<lambda>db x. loop_exec env (fst x) db (snd x)) db ops = Inr db' \<Longrightarrow> rtranclp (loop_step env) db db'"
proof (induction ops arbitrary: db)
  case (Cons x ops)
  then obtain db1 where "loop_exec env (fst x) db (snd x) = Inr db1"
    "efold (\<lambda>db x. loop_exec env (fst x) db (snd x)) db1 ops = Inr db'" by auto
  then show ?case using Cons.IH step by (meson converse_rtranclp_into_rtranclp)
qed simp

definition zero_sha :: string where
  "zero_sha = ''0000000000000000000000000000000000000000''"

definition merge_ops :: "(int \<times> loop_op) list" where
  "merge_ops = [(0, LAcquire ''loop'' ''r1'' ''o1'' 60),
     (1, LPullRequest sample_lease 7 ''u'' ''b'' ''h'' ''base'' TierA ''d''),
     (2, LReview sample_lease 7 ''h'' RPASS ''ok''), (3, LMerge sample_lease 7 ''h'' zero_sha)]"

definition merged_db :: loop_db where
  "merged_db = projr (efold (\<lambda>db x. loop_exec sample_loop_env (fst x) db (snd x)) empty_db merge_ops)"

theorem merged_only_through_gates_witness:
  "pr_state (hd (db_prs merged_db)) = ''MERGED'' \<and> pr_tier (hd (db_prs merged_db)) = TierA"
proof -
  have "\<not> isl (efold (\<lambda>db x. loop_exec sample_loop_env (fst x) db (snd x)) empty_db merge_ops)" by code_simp
  then have "efold (\<lambda>db x. loop_exec sample_loop_env (fst x) db (snd x)) empty_db merge_ops = Inr merged_db"
    by (simp add: merged_db_def)
  from ops_reach [OF this] have r: "rtranclp (loop_step sample_loop_env) empty_db merged_db" .
  have m: "map pr_state (db_prs merged_db) = [''MERGED'']" by code_simp
  then have "hd (db_prs merged_db) \<in> set (db_prs merged_db)" "pr_state (hd (db_prs merged_db)) = ''MERGED''"
    by (cases "db_prs merged_db"; simp)+
  then show ?thesis using merged_only_through_gates [OF r] by blast
qed

section \<open>Three strikes\<close>

text \<open>
  The specification of the error counter: the streak of equal errors at the end of the history of
  outcomes, newest first. A run that is not blocked ends the streak.
\<close>

fun streak :: "string option list \<Rightarrow> string \<times> int" where
  "streak [] = ([], 0)"
| "streak (None # older) = ([], 0)"
| "streak (Some code # older) = (if fst (streak older) = code then (code, snd (streak older) + 1) else (code, 1))"

definition streak_setting :: "loop_db \<Rightarrow> string \<times> int \<Rightarrow> bool" where
  "streak_setting db s \<longleftrightarrow> get_setting db ''consecutive_error_code'' [] = fst s \<and>
     parse_int (get_setting db ''consecutive_error_count'' ''0'') = Inr (snd s)"

lemma digits_value_snoc: "digits_value (s @ [c]) = 10 * digits_value s + (of_char c - 48)"
  by (simp add: digits_value_def)

lemma digit_char: "n < 10 \<Longrightarrow> (of_char (char_of (48 + n)) :: int) = 48 + int n"
proof -
  assume "n < 10"
  then have "(of_char (char_of (48 + n)) :: nat) = 48 + n" by simp
  then have "int (of_char (char_of (48 + n))) = int (48 + n)" by (rule arg_cong)
  then show ?thesis by (simp only: of_nat_of_char of_nat_add of_nat_numeral)
qed

lemma show_nat_digits: "all_digits (show_nat n) \<and> digits_value (show_nat n) = int n"
proof (induction n rule: less_induct)
  case (less n)
  show ?case
  proof (cases "n < 10")
    case True
    then show ?thesis using digit_char [OF True] by (simp add: show_nat.simps [of n] all_digits_def digits_value_def)
  next
    case False
    have "n mod 10 < 10" by simp
    note d = digit_char [OF this]
    have "all_digits (show_nat (n div 10)) \<and> digits_value (show_nat (n div 10)) = int (n div 10)"
      using less [of "n div 10"] False by simp
    then show ?thesis using False d
      by (simp add: show_nat.simps [of n] all_digits_def digits_value_snoc del: of_char_of) (simp add: zdiv_int zmod_int)
  qed
qed

lemma digits_not_space: "all_digits s \<Longrightarrow> strip s = s"
proof -
  assume d: "all_digits s"
  have "\<not> is_py_space c" if "c \<in> set s" for c
    using d that by (auto simp: all_digits_def list_all_iff is_py_space_def Let_def)
  then have "dropWhile is_py_space s = s" "dropWhile is_py_space (rev s) = rev s"
    by (metis (no_types) dropWhile_eq_self_iff hd_in_set set_rev rev_is_Nil_conv)+
  then show ?thesis by (simp add: strip_def lstrip_def rstrip_def)
qed

lemma parse_show_int: "0 \<le> n \<Longrightarrow> parse_int (show_int n) = Inr n"
proof -
  assume "0 \<le> n"
  then have s: "show_int n = show_nat (nat n)" by (simp add: show_int_def)
  note d = show_nat_digits [of "nat n"]
  obtain c cs where c: "show_nat (nat n) = c # cs" using d by (cases "show_nat (nat n)") (auto simp: all_digits_def)
  have "c \<noteq> CHR ''-'' \<and> c \<noteq> CHR ''+''" using d c by (auto simp: all_digits_def)
  then have "parse_int (c # cs) = Inr (digits_value (c # cs))"
    using d digits_not_space [of "c # cs"] unfolding c by (simp add: parse_int_def Let_def)
  then show ?thesis using d s c \<open>0 \<le> n\<close> by simp
qed

lemma get_set_setting [simp]:
  "get_setting (set_setting k v db) k' d = (if k = k' then v else get_setting db k' d)"
  by (simp add: get_setting_def set_setting_def AList.update_conv')

lemma streak_nonneg: "0 \<le> snd (streak os)"
  by (induction os rule: streak.induct) auto

text \<open>
  C35: the error counter in the settings table implements the streak of equal errors. Starting from
  a fresh database, whatever sequence of outcomes has been registered, registering one more always
  succeeds, stores the code and length of the streak that now ends the history, and switches the
  loop off with mode PAUSED\_ERROR exactly when the streak has reached three.
\<close>

theorem outcomes_refine_streak:
  assumes "efold (\<lambda>db x. ebind (register_outcome db x) (\<lambda>r. Inr (fst r))) (initialize empty_db) (rev older) = Inr db"
  shows "\<exists>db' p. register_outcome db outcome = Inr (db', snd (streak (outcome # older)), p) \<and>
    streak_setting db' (streak (outcome # older)) \<and> (p \<longleftrightarrow> 3 \<le> snd (streak (outcome # older))) \<and>
    (p \<longrightarrow> \<not> is_enabled db' \<and> loop_mode db' = ''PAUSED_ERROR'')"
proof -
  have reg: "\<exists>db' p. register_outcome db outcome = Inr (db', snd (streak (outcome # older)), p) \<and>
      streak_setting db' (streak (outcome # older)) \<and> (p \<longleftrightarrow> 3 \<le> snd (streak (outcome # older))) \<and>
      (p \<longrightarrow> \<not> is_enabled db' \<and> loop_mode db' = ''PAUSED_ERROR'')"
    if "streak_setting db (streak older)" for db outcome older
  proof (cases outcome)
    case None
    have "parse_int ''0'' = Inr 0" by code_simp
    then show ?thesis using None by (auto simp: register_outcome_def streak_setting_def)
  next
    case (Some code)
    then show ?thesis using that streak_nonneg [of older]
      by (auto simp: register_outcome_def streak_setting_def Let_def is_enabled_def loop_mode_def parse_show_int)
  qed
  have "streak_setting db (streak older)" using assms
  proof (induction older arbitrary: db)
    case Nil
    have "parse_int ''0'' = Inr 0" by code_simp
    with Nil show ?case by (auto simp: streak_setting_def initialize_def empty_db_def set_setting_def get_setting_def Let_def)
  next
    case (Cons o1 older)
    then obtain db0 where "efold (\<lambda>db x. ebind (register_outcome db x) (\<lambda>r. Inr (fst r))) (initialize empty_db) (rev older) = Inr db0"
      and "ebind (register_outcome db0 o1) (\<lambda>r. Inr (fst r)) = Inr db" by auto
    then show ?case using reg [OF Cons.IH, of db0 o1] by auto
  qed
  then show ?thesis by (rule reg)
qed

theorem outcomes_refine_streak_witness:
  "\<exists>db' p. register_outcome (initialize empty_db) (Some ''E1'') = Inr (db', 1, p) \<and> \<not> p"
  using outcomes_refine_streak [of "[]" "initialize empty_db" "Some ''E1''"] by auto

section \<open>Runs end once\<close>

text \<open>
  A loop run is ended once and gives its lease up in the same transaction. When
  \<open>terminalize\<close> returns, the row that was RUNNING has the new state, an end time and no row of the run is RUNNING,
  the rows of other runs are untouched, and presenting the lease again raises at any later moment.
\<close>

theorem terminalize_once:
  assumes "loop_wf db" and "terminalize now db lease state summary code = Inr (db', n, p)" and "state \<noteq> ''RUNNING''"
  shows "(\<exists>r \<in> set (db_runs db'). rn_run_id r = le_run_id lease \<and> rn_state r = state \<and> rn_finished_at r = Some now) \<and>
    (\<forall>r \<in> set (db_runs db'). rn_run_id r = le_run_id lease \<longrightarrow> rn_state r \<noteq> ''RUNNING'') \<and>
    filter (\<lambda>r. rn_run_id r \<noteq> le_run_id lease) (db_runs db') = filter (\<lambda>r. rn_run_id r \<noteq> le_run_id lease) (db_runs db) \<and>
    terminalize now' db' lease state' summary' code' = Inl (LeaseLost (le_run_id lease))"
proof -
  let ?running = "\<lambda>r. rn_run_id r = le_run_id lease \<and> rn_state r = ''RUNNING''"
  let ?upd = "\<lambda>r. r\<lparr>rn_state := state, rn_error_code := code, rn_summary := bounded summary 1000, rn_finished_at := Some now\<rparr>"
  obtain db2 where rc: "rowcount ?running (db_runs db) = 1"
    and reg: "register_outcome (db\<lparr>db_runs := update_where ?running ?upd (db_runs db)\<rparr>) (if state = ''BLOCKED'' then code else None) = Inr (db2, n, p)"
    and db': "db' = drop_lease lease db2"
    using assms(2) by (auto simp: terminalize_def Let_def)
  note frame = register_outcome_frame [OF reg]
  have runs: "db_runs db' = update_where ?running ?upd (db_runs db)" using frame db' by (simp add: drop_lease_def)
  have "rowcount ?running (db_runs db) \<noteq> 0" using rc by simp
  then obtain r where r: "r \<in> set (db_runs db)" "?running r" unfolding rowcount_0 by blast
  have "\<not> list_ex (lease_matches lease now') (db_leases db')"
    using frame db' by (auto simp: drop_lease_def list_ex_iff same_lease_def lease_matches_def)
  then have "terminalize now' db' lease state' summary' code' = Inl (LeaseLost (le_run_id lease))"
    by (simp add: terminalize_def assert_lease_def)
  moreover have "filter (\<lambda>r. rn_run_id r \<noteq> le_run_id lease) (db_runs db') = filter (\<lambda>r. rn_run_id r \<noteq> le_run_id lease) (db_runs db)"
    unfolding runs by (rule filter_update_where) simp_all
  moreover have "?upd r \<in> set (db_runs db')" unfolding runs set_update_where using r by (intro image_eqI [of _ _ r]) simp_all
  then have "\<exists>r \<in> set (db_runs db'). rn_run_id r = le_run_id lease \<and> rn_state r = state \<and> rn_finished_at r = Some now"
    using r(2) by (intro bexI [of _ "?upd r"]) simp_all
  moreover have "\<forall>r \<in> set (db_runs db'). rn_run_id r = le_run_id lease \<longrightarrow> rn_state r \<noteq> ''RUNNING''"
    unfolding runs using assms(3) by auto
  ultimately show ?thesis by blast
qed

definition running_db :: loop_db where
  "running_db = projr (begin_loop_run 1 leased_db sample_lease ''v1'' ''DRY_RUN'' None)"

theorem terminalize_once_witness:
  "\<exists>db' n p. terminalize 2 running_db sample_lease ''NO_OP'' ''done'' None = Inr (db', n, p) \<and>
     terminalize 3 db' sample_lease ''BLOCKED'' [] None = Inl (LeaseLost ''r1'')"
proof -
  have "loop_wf running_db"
    by (simp add: running_db_def begin_loop_run_def assert_lease_def lease_matches_def leased_db_def empty_db_def sample_lease_def loop_wf_def)
  moreover have "\<not> isl (terminalize 2 running_db sample_lease ''NO_OP'' ''done'' None)" by code_simp
  then obtain db' n p where "terminalize 2 running_db sample_lease ''NO_OP'' ''done'' None = Inr (db', n, p)"
    by (metis isl_def old.sum.exhaust prod_cases3)
  ultimately show ?thesis
    using terminalize_once [of running_db 2 sample_lease "''NO_OP''" "''done''" None db' n p 3 "''BLOCKED''" "[]" None]
    by (simp add: sample_lease_def)
qed

section \<open>Pull request quota\<close>

text \<open>
  C36: one open pull request, one per day. When the capacity check passed and the new pull request
  is then recorded for that day, exactly one pull request is open, exactly one has been created on
  that day, and the check fails for everybody until the pull request leaves its open states.
\<close>

theorem pr_quota:
  assumes "require_pr_capacity env now db lease = Inr day"
    and "record_pull_request now' db lease number url branch head base tier day = Inr db'"
    and "number \<notin> pr_number ` set (db_prs db)"
  shows "rowcount (\<lambda>p. pr_state p \<in> set OPEN_PR_STATES) (db_prs db') = 1 \<and>
    rowcount (\<lambda>p. pr_created_day p = day) (db_prs db') = 1 \<and>
    (\<exists>e. require_pr_capacity env now'' db' lease' = Inl e)"
proof -
  have none: "\<forall>p \<in> set (db_prs db). pr_state p \<notin> set OPEN_PR_STATES" "\<forall>p \<in> set (db_prs db). pr_created_day p \<noteq> day"
    using assms(1) by (auto simp: require_pr_capacity_def Let_def)
  have "\<not> list_ex (\<lambda>p. pr_number p = number) (db_prs db)" using assms(3) by (force simp: list_ex_iff)
  then obtain p where p: "db_prs db' = db_prs db @ [p]" "pr_state p = ''DRAFT''" "pr_created_day p = day"
    using assms(2) by (auto simp: record_pull_request_def)
  have "''DRAFT'' \<in> set OPEN_PR_STATES" by (simp add: OPEN_PR_STATES_def)
  then have c: "rowcount (\<lambda>p. pr_state p \<in> set OPEN_PR_STATES) (db_prs db') = 1"
    "rowcount (\<lambda>p. pr_created_day p = day) (db_prs db') = 1"
    using none p by (simp_all add: rowcount_def filter_empty_conv)
  have "require_pr_capacity env now'' db' lease' \<noteq> Inr d" for d using c(1) by (auto simp: require_pr_capacity_def Let_def)
  then have "\<exists>e. require_pr_capacity env now'' db' lease' = Inl e" by (cases "require_pr_capacity env now'' db' lease'") auto
  then show ?thesis using c by blast
qed

theorem pr_quota_witness:
  "\<exists>db'. record_pull_request 2 leased_db sample_lease 7 ''u'' ''b'' ''h'' ''base'' TierB ''2026-01-01'' = Inr db' \<and>
     rowcount (\<lambda>p. pr_state p \<in> set OPEN_PR_STATES) (db_prs db') = 1"
proof -
  have "require_pr_capacity sample_loop_env 1 leased_db sample_lease = Inr ''2026-01-01''" by code_simp
  moreover have "\<not> isl (record_pull_request 2 leased_db sample_lease 7 ''u'' ''b'' ''h'' ''base'' TierB ''2026-01-01'')" by code_simp
  then obtain db' where "record_pull_request 2 leased_db sample_lease 7 ''u'' ''b'' ''h'' ''base'' TierB ''2026-01-01'' = Inr db'"
    by (metis isl_def old.sum.exhaust)
  ultimately show ?thesis
    using pr_quota [of sample_loop_env 1 leased_db sample_lease "''2026-01-01''" 2 7 "''u''" "''b''" "''h''" "''base''" TierB db']
    by (auto simp: leased_db_def empty_db_def)
qed

section \<open>Scan scopes\<close>

lemma first_min_spec:
  "first_min key best xs \<in> set (best # xs) \<and> (\<forall>x \<in> set (best # xs). key (first_min key best xs) \<le> key x)"
proof (induction xs arbitrary: best)
  case (Cons x xs)
  show ?case using Cons [of x] Cons [of best] by (auto simp: not_less intro: order_trans less_imp_le)
qed simp

lemma choose_scan_least_recent:
  assumes "choose_scan_scope db scopes = Inr scope"
  shows "scope \<in> set scopes \<and> (\<forall>s \<in> set scopes. last_scan db scope \<le> last_scan db s)"
  using assms first_min_spec [of "last_scan db" "hd scopes" "tl scopes"]
  by (cases scopes) (auto simp: choose_scan_scope_def split: if_splits)

end
