(* ===== verification/Knowledge_Sync.thy ===== *)
theory Knowledge_Sync
  imports Posix_Path Json_Payload
begin

text \<open>
  The incremental diff between a scan of a knowledge source and its last committed manifest, from
  \<open>core/knowledge/jobs/sync.py\<close>, with the types of \<open>core/knowledge/jobs/types.py\<close>.
  SHA-256 is an argument: over a text in \<open>sha_text\<close>, over the canonical JSON document of a value
  in \<open>sha_json\<close>.
\<close>

section \<open>Types\<close>

record scanned_file =
  sf_relative_path :: string
  sf_source_revision :: string
  sf_idempotency_key :: string
  sf_change_kind :: string

record sync_change =
  ch_relative_path :: string
  ch_change_kind :: string
  ch_previous_revision :: "string option"
  ch_source_revision :: "string option"
  ch_idempotency_key :: string

text \<open>A manifest maps a path to its revision and status; it is a dict, so no path occurs twice.\<close>

type_synonym manifest = "(string \<times> string \<times> string) list"

record sync_env =
  sha_text :: "string \<Rightarrow> string"
  sha_json :: "pyval \<Rightarrow> string"

record sync_scope =
  sc_workspace_id :: string
  sc_source_root_id :: string
  sc_relative_directory :: string
  sc_pipeline_version :: string

section \<open>Diffing\<close>

definition normalize_directory :: "string \<Rightarrow> string result" where
  "normalize_directory v =
     (let normalized = (if strip v = [] then ''.'' else strip v) in
      ebind (require (\<not> is_absolute normalized \<and> ''..'' \<notin> set (path_parts normalized)
                \<and> \<not> list_ex (\<lambda>c. (of_char c :: int) = 92) normalized)
        (ValueError ''invalid relative source directory'')) (\<lambda>_. Inr (as_posix normalized)))"

fun join_nul :: "string list \<Rightarrow> string" where
  "join_nul [] = []"
| "join_nul [s] = s"
| "join_nul (s # ss) = s @ [CHR 0x00] @ join_nul ss"

definition idempotency_key :: "sync_env \<Rightarrow> sync_scope \<Rightarrow> string \<Rightarrow> string \<Rightarrow> string \<Rightarrow> string" where
  "idempotency_key env sc path kind revision =
     sha_text env (join_nul ([sc_workspace_id sc, sc_source_root_id sc, path]
       @ (if kind \<noteq> ''added'' then [kind] else []) @ [revision, sc_pipeline_version sc]))"

text \<open>\<open>{item.relative_path: item for item in scanned}\<close>: a later item replaces an earlier one.\<close>

definition current_of :: "scanned_file list \<Rightarrow> (string \<times> scanned_file) list" where
  "current_of scanned = foldl (\<lambda>d item. AList.update (sf_relative_path item) item d) [] scanned"

definition scan_change :: "sync_env \<Rightarrow> sync_scope \<Rightarrow> manifest \<Rightarrow> string \<times> scanned_file \<Rightarrow> sync_change option" where
  "scan_change env sc manifest entry =
     (let (path, item) = entry; previous = map_of manifest path;
        kind = (case previous of Some (_, status) \<Rightarrow> if status = ''present'' then ''modified'' else ''added'' | None \<Rightarrow> ''added'') in
      if previous = Some (sf_source_revision item, ''present'') then None
      else Some \<lparr>ch_relative_path = path, ch_change_kind = kind, ch_previous_revision = map_option fst previous,
             ch_source_revision = Some (sf_source_revision item),
             ch_idempotency_key = idempotency_key env sc path kind (sf_source_revision item)\<rparr>)"

definition deletion :: "sync_env \<Rightarrow> sync_scope \<Rightarrow> string \<Rightarrow> string \<Rightarrow> sync_change" where
  "deletion env sc path revision =
     \<lparr>ch_relative_path = path, ch_change_kind = ''deleted'', ch_previous_revision = Some revision, ch_source_revision = None,
      ch_idempotency_key = idempotency_key env sc path ''deleted'' revision\<rparr>"

definition in_directory :: "string \<Rightarrow> string \<Rightarrow> bool" where
  "in_directory dir path = (dir = ''.'' \<or> starts_with path (dir @ ''/''))"

definition deleted_change ::
  "sync_env \<Rightarrow> sync_scope \<Rightarrow> string \<Rightarrow> (string \<times> scanned_file) list \<Rightarrow> string \<times> string \<times> string \<Rightarrow> sync_change option" where
  "deleted_change env sc dir current entry =
     (let (path, revision, status) = entry in
      if status \<noteq> ''present'' \<or> map_of current path \<noteq> None \<or> \<not> in_directory dir path then None
      else Some (deletion env sc path revision))"

definition build_sync_changes ::
  "sync_env \<Rightarrow> sync_scope \<Rightarrow> scanned_file list \<Rightarrow> manifest \<Rightarrow> sync_change list result" where
  "build_sync_changes env sc scanned manifest =
     ebind (normalize_directory (sc_relative_directory sc)) (\<lambda>dir.
     let current = current_of scanned in
     Inr (sort_key ch_relative_path
       (List.map_filter (scan_change env sc manifest) (sort_key fst current)
        @ List.map_filter (deleted_change env sc dir current) (sort_key fst manifest))))"

section \<open>Applying a plan\<close>

definition change_entry :: "sync_change \<Rightarrow> (string \<times> string) option" where
  "change_entry c =
     (if ch_change_kind c = ''deleted'' then map_option (\<lambda>r. (r, ''deleted'')) (ch_previous_revision c)
      else map_option (\<lambda>r. (r, ''present'')) (ch_source_revision c))"

definition apply_change :: "manifest \<Rightarrow> sync_change \<Rightarrow> manifest result" where
  "apply_change target c = (case change_entry c of
     None \<Rightarrow> Inl (ValueError ''knowledge sync change has no revision'')
   | Some entry \<Rightarrow> Inr (AList.update (ch_relative_path c) entry target))"

definition apply_changes :: "manifest \<Rightarrow> sync_change list \<Rightarrow> manifest result" where
  "apply_changes manifest changes = efold apply_change manifest changes"

definition build_manifest_hash :: "sync_env \<Rightarrow> manifest \<Rightarrow> sync_change list \<Rightarrow> string result" where
  "build_manifest_hash env manifest changes =
     ebind (apply_changes manifest changes) (\<lambda>target.
     Inr (sha_json env (PList (map (\<lambda>(path, revision, status).
       canon (PDict [(PStr ''relative_path'', PStr path), (PStr ''source_revision'', PStr revision), (PStr ''status'', PStr status)]))
       (sort_key fst target)))))"

definition opt_str :: "string option \<Rightarrow> pyval" where
  "opt_str v = (case v of None \<Rightarrow> PNone | Some s \<Rightarrow> PStr s)"

definition change_doc :: "sync_change \<Rightarrow> pyval" where
  "change_doc c = PDict [(PStr ''relative_path'', PStr (ch_relative_path c)), (PStr ''change_kind'', PStr (ch_change_kind c)),
     (PStr ''previous_revision'', opt_str (ch_previous_revision c)), (PStr ''source_revision'', opt_str (ch_source_revision c)),
     (PStr ''idempotency_key'', PStr (ch_idempotency_key c))]"

definition build_plan_id ::
  "sync_env \<Rightarrow> sync_scope \<Rightarrow> int \<Rightarrow> sync_change list \<Rightarrow> string \<Rightarrow> string \<Rightarrow> string option \<Rightarrow> string option \<Rightarrow>
   (string \<times> string) result" where
  "build_plan_id env sc base_watermark changes adapter_id adapter_version base_checkpoint target_checkpoint =
     ebind (normalize_directory (sc_relative_directory sc)) (\<lambda>dir.
     let digest = sha_json env (canon (PDict [(PStr ''workspace_id'', PStr (sc_workspace_id sc)),
       (PStr ''source_root_id'', PStr (sc_source_root_id sc)), (PStr ''relative_directory'', PStr dir),
       (PStr ''pipeline_version'', PStr (sc_pipeline_version sc)), (PStr ''adapter_id'', PStr adapter_id),
       (PStr ''adapter_version'', PStr adapter_version), (PStr ''base_checkpoint'', opt_str base_checkpoint),
       (PStr ''target_checkpoint'', opt_str target_checkpoint), (PStr ''base_watermark'', PInt base_watermark),
       (PStr ''changes'', PList (map change_doc changes))])) in
     Inr (''ksync_'' @ take 30 digest, digest))"

section \<open>A plan brings the manifest to the scanned state\<close>

lemma current_distinct: "distinct (map fst (current_of scanned))"
proof -
  have "distinct (map fst d) \<Longrightarrow> distinct (map fst (foldl (\<lambda>d item. AList.update (sf_relative_path item) item d) d scanned))" for d
    by (induction scanned arbitrary: d) (auto simp: distinct_update)
  then show ?thesis by (simp add: current_of_def)
qed

lemma set_map_filter: "set (List.map_filter f xs) = {y. \<exists>x \<in> set xs. f x = Some y}"
  by (force simp: List.map_filter_def)

lemma map_filter_keys:
  "(\<And>x y. f x = Some y \<Longrightarrow> g y = fst x) \<Longrightarrow> distinct (map fst xs) \<Longrightarrow>
   distinct (map g (List.map_filter f xs)) \<and> set (map g (List.map_filter f xs)) \<subseteq> set (map fst xs)"
  by (induction xs) (fastforce simp: List.map_filter_simps split: option.splits)+

lemma distinct_sort_key_map: "distinct (map fst (sort_key fst xs)) = distinct (map fst xs)"
proof -
  have "mset (map fst (sort_key fst xs)) = mset (map fst xs)" by simp
  then show ?thesis using mset_eq_imp_distinct_iff by blast
qed

lemma scan_change_key: "scan_change env sc m x = Some y \<Longrightarrow> ch_relative_path y = fst x"
  by (cases x) (auto simp: scan_change_def Let_def split: if_splits)

lemma deleted_change_key: "deleted_change env sc dir cur x = Some y \<Longrightarrow> ch_relative_path y = fst x \<and> map_of cur (fst x) = None"
  by (cases x) (auto simp: deleted_change_def deletion_def split: if_splits)

lemma changes_distinct:
  assumes "distinct (map fst manifest)" and "build_sync_changes env sc scanned manifest = Inr cs"
  shows "distinct (map ch_relative_path cs)"
proof -
  let ?cur = "current_of scanned"
  obtain dir where cs: "cs = sort_key ch_relative_path
      (List.map_filter (scan_change env sc manifest) (sort_key fst ?cur)
       @ List.map_filter (deleted_change env sc dir ?cur) (sort_key fst manifest))"
    using assms(2) by (auto simp: build_sync_changes_def Let_def)
  let ?a = "List.map_filter (scan_change env sc manifest) (sort_key fst ?cur)"
  let ?b = "List.map_filter (deleted_change env sc dir ?cur) (sort_key fst manifest)"
  have a: "distinct (map ch_relative_path ?a) \<and> set (map ch_relative_path ?a) \<subseteq> set (map fst (sort_key fst ?cur))"
    by (rule map_filter_keys [OF scan_change_key]) (simp_all only: distinct_sort_key_map current_distinct)
  have b: "distinct (map ch_relative_path ?b)"
    using map_filter_keys [of "deleted_change env sc dir ?cur" ch_relative_path "sort_key fst manifest"]
      deleted_change_key assms(1) distinct_sort_key_map by blast
  have away: "p \<notin> set (map fst (sort_key fst ?cur))" if "p \<in> set (map ch_relative_path ?b)" for p
    using that deleted_change_key by (fastforce simp: set_map_filter map_of_eq_None_iff)
  have "set (map ch_relative_path ?a) \<inter> set (map ch_relative_path ?b) = {}"
    using away conjunct2 [OF a] by blast
  then have "distinct (map ch_relative_path (?a @ ?b))" using a b by (simp only: map_append distinct_append)
  moreover have "mset (map ch_relative_path cs) = mset (map ch_relative_path (?a @ ?b))" by (simp add: cs)
  ultimately show ?thesis using mset_eq_imp_distinct_iff by blast
qed

lemma apply_lookup:
  assumes "distinct (map ch_relative_path cs)" and "\<forall>c \<in> set cs. change_entry c \<noteq> None"
  shows "\<exists>t. apply_changes m cs = Inr t \<and> (\<forall>c \<in> set cs. map_of t (ch_relative_path c) = change_entry c) \<and>
    (\<forall>p. p \<notin> ch_relative_path ` set cs \<longrightarrow> map_of t p = map_of m p)"
  using assms
proof (induction cs arbitrary: m)
  case (Cons c cs)
  obtain e where e: "change_entry c = Some e" using Cons.prems(2) by auto
  let ?m = "AList.update (ch_relative_path c) e m"
  from Cons.IH [of ?m] Cons.prems obtain t where t: "apply_changes ?m cs = Inr t"
    "\<forall>c \<in> set cs. map_of t (ch_relative_path c) = change_entry c"
    "\<forall>p. p \<notin> ch_relative_path ` set cs \<longrightarrow> map_of t p = map_of ?m p" by auto
  have "ch_relative_path c \<notin> ch_relative_path ` set cs" using Cons.prems(1) by simp
  then show ?case using t e by (intro exI [of _ t]) (auto simp: apply_changes_def apply_change_def AList.update_conv')
qed (simp add: apply_changes_def)

lemma change_entries:
  assumes "c \<in> set cs" and "build_sync_changes env sc scanned manifest = Inr cs"
  shows "change_entry c \<noteq> None"
  using assms by (auto simp: build_sync_changes_def Let_def set_map_filter scan_change_def deleted_change_def deletion_def change_entry_def
    split: if_splits option.splits)

text \<open>The state a scan asks for: scanned files are present, what is missing in the directory is deleted.\<close>

definition synced :: "string \<Rightarrow> scanned_file list \<Rightarrow> manifest \<Rightarrow> string \<Rightarrow> (string \<times> string) option" where
  "synced dir scanned manifest path = (case map_of (current_of scanned) path of
     Some item \<Rightarrow> Some (sf_source_revision item, ''present'')
   | None \<Rightarrow> (case map_of manifest path of
       Some (revision, status) \<Rightarrow>
         if status = ''present'' \<and> in_directory dir path then Some (revision, ''deleted'') else Some (revision, status)
     | None \<Rightarrow> None))"

lemma applied_lookup:
  assumes d: "distinct (map fst manifest)" and b: "build_sync_changes env sc scanned manifest = Inr cs"
    and dir: "normalize_directory (sc_relative_directory sc) = Inr dir"
  shows "\<exists>t. apply_changes manifest cs = Inr t \<and> (\<forall>p. map_of t p = synced dir scanned manifest p)"
proof -
  let ?cur = "current_of scanned"
  obtain t where t: "apply_changes manifest cs = Inr t" "\<forall>c \<in> set cs. map_of t (ch_relative_path c) = change_entry c"
    "\<forall>p. p \<notin> ch_relative_path ` set cs \<longrightarrow> map_of t p = map_of manifest p"
    using apply_lookup [OF changes_distinct [OF d b], of manifest] change_entries [OF _ b] by blast
  have set: "set cs = {y. \<exists>x \<in> set ?cur. scan_change env sc manifest x = Some y} \<union>
      {y. \<exists>x \<in> set manifest. deleted_change env sc dir ?cur x = Some y}"
    using b dir by (auto simp: build_sync_changes_def Let_def set_map_filter)
  have "map_of t p = synced dir scanned manifest p" for p
  proof (cases "map_of ?cur p")
    case (Some item)
    then have mem: "(p, item) \<in> set ?cur" by (rule map_of_SomeD)
    show ?thesis
    proof (cases "scan_change env sc manifest (p, item)")
      case (Some c)
      then have "c \<in> set cs" using mem set by blast
      then have "map_of t p = change_entry c" using t(2) scan_change_key [OF Some] by auto
      moreover have "change_entry c = Some (sf_source_revision item, ''present'')"
        using Some by (auto simp: scan_change_def Let_def change_entry_def split: if_splits option.splits)
      ultimately show ?thesis using \<open>map_of ?cur p = Some item\<close> by (simp add: synced_def)
    next
      case None
      then have m: "map_of manifest p = Some (sf_source_revision item, ''present'')"
        by (auto simp: scan_change_def Let_def split: if_splits)
      have "p \<notin> ch_relative_path ` set cs"
      proof
        assume "p \<in> ch_relative_path ` set cs"
        then obtain y where y: "y \<in> set cs" "ch_relative_path y = p" by blast
        from y(1) set consider (scan) x where "x \<in> set ?cur" "scan_change env sc manifest x = Some y"
          | (del) x where "deleted_change env sc dir ?cur x = Some y" by blast
        then show False
        proof cases
          case scan
          have "fst x = p" using scan_change_key [OF scan(2)] y(2) by simp
          then have "x = (p, item)"
            using scan(1) \<open>map_of ?cur p = Some item\<close> current_distinct by (cases x) (simp add: map_of_is_SomeI [OF current_distinct])
          then show False using None scan(2) by simp
        next
          case del
          then show False using deleted_change_key [OF del] y(2) \<open>map_of ?cur p = Some item\<close> by simp
        qed
      qed
      then show ?thesis using t(3) m \<open>map_of ?cur p = Some item\<close> by (simp add: synced_def)
    qed
  next
    case None
    have nocur: "fst x \<noteq> p" if "x \<in> set ?cur" for x using None that by (force simp: map_of_eq_None_iff)
    show ?thesis
    proof (cases "\<exists>r. map_of manifest p = Some (r, ''present'') \<and> in_directory dir p")
      case True
      then obtain r where r: "map_of manifest p = Some (r, ''present'')" "in_directory dir p" by blast
      have "deleted_change env sc dir ?cur (p, r, ''present'') = Some (deletion env sc p r)"
        using r(2) None by (simp add: deleted_change_def)
      then have "deletion env sc p r \<in> set cs" using set map_of_SomeD [OF r(1)] by blast
      then have "map_of t p = Some (r, ''deleted'')" using t(2) by (force simp: deletion_def change_entry_def)
      then show ?thesis using None r by (simp add: synced_def)
    next
      case False
      have "p \<notin> ch_relative_path ` set cs"
      proof
        assume "p \<in> ch_relative_path ` set cs"
        then obtain y where y: "y \<in> set cs" "ch_relative_path y = p" by blast
        then obtain x where x: "x \<in> set manifest" "deleted_change env sc dir ?cur x = Some y"
          using set nocur by (fastforce dest: scan_change_key [of env sc manifest])
        then have "fst x = p" using deleted_change_key [OF x(2)] y(2) by simp
        note x = x this
        then have "map_of manifest p = Some (snd x)" using d by (metis map_of_is_SomeI prod.collapse)
        then show False using x False by (cases x) (auto simp: deleted_change_def split: if_splits)
      qed
      then show ?thesis using t(3) None False by (auto simp: synced_def split: option.splits)
    qed
  qed
  then show ?thesis using t(1) by blast
qed

text \<open>
  C38: a sync plan brings the manifest to exactly what the scan saw. Applying the changes never
  fails; afterwards every scanned file is recorded as present with its scanned revision, every
  file of the scanned directory that the scan did not see is a tombstone with its last revision, and
  every other entry, in particular outside the directory, is untouched.
\<close>

theorem sync_plan_reaches_scan:
  assumes "distinct (map fst manifest)" and "build_sync_changes env sc scanned manifest = Inr cs"
    and "normalize_directory (sc_relative_directory sc) = Inr dir"
  shows "\<exists>target. apply_changes manifest cs = Inr target \<and> (\<forall>path. map_of target path = synced dir scanned manifest path)"
  using assms by (rule applied_lookup)

definition sample_sync_env :: sync_env where
  "sample_sync_env = \<lparr>sha_text = id, sha_json = (\<lambda>_. ''h'')\<rparr>"

definition sample_scope :: sync_scope where
  "sample_scope = \<lparr>sc_workspace_id = ''w'', sc_source_root_id = ''r'', sc_relative_directory = ''docs'', sc_pipeline_version = ''v''\<rparr>"

definition sample_scan :: "scanned_file list" where
  "sample_scan = [\<lparr>sf_relative_path = ''docs/a'', sf_source_revision = ''2'', sf_idempotency_key = ''k'', sf_change_kind = ''added''\<rparr>]"

definition sample_manifest :: manifest where
  "sample_manifest = [(''docs/a'', ''1'', ''present''), (''docs/b'', ''7'', ''present''), (''other/c'', ''3'', ''present'')]"

lemma sample_sync:
  "\<not> isl (build_sync_changes sample_sync_env sample_scope sample_scan sample_manifest)"
  "normalize_directory (sc_relative_directory sample_scope) = Inr ''docs''" "distinct (map fst sample_manifest)"
  by code_simp+

theorem sync_plan_reaches_scan_witness:
  "\<exists>cs target. build_sync_changes sample_sync_env sample_scope sample_scan sample_manifest = Inr cs \<and>
     apply_changes sample_manifest cs = Inr target \<and> map_of target ''docs/b'' = synced ''docs'' sample_scan sample_manifest ''docs/b''"
proof -
  obtain cs where cs: "build_sync_changes sample_sync_env sample_scope sample_scan sample_manifest = Inr cs"
    using sample_sync(1) by (metis isl_def old.sum.exhaust)
  from sync_plan_reaches_scan [OF sample_sync(3) cs sample_sync(2)] cs show ?thesis by blast
qed

text \<open>
  Synchronising is idempotent. Diffing the same scan against the manifest that the plan
  produced yields no change, so an unchanged source never creates work, and deleted files are
  reported once.
\<close>

theorem resync_is_noop:
  assumes "distinct (map fst manifest)" and "build_sync_changes env sc scanned manifest = Inr cs"
    and "apply_changes manifest cs = Inr target" and "distinct (map fst target)"
  shows "build_sync_changes env sc scanned target = Inr []"
proof -
  let ?cur = "current_of scanned"
  obtain dir where dir: "normalize_directory (sc_relative_directory sc) = Inr dir"
    using assms(2) by (auto simp: build_sync_changes_def)
  have t: "map_of target p = synced dir scanned manifest p" for p
    using applied_lookup [OF assms(1,2) dir] assms(3) by auto
  have "scan_change env sc target x = None" if "x \<in> set ?cur" for x
  proof -
    have "map_of ?cur (fst x) = Some (snd x)" using that current_distinct by (metis map_of_is_SomeI prod.collapse)
    then have "map_of target (fst x) = Some (sf_source_revision (snd x), ''present'')" using t by (simp add: synced_def)
    then show ?thesis by (cases x) (simp add: scan_change_def)
  qed
  moreover have "deleted_change env sc dir ?cur x = None" if "x \<in> set target" for x
  proof -
    obtain p r st where x: "x = (p, r, st)" by (cases x) auto
    have "synced dir scanned manifest p = Some (r, st)" using that assms(4) t x by (metis map_of_is_SomeI)
    then show ?thesis using x by (auto simp: synced_def deleted_change_def split: option.splits if_splits)
  qed
  ultimately show ?thesis using dir by (simp add: build_sync_changes_def Let_def List.map_filter_def filter_empty_conv)
qed

lemma apply_changes_distinct: "apply_changes m cs = Inr t \<Longrightarrow> distinct (map fst m) \<Longrightarrow> distinct (map fst t)"
  by (induction cs arbitrary: m) (auto simp: apply_changes_def apply_change_def distinct_update split: option.splits)

theorem resync_is_noop_witness:
  "\<exists>cs target. build_sync_changes sample_sync_env sample_scope sample_scan sample_manifest = Inr cs \<and>
     apply_changes sample_manifest cs = Inr target \<and> build_sync_changes sample_sync_env sample_scope sample_scan target = Inr []"
proof -
  obtain cs where cs: "build_sync_changes sample_sync_env sample_scope sample_scan sample_manifest = Inr cs"
    using sample_sync(1) by (metis isl_def old.sum.exhaust)
  obtain t where t: "apply_changes sample_manifest cs = Inr t" using applied_lookup [OF sample_sync(3) cs sample_sync(2)] by blast
  show ?thesis using resync_is_noop [OF sample_sync(3) cs t apply_changes_distinct [OF t sample_sync(3)]] cs t by blast
qed

end
