(* ===== verification/Knowledge_Jobs.thy ===== *)
theory Knowledge_Jobs
  imports Knowledge_Sync Interfaces
begin

text \<open>
  The repository of durable knowledge ingestion, from \<open>core/knowledge/jobs/repository.py\<close>, on the
  tables of \<open>db/models.py\<close>: workspaces, sources, sync states and plans, jobs and their items, external
  parser tickets, idempotency keys, committed manifests and job events. Every operation is one
  transaction: it returns the new database and its result, or an error and no change.

  A point in time is a number of microseconds and a delay too, the resolution of \<open>timedelta\<close>; an
  operation reads the clock once (\<open>now\<close>). SHA-256 is an argument, and so is the stream of random ids,
  of which the database counts how many were drawn. JSON columns hold the values they encode. The
  \<open>updated_at\<close> columns, which the repository writes and never reads back into a decision, are left
  out. Rows that a query returns without an \<open>ORDER BY\<close> come in table order.
\<close>

section \<open>Tables\<close>

record workspace_row =
  kw_id :: string
  kw_name :: string

record source_row =
  ks_id :: string
  ks_workspace_id :: string
  ks_root_id :: string
  ks_kind :: string
  ks_label :: string

record manifest_row =
  mf_id :: string
  mf_source_id :: string
  mf_relative_path :: string
  mf_source_revision :: string
  mf_status :: string
  mf_last_job_id :: "string option"

record sync_row =
  sy_source_id :: string
  sy_watermark :: int
  sy_manifest_hash :: string
  sy_adapter_id :: string
  sy_adapter_version :: string
  sy_adapter_checkpoint :: "string option"
  sy_resume_cursor :: "string option"
  sy_scan_status :: string
  sy_last_error_code :: "string option"
  sy_last_error_message :: "string option"
  sy_last_scan_started_at :: "int option"
  sy_last_scan_completed_at :: "int option"
  sy_last_plan_id :: "string option"
  sy_last_job_id :: "string option"

record plan_row =
  pl_id :: string
  pl_workspace_id :: string
  pl_source_id :: string
  pl_relative_directory :: string
  pl_pipeline_version :: string
  pl_adapter_id :: string
  pl_adapter_version :: string
  pl_base_checkpoint :: "string option"
  pl_target_checkpoint :: "string option"
  pl_base_watermark :: int
  pl_target_watermark :: int
  pl_manifest_hash :: string
  pl_changes :: "sync_change list"
  pl_status :: string
  pl_created_at :: int

record job_row =
  jb_id :: string
  jb_workspace_id :: string
  jb_source_id :: string
  jb_sync_plan_id :: "string option"
  jb_relative_directory :: string
  jb_pipeline_version :: string
  jb_status :: string
  jb_cancel_requested :: bool
  jb_event_sequence :: int
  jb_total_items :: int
  jb_processed_items :: int
  jb_succeeded_items :: int
  jb_skipped_items :: int
  jb_failed_items :: int
  jb_cancelled_items :: int
  jb_created_at :: int
  jb_started_at :: "int option"
  jb_completed_at :: "int option"

record item_row =
  it_id :: string
  it_job_id :: string
  it_source_id :: string
  it_relative_path :: string
  it_source_revision :: string
  it_change_kind :: string
  it_idempotency_key :: string
  it_status :: string
  it_attempts :: int
  it_max_attempts :: int
  it_lease_owner :: "string option"
  it_lease_expires_at :: "int option"
  it_next_attempt_at :: "int option"
  it_proposal_id :: "string option"
  it_error :: "string option"
  it_created_at :: int

record external_row =
  ex_item_id :: string
  ex_adapter_id :: string
  ex_adapter_version :: string
  ex_task_id :: string
  ex_state :: string
  ex_submitted_at :: int

record key_row =
  ik_key :: string
  ik_owner_item_id :: string
  ik_status :: string
  ik_proposal_id :: "string option"

record job_event_row =
  je_id :: string
  je_job_id :: string
  je_item_id :: "string option"
  je_sequence :: int
  je_kind :: string
  je_status :: string
  je_detail :: pyval
  je_created_at :: int

record kdb =
  kd_workspaces :: "workspace_row list"
  kd_sources :: "source_row list"
  kd_manifest :: "manifest_row list"
  kd_syncs :: "sync_row list"
  kd_plans :: "plan_row list"
  kd_jobs :: "job_row list"
  kd_items :: "item_row list"
  kd_externals :: "external_row list"
  kd_keys :: "key_row list"
  kd_events :: "job_event_row list"
  kd_drawn :: nat

record kenv = sync_env +
  random_hex :: "nat \<Rightarrow> string"

definition TERMINAL_ITEM_STATUSES :: "string list" where
  "TERMINAL_ITEM_STATUSES = [''completed'', ''skipped'', ''cancelled'', ''dead_letter'']"

definition TERMINAL_JOB_STATUSES :: "string list" where
  "TERMINAL_JOB_STATUSES = [''completed'', ''completed_with_errors'', ''cancelled'']"

definition LEASED_STATUSES :: "string list" where
  "LEASED_STATUSES = [''claimed'', ''parsing'', ''understanding'', ''applying'']"

definition READY_STATUSES :: "string list" where
  "READY_STATUSES = [''queued'', ''retry_wait'', ''external_wait'']"

definition EXTERNAL_TERMINAL_STATES :: "string list" where
  "EXTERNAL_TERMINAL_STATES = [''completed'', ''failed'', ''fallback'', ''timed_out'', ''cancelled'']"

definition empty_kdb :: kdb where
  "empty_kdb = \<lparr>kd_workspaces = [], kd_sources = [], kd_manifest = [], kd_syncs = [], kd_plans = [], kd_jobs = [],
     kd_items = [], kd_externals = [], kd_keys = [], kd_events = [], kd_drawn = 0\<rparr>"

section \<open>Rows and ids\<close>

definition stable_id :: "kenv \<Rightarrow> string \<Rightarrow> string \<Rightarrow> string" where
  "stable_id env prefix v = prefix @ ''_'' @ take 30 (sha_text env v)"

definition random_id :: "kenv \<Rightarrow> string \<Rightarrow> kdb \<Rightarrow> string" where
  "random_id env prefix db = prefix @ ''_'' @ take 30 (random_hex env (kd_drawn db))"

definition get_source :: "kdb \<Rightarrow> string \<Rightarrow> source_row option" where
  "get_source db sid = fetchone (\<lambda>r. ks_id r = sid) (kd_sources db)"

definition get_sync :: "kdb \<Rightarrow> string \<Rightarrow> sync_row option" where
  "get_sync db sid = fetchone (\<lambda>r. sy_source_id r = sid) (kd_syncs db)"

definition get_plan :: "kdb \<Rightarrow> string \<Rightarrow> plan_row option" where
  "get_plan db pid = fetchone (\<lambda>r. pl_id r = pid) (kd_plans db)"

definition find_job :: "kdb \<Rightarrow> string \<Rightarrow> job_row option" where
  "find_job db jid = fetchone (\<lambda>r. jb_id r = jid) (kd_jobs db)"

definition find_item :: "kdb \<Rightarrow> string \<Rightarrow> item_row option" where
  "find_item db iid = fetchone (\<lambda>r. it_id r = iid) (kd_items db)"

definition find_external :: "kdb \<Rightarrow> string \<Rightarrow> external_row option" where
  "find_external db iid = fetchone (\<lambda>r. ex_item_id r = iid) (kd_externals db)"

definition find_key :: "kdb \<Rightarrow> string \<Rightarrow> key_row option" where
  "find_key db k = fetchone (\<lambda>r. ik_key r = k) (kd_keys db)"

definition found :: "string \<Rightarrow> 'r option \<Rightarrow> 'r result" where
  "found name row = (case row of None \<Rightarrow> Inl (JobNotFound name) | Some r \<Rightarrow> Inr r)"

definition upd_sync :: "string \<Rightarrow> (sync_row \<Rightarrow> sync_row) \<Rightarrow> kdb \<Rightarrow> kdb" where
  "upd_sync sid f db = db\<lparr>kd_syncs := update_where (\<lambda>r. sy_source_id r = sid) f (kd_syncs db)\<rparr>"

definition upd_plan :: "string \<Rightarrow> (plan_row \<Rightarrow> plan_row) \<Rightarrow> kdb \<Rightarrow> kdb" where
  "upd_plan pid f db = db\<lparr>kd_plans := update_where (\<lambda>r. pl_id r = pid) f (kd_plans db)\<rparr>"

definition upd_job :: "string \<Rightarrow> (job_row \<Rightarrow> job_row) \<Rightarrow> kdb \<Rightarrow> kdb" where
  "upd_job jid f db = db\<lparr>kd_jobs := update_where (\<lambda>r. jb_id r = jid) f (kd_jobs db)\<rparr>"

definition upd_item :: "string \<Rightarrow> (item_row \<Rightarrow> item_row) \<Rightarrow> kdb \<Rightarrow> kdb" where
  "upd_item iid f db = db\<lparr>kd_items := update_where (\<lambda>r. it_id r = iid) f (kd_items db)\<rparr>"

text \<open>Assignments to the external ticket of an item and to the idempotency key it owns, when they exist.\<close>

definition set_external_state :: "string \<Rightarrow> string \<Rightarrow> kdb \<Rightarrow> kdb" where
  "set_external_state iid state db =
     db\<lparr>kd_externals := update_where (\<lambda>r. ex_item_id r = iid) (\<lambda>r. r\<lparr>ex_state := state\<rparr>) (kd_externals db)\<rparr>"

definition upd_owned_key :: "item_row \<Rightarrow> (key_row \<Rightarrow> key_row) \<Rightarrow> kdb \<Rightarrow> kdb" where
  "upd_owned_key item f db =
     db\<lparr>kd_keys := update_where (\<lambda>r. ik_key r = it_idempotency_key item \<and> ik_owner_item_id r = it_id item) f (kd_keys db)\<rparr>"

definition new_sync :: "string \<Rightarrow> sync_row" where
  "new_sync sid = \<lparr>sy_source_id = sid, sy_watermark = 0, sy_manifest_hash = [], sy_adapter_id = [], sy_adapter_version = [],
     sy_adapter_checkpoint = None, sy_resume_cursor = None, sy_scan_status = ''idle'', sy_last_error_code = None,
     sy_last_error_message = None, sy_last_scan_started_at = None, sy_last_scan_completed_at = None,
     sy_last_plan_id = None, sy_last_job_id = None\<rparr>"

text \<open>The sync state of a source, inserted with its defaults when it is missing.\<close>

definition ensure_sync :: "kdb \<Rightarrow> string \<Rightarrow> (kdb \<times> sync_row) result" where
  "ensure_sync db sid = (case get_sync db sid of
     Some sync \<Rightarrow> Inr (db, sync)
   | None \<Rightarrow> ebind (require (get_source db sid \<noteq> None) IntegrityError) (\<lambda>_.
       Inr (db\<lparr>kd_syncs := kd_syncs db @ [new_sync sid]\<rparr>, new_sync sid)))"

section \<open>Events and progress of a job\<close>

definition append_job_event ::
  "kenv \<Rightarrow> int \<Rightarrow> kdb \<Rightarrow> string \<Rightarrow> string \<Rightarrow> string \<Rightarrow> string option \<Rightarrow> (string \<times> pyval) list \<Rightarrow> kdb result" where
  "append_job_event env now db jid kind status item_id detail =
     ebind (found jid (find_job db jid)) (\<lambda>job.
     let eid = random_id env ''kevt'' db; sequence = jb_event_sequence job + 1;
       row = \<lparr>je_id = eid, je_job_id = jid, je_item_id = item_id, je_sequence = sequence, je_kind = kind, je_status = status,
         je_detail = canon (PDict (map (\<lambda>(k, v). (PStr k, v)) detail)), je_created_at = now\<rparr> in
     ebind (require (\<not> list_ex (\<lambda>e. je_id e = eid \<or> je_job_id e = jid \<and> je_sequence e = sequence) (kd_events db)) IntegrityError)
       (\<lambda>_. Inr (upd_job jid (\<lambda>j. j\<lparr>jb_event_sequence := sequence\<rparr>)
         (db\<lparr>kd_events := kd_events db @ [row], kd_drawn := Suc (kd_drawn db)\<rparr>))))"

definition status_count :: "kdb \<Rightarrow> string \<Rightarrow> string \<Rightarrow> int" where
  "status_count db jid status = int (rowcount (\<lambda>i. it_job_id i = jid \<and> it_status i = status) (kd_items db))"

definition recount :: "kdb \<Rightarrow> job_row \<Rightarrow> job_row" where
  "recount db job = job\<lparr>jb_succeeded_items := status_count db (jb_id job) ''completed'',
     jb_skipped_items := status_count db (jb_id job) ''skipped'', jb_failed_items := status_count db (jb_id job) ''dead_letter'',
     jb_cancelled_items := status_count db (jb_id job) ''cancelled'',
     jb_processed_items := sum_list (map (status_count db (jb_id job)) TERMINAL_ITEM_STATUSES)\<rparr>"

definition settle_status :: "int \<Rightarrow> job_row \<Rightarrow> job_row" where
  "settle_status now job =
     (if jb_processed_items job = jb_total_items job then
        job\<lparr>jb_status := (if jb_cancel_requested job then ''cancelled''
             else if jb_failed_items job \<noteq> 0 then ''completed_with_errors'' else ''completed''),
            jb_completed_at := Some now\<rparr>
      else if jb_cancel_requested job then job\<lparr>jb_status := ''cancelling''\<rparr>
      else job\<lparr>jb_status := ''running''\<rparr>)"

text \<open>The manifest entry that a finished item commits.\<close>

definition manifest_id :: "kenv \<Rightarrow> string \<Rightarrow> string \<Rightarrow> string" where
  "manifest_id env sid path = stable_id env ''kman'' (sid @ [CHR 0x00] @ path)"

definition commit_item :: "kenv \<Rightarrow> string \<Rightarrow> kdb \<Rightarrow> item_row \<Rightarrow> kdb result" where
  "commit_item env jid db item =
     (let mid = manifest_id env (it_source_id item) (it_relative_path item);
        status = (if it_change_kind item = ''deleted'' then ''deleted'' else ''present'') in
      if list_ex (\<lambda>r. mf_id r = mid) (kd_manifest db)
      then Inr (db\<lparr>kd_manifest := update_where (\<lambda>r. mf_id r = mid)
        (\<lambda>r. r\<lparr>mf_source_revision := it_source_revision item, mf_status := status, mf_last_job_id := Some jid\<rparr>) (kd_manifest db)\<rparr>)
      else ebind (require (\<not> list_ex (\<lambda>r. mf_source_id r = it_source_id item \<and> mf_relative_path r = it_relative_path item)
          (kd_manifest db)) IntegrityError) (\<lambda>_.
        Inr (db\<lparr>kd_manifest := kd_manifest db @ [\<lparr>mf_id = mid, mf_source_id = it_source_id item,
          mf_relative_path = it_relative_path item, mf_source_revision = it_source_revision item, mf_status = status,
          mf_last_job_id = Some jid\<rparr>]\<rparr>)))"

definition plan_is_current :: "sync_row \<Rightarrow> plan_row \<Rightarrow> bool" where
  "plan_is_current sync plan = (sy_watermark sync = pl_base_watermark plan \<and> sy_adapter_id sync = pl_adapter_id plan
     \<and> sy_adapter_version sync = pl_adapter_version plan \<and> sy_adapter_checkpoint sync = pl_base_checkpoint plan)"

definition finished_items :: "kdb \<Rightarrow> string \<Rightarrow> item_row list" where
  "finished_items db jid = filter (\<lambda>i. it_job_id i = jid \<and> it_status i \<in> {''completed'', ''skipped''}) (kd_items db)"

definition advance_sync :: "int \<Rightarrow> plan_row \<Rightarrow> string \<Rightarrow> sync_row \<Rightarrow> sync_row" where
  "advance_sync now plan jid sync = sync\<lparr>sy_watermark := pl_target_watermark plan, sy_manifest_hash := pl_manifest_hash plan,
     sy_adapter_checkpoint := pl_target_checkpoint plan, sy_resume_cursor := None, sy_scan_status := ''idle'',
     sy_last_error_code := None, sy_last_error_message := None, sy_last_scan_completed_at := Some now,
     sy_last_plan_id := Some (pl_id plan), sy_last_job_id := Some jid\<rparr>"

definition mark_plan :: "plan_row \<Rightarrow> string \<Rightarrow> kdb \<Rightarrow> kdb" where
  "mark_plan plan status db = upd_sync (pl_source_id plan) (\<lambda>s. s\<lparr>sy_scan_status := status\<rparr>)
     (upd_plan (pl_id plan) (\<lambda>p. p\<lparr>pl_status := status\<rparr>) db)"

text \<open>The part of \<open>_finalize_sync_plan\<close> for a plan that is still open.\<close>

definition settle_plan :: "kenv \<Rightarrow> int \<Rightarrow> kdb \<Rightarrow> job_row \<Rightarrow> plan_row \<Rightarrow> kdb result" where
  "settle_plan env now db job plan =
     ebind (ensure_sync db (pl_source_id plan)) (\<lambda>(db1, sync).
     if jb_status job = ''completed'' then
       if \<not> plan_is_current sync plan
       then Inr (upd_job (jb_id job) (\<lambda>j. j\<lparr>jb_status := ''completed_with_errors''\<rparr>) (mark_plan plan ''conflict'' db1))
       else ebind (efold (commit_item env (jb_id job)) db1 (finished_items db1 (jb_id job))) (\<lambda>db2.
         Inr (upd_plan (pl_id plan) (\<lambda>p. p\<lparr>pl_status := ''completed''\<rparr>)
           (upd_sync (pl_source_id plan) (advance_sync now plan (jb_id job)) db2)))
     else if jb_status job = ''cancelled'' then Inr (mark_plan plan ''cancelled'' db1)
     else Inr (mark_plan plan ''retryable'' db1))"

definition finalize_sync_plan :: "kenv \<Rightarrow> int \<Rightarrow> kdb \<Rightarrow> job_row \<Rightarrow> kdb result" where
  "finalize_sync_plan env now db job =
     (if \<not> truthy (jb_sync_plan_id job) then Inr db
      else case get_plan db (the (jb_sync_plan_id job)) of
        None \<Rightarrow> Inr db
      | Some plan \<Rightarrow>
          if pl_status plan \<in> {''completed'', ''cancelled'', ''conflict''} then Inr db
          else settle_plan env now db job plan)"

definition refresh_job :: "kenv \<Rightarrow> int \<Rightarrow> kdb \<Rightarrow> string \<Rightarrow> kdb result" where
  "refresh_job env now db jid =
     ebind (found jid (find_job db jid)) (\<lambda>job.
     let job1 = settle_status now (recount db job); db1 = upd_job jid (\<lambda>j. settle_status now (recount db j)) db in
     ebind (if jb_status job1 \<noteq> jb_status job
         then append_job_event env now db1 jid ''job'' (jb_status job1) None
           [(''processed_items'', PInt (jb_processed_items job1)), (''total_items'', PInt (jb_total_items job1))]
         else Inr db1) (\<lambda>db2.
     if truthy (jb_sync_plan_id job1) \<and> jb_status job1 \<in> set TERMINAL_JOB_STATUSES
     then finalize_sync_plan env now db2 job1 else Inr db2))"

section \<open>Views\<close>

record job_view =
  jv_job_id :: string
  jv_workspace_id :: string
  jv_source_root_id :: string
  jv_source_kind :: string
  jv_source_label :: string
  jv_relative_directory :: string
  jv_pipeline_version :: string
  jv_status :: string
  jv_cancel_requested :: bool
  jv_total_items :: int
  jv_processed_items :: int
  jv_succeeded_items :: int
  jv_skipped_items :: int
  jv_failed_items :: int
  jv_cancelled_items :: int
  jv_latest_sequence :: int
  jv_created_at :: int
  jv_started_at :: "int option"
  jv_completed_at :: "int option"
  jv_sync_plan_id :: "string option"

definition job_view_of :: "kdb \<Rightarrow> job_row \<Rightarrow> job_view result" where
  "job_view_of db job =
     ebind (found (jb_source_id job) (get_source db (jb_source_id job))) (\<lambda>source.
     Inr \<lparr>jv_job_id = jb_id job, jv_workspace_id = jb_workspace_id job, jv_source_root_id = ks_root_id source,
       jv_source_kind = ks_kind source, jv_source_label = ks_label source, jv_relative_directory = jb_relative_directory job,
       jv_pipeline_version = jb_pipeline_version job, jv_status = jb_status job, jv_cancel_requested = jb_cancel_requested job,
       jv_total_items = jb_total_items job, jv_processed_items = jb_processed_items job,
       jv_succeeded_items = jb_succeeded_items job, jv_skipped_items = jb_skipped_items job,
       jv_failed_items = jb_failed_items job, jv_cancelled_items = jb_cancelled_items job,
       jv_latest_sequence = jb_event_sequence job, jv_created_at = jb_created_at job, jv_started_at = jb_started_at job,
       jv_completed_at = jb_completed_at job, jv_sync_plan_id = jb_sync_plan_id job\<rparr>)"

record item_view =
  iv_item_id :: string
  iv_job_id :: string
  iv_relative_path :: string
  iv_source_revision :: string
  iv_change_kind :: string
  iv_status :: string
  iv_attempts :: int
  iv_max_attempts :: int
  iv_proposal_id :: "string option"
  iv_error :: "string option"
  iv_next_attempt_at :: "int option"

definition item_view_of :: "item_row \<Rightarrow> item_view" where
  "item_view_of item = \<lparr>iv_item_id = it_id item, iv_job_id = it_job_id item, iv_relative_path = it_relative_path item,
     iv_source_revision = it_source_revision item, iv_change_kind = it_change_kind item, iv_status = it_status item,
     iv_attempts = it_attempts item, iv_max_attempts = it_max_attempts item, iv_proposal_id = it_proposal_id item,
     iv_error = it_error item, iv_next_attempt_at = it_next_attempt_at item\<rparr>"

record plan_view =
  pv_plan_id :: string
  pv_workspace_id :: string
  pv_source_root_id :: string
  pv_relative_directory :: string
  pv_pipeline_version :: string
  pv_adapter_id :: string
  pv_adapter_version :: string
  pv_base_checkpoint :: "string option"
  pv_target_checkpoint :: "string option"
  pv_base_watermark :: int
  pv_target_watermark :: int
  pv_manifest_hash :: string
  pv_status :: string
  pv_changes :: "sync_change list"
  pv_created_at :: int

definition sync_plan_view :: "plan_row \<Rightarrow> string \<Rightarrow> plan_view" where
  "sync_plan_view plan source_root_id = \<lparr>pv_plan_id = pl_id plan, pv_workspace_id = pl_workspace_id plan,
     pv_source_root_id = source_root_id, pv_relative_directory = pl_relative_directory plan,
     pv_pipeline_version = pl_pipeline_version plan, pv_adapter_id = pl_adapter_id plan,
     pv_adapter_version = pl_adapter_version plan, pv_base_checkpoint = pl_base_checkpoint plan,
     pv_target_checkpoint = pl_target_checkpoint plan, pv_base_watermark = pl_base_watermark plan,
     pv_target_watermark = pl_target_watermark plan, pv_manifest_hash = pl_manifest_hash plan, pv_status = pl_status plan,
     pv_changes = pl_changes plan, pv_created_at = pl_created_at plan\<rparr>"

record sync_state_view =
  sv_source_root_id :: string
  sv_adapter_id :: string
  sv_adapter_version :: string
  sv_watermark :: int
  sv_adapter_checkpoint :: "string option"
  sv_scan_status :: string
  sv_last_error_code :: "string option"
  sv_last_error_message :: "string option"
  sv_last_scan_started_at :: "int option"
  sv_last_scan_completed_at :: "int option"

definition source_sync_state_view :: "source_row \<Rightarrow> sync_row \<Rightarrow> sync_state_view" where
  "source_sync_state_view source sync = \<lparr>sv_source_root_id = ks_root_id source, sv_adapter_id = sy_adapter_id sync,
     sv_adapter_version = sy_adapter_version sync, sv_watermark = sy_watermark sync,
     sv_adapter_checkpoint = sy_adapter_checkpoint sync, sv_scan_status = sy_scan_status sync,
     sv_last_error_code = sy_last_error_code sync, sv_last_error_message = sy_last_error_message sync,
     sv_last_scan_started_at = sy_last_scan_started_at sync, sv_last_scan_completed_at = sy_last_scan_completed_at sync\<rparr>"

section \<open>Sources, plans and jobs\<close>

definition ensure_workspace ::
  "kenv \<Rightarrow> kdb \<Rightarrow> string \<Rightarrow> string \<Rightarrow> string \<Rightarrow> string \<Rightarrow> string \<Rightarrow> string \<Rightarrow> string \<Rightarrow> (kdb \<times> string) result" where
  "ensure_workspace env db workspace_id workspace_name root_id kind label adapter_id adapter_version =
     (let sid = stable_id env ''ksrc'' (workspace_id @ [CHR 0x00] @ root_id);
        db1 = db\<lparr>kd_workspaces := (if list_ex (\<lambda>r. kw_id r = workspace_id) (kd_workspaces db)
          then update_where (\<lambda>r. kw_id r = workspace_id) (\<lambda>r. r\<lparr>kw_name := workspace_name\<rparr>) (kd_workspaces db)
          else kd_workspaces db @ [\<lparr>kw_id = workspace_id, kw_name = workspace_name\<rparr>])\<rparr> in
      ebind (case get_source db1 sid of
          Some _ \<Rightarrow> Inr (db1\<lparr>kd_sources := update_where (\<lambda>r. ks_id r = sid)
            (\<lambda>r. r\<lparr>ks_kind := kind, ks_label := label\<rparr>) (kd_sources db1)\<rparr>)
        | None \<Rightarrow> ebind (require (\<not> list_ex (\<lambda>r. ks_workspace_id r = workspace_id \<and> ks_root_id r = root_id) (kd_sources db1))
            IntegrityError) (\<lambda>_. Inr (db1\<lparr>kd_sources := kd_sources db1 @ [\<lparr>ks_id = sid, ks_workspace_id = workspace_id,
              ks_root_id = root_id, ks_kind = kind, ks_label = label\<rparr>]\<rparr>))) (\<lambda>db2.
      case get_sync db2 sid of
        None \<Rightarrow> Inr (db2\<lparr>kd_syncs := kd_syncs db2 @
          [(new_sync sid)\<lparr>sy_adapter_id := adapter_id, sy_adapter_version := adapter_version\<rparr>]\<rparr>, sid)
      | Some sync \<Rightarrow>
          ebind (require (\<not> (sy_adapter_id sync \<noteq> [] \<and> sy_adapter_id sync \<noteq> adapter_id))
            (JobConflict ''knowledge source adapter binding cannot be changed'')) (\<lambda>_.
          Inr (upd_sync sid (\<lambda>s. s\<lparr>sy_adapter_id := adapter_id, sy_adapter_version := adapter_version\<rparr>) db2, sid))))"

definition insert_item :: "kenv \<Rightarrow> int \<Rightarrow> string \<Rightarrow> string \<Rightarrow> int \<Rightarrow> kdb \<Rightarrow> scanned_file \<Rightarrow> kdb result" where
  "insert_item env now jid sid max_attempts db scanned =
     (let iid = random_id env ''kitem'' db in
      ebind (require (\<not> list_ex (\<lambda>i. it_id i = iid \<or> it_job_id i = jid \<and> it_relative_path i = sf_relative_path scanned)
          (kd_items db)) IntegrityError) (\<lambda>_.
      Inr (db\<lparr>kd_drawn := Suc (kd_drawn db), kd_items := kd_items db @ [\<lparr>it_id = iid, it_job_id = jid, it_source_id = sid,
        it_relative_path = sf_relative_path scanned, it_source_revision = sf_source_revision scanned,
        it_change_kind = sf_change_kind scanned, it_idempotency_key = sf_idempotency_key scanned, it_status = ''queued'',
        it_attempts = 0, it_max_attempts = max_attempts, it_lease_owner = None, it_lease_expires_at = None,
        it_next_attempt_at = None, it_proposal_id = None, it_error = None, it_created_at = now\<rparr>]\<rparr>)))"

text \<open>The plan check of \<open>_create_job\<close>: the job that already runs the plan, or the database with the plan running.\<close>

definition start_plan :: "kdb \<Rightarrow> string \<Rightarrow> (job_row + kdb) result" where
  "start_plan db pid = (case get_plan db pid of
     None \<Rightarrow> Inl (JobConflict ''knowledge sync plan not found'')
   | Some plan \<Rightarrow> (case fetchone (\<lambda>j. jb_sync_plan_id j = Some pid) (kd_jobs db) of
       Some existing \<Rightarrow> Inr (Inl existing)
     | None \<Rightarrow> ebind (ensure_sync db (pl_source_id plan)) (\<lambda>(db1, sync).
         ebind (require (pl_status plan = ''planned'' \<and> plan_is_current sync plan) (JobConflict ''knowledge sync plan is stale''))
           (\<lambda>_. Inr (Inr (mark_plan plan ''running'' db1))))))"

definition new_job ::
  "string \<Rightarrow> int \<Rightarrow> string \<Rightarrow> string \<Rightarrow> string option \<Rightarrow> string \<Rightarrow> string \<Rightarrow> int \<Rightarrow> job_row" where
  "new_job jid now workspace_id sid plan_id directory version n_items =
     \<lparr>jb_id = jid, jb_workspace_id = workspace_id, jb_source_id = sid, jb_sync_plan_id = plan_id,
      jb_relative_directory = directory, jb_pipeline_version = version, jb_status = ''queued'', jb_cancel_requested = False,
      jb_event_sequence = 0, jb_total_items = n_items, jb_processed_items = 0, jb_succeeded_items = 0, jb_skipped_items = 0,
      jb_failed_items = 0, jb_cancelled_items = 0, jb_created_at = now, jb_started_at = None, jb_completed_at = None\<rparr>"

definition insert_job ::
  "kenv \<Rightarrow> int \<Rightarrow> kdb \<Rightarrow> string \<Rightarrow> string \<Rightarrow> string \<Rightarrow> string option \<Rightarrow> string \<Rightarrow> string \<Rightarrow> scanned_file list \<Rightarrow> int \<Rightarrow> kdb result" where
  "insert_job env now db jid workspace_id sid plan_id directory version files max_attempts =
     ebind (require (list_ex (\<lambda>w. kw_id w = workspace_id) (kd_workspaces db) \<and> get_source db sid \<noteq> None
       \<and> \<not> list_ex (\<lambda>j. jb_id j = jid \<or> plan_id \<noteq> None \<and> jb_sync_plan_id j = plan_id) (kd_jobs db)) IntegrityError) (\<lambda>_.
     ebind (efold (insert_item env now jid sid max_attempts)
       (db\<lparr>kd_jobs := kd_jobs db @ [new_job jid now workspace_id sid plan_id directory version (int (length files))]\<rparr>) files)
       (\<lambda>db1.
     ebind (append_job_event env now db1 jid ''job'' ''queued'' None [(''total_items'', PInt (int (length files)))]) (\<lambda>db2.
     if files = [] then refresh_job env now db2 jid else Inr db2)))"

definition create_job ::
  "kenv \<Rightarrow> int \<Rightarrow> kdb \<Rightarrow> string \<Rightarrow> string \<Rightarrow> string \<Rightarrow> string \<Rightarrow> scanned_file list \<Rightarrow> int \<Rightarrow> string option \<Rightarrow>
   (kdb \<times> job_view) result" where
  "create_job env now db workspace_id sid directory version files max_attempts plan_id =
     (let jid = random_id env ''kjob'' db; db0 = db\<lparr>kd_drawn := Suc (kd_drawn db)\<rparr> in
      ebind (case plan_id of None \<Rightarrow> Inr (Inr db0) | Some pid \<Rightarrow> start_plan db0 pid) (\<lambda>r.
      case r of
        Inl existing \<Rightarrow> ebind (job_view_of db0 existing) (\<lambda>v. Inr (db0, v))
      | Inr db1 \<Rightarrow>
          ebind (insert_job env now db1 jid workspace_id sid plan_id directory version files max_attempts) (\<lambda>db2.
          ebind (found jid (find_job db2 jid)) (\<lambda>job.
          ebind (job_view_of db2 job) (\<lambda>v. Inr (db2, v))))))"

definition get_manifest :: "kdb \<Rightarrow> string \<Rightarrow> int \<times> manifest \<times> string" where
  "get_manifest db sid =
     ((case get_sync db sid of Some s \<Rightarrow> sy_watermark s | None \<Rightarrow> 0),
      map (\<lambda>r. (mf_relative_path r, mf_source_revision r, mf_status r)) (filter (\<lambda>r. mf_source_id r = sid) (kd_manifest db)),
      (case get_sync db sid of Some s \<Rightarrow> sy_manifest_hash s | None \<Rightarrow> []))"

definition get_source_sync_state :: "kdb \<Rightarrow> string \<Rightarrow> sync_state_view result" where
  "get_source_sync_state db sid = (case (get_source db sid, get_sync db sid) of
     (Some source, Some sync) \<Rightarrow> Inr (source_sync_state_view source sync)
   | _ \<Rightarrow> Inl (JobNotFound sid))"

definition list_source_sync_states :: "kdb \<Rightarrow> string \<Rightarrow> sync_state_view list" where
  "list_source_sync_states db workspace_id =
     List.map_filter (\<lambda>source. map_option (source_sync_state_view source) (get_sync db (ks_id source)))
       (sort_key ks_label (sort_key ks_root_id (filter (\<lambda>r. ks_workspace_id r = workspace_id) (kd_sources db))))"

definition begin_source_scan :: "int \<Rightarrow> kdb \<Rightarrow> string \<Rightarrow> string \<Rightarrow> string \<Rightarrow> (kdb \<times> sync_state_view) result" where
  "begin_source_scan now db sid adapter_id adapter_version = (case (get_source db sid, get_sync db sid) of
     (Some source, Some sync) \<Rightarrow>
       ebind (require (sy_adapter_id sync = adapter_id) (JobConflict ''knowledge source adapter binding changed'')) (\<lambda>_.
       let f = (\<lambda>s. s\<lparr>sy_adapter_version := adapter_version, sy_resume_cursor := None, sy_scan_status := ''scanning'',
         sy_last_error_code := None, sy_last_error_message := None, sy_last_scan_started_at := Some now\<rparr>) in
       Inr (upd_sync sid f db, source_sync_state_view source (f sync)))
   | _ \<Rightarrow> Inl (JobNotFound sid))"

definition record_source_scan_page :: "kdb \<Rightarrow> string \<Rightarrow> string \<Rightarrow> string \<Rightarrow> string option \<Rightarrow> kdb result" where
  "record_source_scan_page db sid adapter_id adapter_version cursor =
     ebind (found sid (get_sync db sid)) (\<lambda>sync.
     ebind (require (sy_adapter_id sync = adapter_id \<and> sy_adapter_version sync = adapter_version)
       (JobConflict ''knowledge source adapter binding changed'')) (\<lambda>_.
     Inr (upd_sync sid (\<lambda>s. s\<lparr>sy_resume_cursor := cursor, sy_scan_status := ''scanning''\<rparr>) db)))"

definition record_source_scan_failure :: "kdb \<Rightarrow> string \<Rightarrow> string \<Rightarrow> string \<Rightarrow> kdb result" where
  "record_source_scan_failure db sid error_code error_message =
     ebind (found sid (get_sync db sid)) (\<lambda>_.
     Inr (upd_sync sid (\<lambda>s. s\<lparr>sy_scan_status := ''failed'', sy_last_error_code := Some (take 64 error_code),
       sy_last_error_message := Some (take 1000 error_message)\<rparr>) db))"

definition new_plan ::
  "int \<Rightarrow> string \<Rightarrow> sync_scope \<Rightarrow> string \<Rightarrow> string \<Rightarrow> string \<Rightarrow> string option \<Rightarrow> string \<Rightarrow> int \<Rightarrow> string \<Rightarrow> sync_change list \<Rightarrow> plan_row" where
  "new_plan now plan_id sc sid adapter_id adapter_version base_checkpoint target_checkpoint base_watermark manifest_hash changes =
     \<lparr>pl_id = plan_id, pl_workspace_id = sc_workspace_id sc, pl_source_id = sid,
      pl_relative_directory = sc_relative_directory sc, pl_pipeline_version = sc_pipeline_version sc,
      pl_adapter_id = adapter_id, pl_adapter_version = adapter_version, pl_base_checkpoint = base_checkpoint,
      pl_target_checkpoint = Some target_checkpoint, pl_base_watermark = base_watermark,
      pl_target_watermark = base_watermark + (if changes \<noteq> [] then 1 else 0), pl_manifest_hash = manifest_hash,
      pl_changes = changes, pl_status = ''planned'', pl_created_at = now\<rparr>"

definition create_sync_plan ::
  "kenv \<Rightarrow> int \<Rightarrow> kdb \<Rightarrow> sync_scope \<Rightarrow> string \<Rightarrow> string \<Rightarrow> string \<Rightarrow> string option \<Rightarrow> string \<Rightarrow> int \<Rightarrow> string \<Rightarrow>
   sync_change list \<Rightarrow> (kdb \<times> plan_view) result" where
  "create_sync_plan env now db sc sid adapter_id adapter_version base_checkpoint target_checkpoint base_watermark
       manifest_hash changes =
     ebind (build_plan_id (sync_env.truncate env) sc base_watermark changes adapter_id adapter_version base_checkpoint
       (Some target_checkpoint)) (\<lambda>(plan_id, _).
     ebind (ensure_sync db sid) (\<lambda>(db1, sync).
     case get_plan db1 plan_id of
       Some existing \<Rightarrow> Inr (upd_sync sid (\<lambda>s. s\<lparr>sy_resume_cursor := None, sy_scan_status := pl_status existing\<rparr>) db1,
         sync_plan_view existing (sc_source_root_id sc))
     | None \<Rightarrow>
         ebind (require (sy_watermark sync = base_watermark \<and> sy_adapter_id sync = adapter_id
             \<and> sy_adapter_checkpoint sync = base_checkpoint)
           (JobConflict ''knowledge source changed while planning sync'')) (\<lambda>_.
         ebind (require (list_ex (\<lambda>w. kw_id w = sc_workspace_id sc) (kd_workspaces db1) \<and> get_source db1 sid \<noteq> None)
           IntegrityError) (\<lambda>_.
         let plan = new_plan now plan_id sc sid adapter_id adapter_version base_checkpoint target_checkpoint base_watermark
           manifest_hash changes in
         Inr (upd_sync sid (\<lambda>s. s\<lparr>sy_resume_cursor := None, sy_scan_status := ''planned''\<rparr>)
             (db1\<lparr>kd_plans := kd_plans db1 @ [plan]\<rparr>), sync_plan_view plan (sc_source_root_id sc))))))"

definition get_sync_plan :: "kdb \<Rightarrow> string \<Rightarrow> plan_view result" where
  "get_sync_plan db plan_id =
     ebind (found plan_id (get_plan db plan_id)) (\<lambda>plan.
     ebind (found (pl_source_id plan) (get_source db (pl_source_id plan))) (\<lambda>source.
     Inr (sync_plan_view plan (ks_root_id source))))"

definition get_job :: "kdb \<Rightarrow> string \<Rightarrow> job_view result" where
  "get_job db jid = ebind (found jid (find_job db jid)) (job_view_of db)"

definition list_jobs :: "kdb \<Rightarrow> nat \<Rightarrow> job_view list result" where
  "list_jobs db limit = emap (job_view_of db) (take limit (sort_key (\<lambda>j. - jb_created_at j) (kd_jobs db)))"

definition list_items :: "kdb \<Rightarrow> string \<Rightarrow> string list \<Rightarrow> nat option \<Rightarrow> item_view list result" where
  "list_items db jid statuses limit =
     ebind (found jid (find_job db jid)) (\<lambda>_.
     let rows = sort_key it_relative_path (filter (\<lambda>i. it_job_id i = jid \<and> (statuses = [] \<or> it_status i \<in> set statuses))
           (kd_items db)) in
     Inr (map item_view_of (case limit of None \<Rightarrow> rows | Some n \<Rightarrow> take n rows)))"

definition list_events :: "kdb \<Rightarrow> string \<Rightarrow> int \<Rightarrow> nat \<Rightarrow> job_event_row list result" where
  "list_events db jid after limit =
     ebind (found jid (find_job db jid)) (\<lambda>_.
     Inr (take limit (sort_key je_sequence (filter (\<lambda>e. je_job_id e = jid \<and> after < je_sequence e) (kd_events db)))))"

section \<open>Working on items\<close>

definition locked_item_and_job :: "kdb \<Rightarrow> string \<Rightarrow> (item_row \<times> job_row) result" where
  "locked_item_and_job db iid =
     ebind (found iid (find_item db iid)) (\<lambda>item.
     ebind (found (it_job_id item) (find_job db (it_job_id item))) (\<lambda>job. Inr (item, job)))"

definition owns_lease :: "item_row \<Rightarrow> string \<Rightarrow> bool" where
  "owns_lease item worker_id = (it_lease_owner item = Some worker_id \<and> it_status item \<in> set LEASED_STATUSES)"

definition require_lease :: "item_row \<Rightarrow> string \<Rightarrow> unit result" where
  "require_lease item worker_id = require (owns_lease item worker_id) (JobConflict ''knowledge item lease is not owned'')"

text \<open>The prologue of every worker operation: the item and its job, with the lease checked.\<close>

definition leased_item :: "kdb \<Rightarrow> string \<Rightarrow> string \<Rightarrow> (item_row \<times> job_row) result" where
  "leased_item db iid worker_id =
     ebind (locked_item_and_job db iid) (\<lambda>(item, job). ebind (require_lease item worker_id) (\<lambda>_. Inr (item, job)))"

definition path_detail :: "item_row \<Rightarrow> (string \<times> pyval) list" where
  "path_detail item = [(''relative_path'', PStr (it_relative_path item))]"

definition get_external_parse_state :: "kdb \<Rightarrow> string \<Rightarrow> external_row option" where
  "get_external_parse_state db iid = find_external db iid"

text \<open>The ticket row after \<open>defer_external_parse\<close>; a ticket of another item with the same task is a conflict.\<close>

definition store_ticket :: "int \<Rightarrow> kdb \<Rightarrow> string \<Rightarrow> string \<Rightarrow> string \<Rightarrow> string \<Rightarrow> string \<Rightarrow> kdb result" where
  "store_ticket now db iid adapter_id adapter_version task_id state =
     (let ticket = \<lparr>ex_item_id = iid, ex_adapter_id = adapter_id, ex_adapter_version = adapter_version, ex_task_id = task_id,
            ex_state = state, ex_submitted_at = now\<rparr>;
        unique = require (\<not> list_ex (\<lambda>r. ex_item_id r \<noteq> iid \<and> ex_adapter_id r = adapter_id \<and> ex_task_id r = task_id)
          (kd_externals db)) IntegrityError in
      case find_external db iid of
        None \<Rightarrow> ebind unique (\<lambda>_. Inr (db\<lparr>kd_externals := kd_externals db @ [ticket]\<rparr>))
      | Some r \<Rightarrow>
          if ex_adapter_id r = adapter_id \<and> ex_adapter_version r = adapter_version \<and> ex_task_id r = task_id
          then Inr (set_external_state iid state db)
          else if ex_state r \<in> set EXTERNAL_TERMINAL_STATES
          then ebind unique (\<lambda>_. Inr (db\<lparr>kd_externals := update_where (\<lambda>r. ex_item_id r = iid) (\<lambda>_. ticket) (kd_externals db)\<rparr>))
          else Inl (JobConflict ''external parser ticket changed while active''))"

definition deferred_row :: "int \<Rightarrow> item_row \<Rightarrow> item_row" where
  "deferred_row next_attempt item = item\<lparr>it_status := ''external_wait'', it_lease_owner := None, it_lease_expires_at := None,
     it_next_attempt_at := Some next_attempt\<rparr>"

definition defer_external_parse ::
  "kenv \<Rightarrow> int \<Rightarrow> kdb \<Rightarrow> string \<Rightarrow> string \<Rightarrow> string \<Rightarrow> string \<Rightarrow> string \<Rightarrow> string \<Rightarrow> int \<Rightarrow> kdb result" where
  "defer_external_parse env now db iid worker_id adapter_id adapter_version task_id state retry_after =
     ebind (require (0 < retry_after \<and> retry_after \<le> 300 * 1000000)
       (ValueError ''external parser retry delay must be between 0 and 300 seconds'')) (\<lambda>_.
     ebind (require (state \<in> {''queued'', ''running''}) (ValueError ''external parser wait state is invalid'')) (\<lambda>_.
     ebind (require (adapter_id \<noteq> [] \<and> adapter_version \<noteq> [] \<and> task_id \<noteq> []) (ValueError ''external parser ticket is incomplete'')) (\<lambda>_.
     ebind (require (length adapter_id \<le> 64 \<and> length adapter_version \<le> 64 \<and> length task_id \<le> 128)
       (ValueError ''external parser ticket exceeds storage limits'')) (\<lambda>_.
     ebind (leased_item db iid worker_id) (\<lambda>(item, job).
     ebind (require (it_status item = ''parsing'') (JobConflict ''external parser wait requires parsing status'')) (\<lambda>_.
     ebind (store_ticket now db iid adapter_id adapter_version task_id state) (\<lambda>db1.
     ebind (append_job_event env now (upd_item iid (deferred_row (now + retry_after)) db1)
         (jb_id job) ''item'' ''external_wait'' (Some iid)
         (path_detail item @ [(''adapter_id'', PStr adapter_id), (''adapter_version'', PStr adapter_version),
           (''parser_state'', PStr state)])) (\<lambda>db2.
     refresh_job env now db2 (jb_id job)))))))))"

definition mark_external_parse_terminal ::
  "kenv \<Rightarrow> int \<Rightarrow> kdb \<Rightarrow> string \<Rightarrow> string \<Rightarrow> string \<Rightarrow> string option \<Rightarrow> kdb result" where
  "mark_external_parse_terminal env now db iid worker_id state reason_code =
     ebind (require (state \<in> set EXTERNAL_TERMINAL_STATES) (ValueError ''external parser terminal state is invalid'')) (\<lambda>_.
     ebind (leased_item db iid worker_id) (\<lambda>(item, job).
     case find_external db iid of
       None \<Rightarrow> Inr db
     | Some r \<Rightarrow> append_job_event env now (set_external_state iid state db) (jb_id job) ''parser'' state (Some iid)
         (path_detail item @ [(''adapter_id'', PStr (ex_adapter_id r)), (''adapter_version'', PStr (ex_adapter_version r)),
           (''reason_code'', opt_str reason_code)])))"

definition ready_at :: "int \<Rightarrow> item_row \<Rightarrow> bool" where
  "ready_at now item = (it_status item \<in> set READY_STATUSES
     \<and> (case it_next_attempt_at item of None \<Rightarrow> True | Some t \<Rightarrow> t \<le> now))"

definition ready_item_ids :: "int \<Rightarrow> kdb \<Rightarrow> nat \<Rightarrow> string list" where
  "ready_item_ids now db limit = map it_id (take limit (sort_key it_created_at
     (filter (\<lambda>i. ready_at now i \<and> list_ex (\<lambda>j. jb_id j = it_job_id i \<and> \<not> jb_cancel_requested j) (kd_jobs db)) (kd_items db))))"

definition claim_row :: "int \<Rightarrow> string \<Rightarrow> int \<Rightarrow> item_row \<Rightarrow> item_row" where
  "claim_row now worker_id lease item = item\<lparr>it_status := ''claimed'',
     it_attempts := it_attempts item + (if it_status item \<noteq> ''external_wait'' then 1 else 0), it_lease_owner := Some worker_id,
     it_lease_expires_at := Some (now + lease), it_next_attempt_at := None, it_error := None\<rparr>"

definition claim_item ::
  "kenv \<Rightarrow> int \<Rightarrow> kdb \<Rightarrow> string \<Rightarrow> string \<Rightarrow> int \<Rightarrow> (kdb \<times> item_view option) result" where
  "claim_item env now db iid worker_id lease = (case find_item db iid of
     None \<Rightarrow> Inr (db, None)
   | Some item \<Rightarrow> (case find_job db (it_job_id item) of
       None \<Rightarrow> Inr (db, None)
     | Some job \<Rightarrow>
         if jb_cancel_requested job \<or> \<not> ready_at now item then Inr (db, None)
         else
           let claimed = claim_row now worker_id lease item;
             db1 = upd_job (jb_id job) (\<lambda>j. j\<lparr>jb_started_at := (if jb_started_at j = None then Some now else jb_started_at j),
               jb_status := ''running''\<rparr>) (upd_item iid (claim_row now worker_id lease) db) in
           ebind (append_job_event env now db1 (jb_id job) ''item'' ''claimed'' (Some iid)
             (path_detail item @ [(''attempt'', PInt (it_attempts claimed))])) (\<lambda>db2.
           Inr (db2, Some (item_view_of claimed)))))"

definition heartbeat :: "int \<Rightarrow> kdb \<Rightarrow> string \<Rightarrow> string \<Rightarrow> int \<Rightarrow> kdb \<times> bool" where
  "heartbeat now db iid worker_id lease = (case find_item db iid of
     None \<Rightarrow> (db, False)
   | Some item \<Rightarrow>
       if \<not> owns_lease item worker_id then (db, False)
       else (upd_item iid (\<lambda>i. i\<lparr>it_lease_expires_at := Some (now + lease)\<rparr>) db, True))"

text \<open>\<open>start_parsing\<close>, \<open>start_applying\<close> and \<open>start_understanding\<close> differ only in the status they set.\<close>

definition start_stage :: "string \<Rightarrow> kenv \<Rightarrow> int \<Rightarrow> kdb \<Rightarrow> string \<Rightarrow> string \<Rightarrow> kdb result" where
  "start_stage stage env now db iid worker_id =
     ebind (leased_item db iid worker_id) (\<lambda>(item, job).
     ebind (require (\<not> jb_cancel_requested job) (JobConflict ''job cancellation requested'')) (\<lambda>_.
     append_job_event env now (upd_item iid (\<lambda>i. i\<lparr>it_status := stage\<rparr>) db) (jb_id job) ''item'' stage (Some iid)
       (path_detail item)))"

definition start_parsing :: "kenv \<Rightarrow> int \<Rightarrow> kdb \<Rightarrow> string \<Rightarrow> string \<Rightarrow> kdb result" where
  "start_parsing = start_stage ''parsing''"

definition start_applying :: "kenv \<Rightarrow> int \<Rightarrow> kdb \<Rightarrow> string \<Rightarrow> string \<Rightarrow> kdb result" where
  "start_applying = start_stage ''applying''"

definition start_understanding :: "kenv \<Rightarrow> int \<Rightarrow> kdb \<Rightarrow> string \<Rightarrow> string \<Rightarrow> kdb result" where
  "start_understanding = start_stage ''understanding''"

definition opt_int :: "int option \<Rightarrow> pyval" where
  "opt_int v = (case v of None \<Rightarrow> PNone | Some n \<Rightarrow> PInt n)"

definition record_parser_progress ::
  "kenv \<Rightarrow> int \<Rightarrow> kdb \<Rightarrow> string \<Rightarrow> string \<Rightarrow> string \<Rightarrow> string \<Rightarrow> string \<Rightarrow> int option \<Rightarrow> int option \<Rightarrow> string option \<Rightarrow> kdb result" where
  "record_parser_progress env now db iid worker_id adapter_id adapter_version stage completed_units total_units reason_code =
     ebind (leased_item db iid worker_id) (\<lambda>(item, job).
     ebind (require (it_status item = ''parsing'') (JobConflict ''parser progress requires parsing status'')) (\<lambda>_.
     append_job_event env now db (jb_id job) ''parser'' stage (Some iid)
       (path_detail item @ [(''adapter_id'', PStr adapter_id), (''adapter_version'', PStr adapter_version),
         (''completed_units'', opt_int completed_units), (''total_units'', opt_int total_units),
         (''reason_code'', opt_str reason_code)])))"

text \<open>
  \<open>claim_idempotency\<close>: the branch on \<open>IntegrityError\<close> after a concurrent insert reads the winner's row
  and continues as if it had been there, which is the run after the winner's transaction.
\<close>

datatype key_claim = Acquired | Duplicate "string option" | Busy

definition claim_idempotency :: "kdb \<Rightarrow> string \<Rightarrow> (kdb \<times> key_claim) result" where
  "claim_idempotency db iid =
     ebind (found iid (find_item db iid)) (\<lambda>item.
     case find_key db (it_idempotency_key item) of
       None \<Rightarrow> Inr (db\<lparr>kd_keys := kd_keys db @ [\<lparr>ik_key = it_idempotency_key item, ik_owner_item_id = iid,
         ik_status = ''processing'', ik_proposal_id = None\<rparr>]\<rparr>, Acquired)
     | Some existing \<Rightarrow>
         if ik_status existing = ''completed'' then Inr (db, Duplicate (ik_proposal_id existing))
         else if ik_owner_item_id existing = iid then Inr (db, Acquired)
         else if ik_status existing = ''failed''
         then Inr (db\<lparr>kd_keys := update_where (\<lambda>r. ik_key r = it_idempotency_key item)
           (\<lambda>r. r\<lparr>ik_owner_item_id := iid, ik_status := ''processing'', ik_proposal_id := None\<rparr>) (kd_keys db)\<rparr>, Acquired)
         else Inr (db, Busy))"

text \<open>The assignments to the item row, one definition per operation that moves an item.\<close>

definition completed_row :: "bool \<Rightarrow> string option \<Rightarrow> item_row \<Rightarrow> item_row" where
  "completed_row skipped proposal_id item = item\<lparr>it_status := (if skipped then ''skipped'' else ''completed''),
     it_proposal_id := proposal_id, it_lease_owner := None, it_lease_expires_at := None\<rparr>"

definition complete_item :: "kenv \<Rightarrow> int \<Rightarrow> kdb \<Rightarrow> string \<Rightarrow> string \<Rightarrow> string option \<Rightarrow> bool \<Rightarrow> kdb result" where
  "complete_item env now db iid worker_id proposal_id skipped =
     ebind (leased_item db iid worker_id) (\<lambda>(item, job).
     let status = (if skipped then ''skipped'' else ''completed'');
       db1 = upd_item iid (completed_row skipped proposal_id) db;
       db2 = (if skipped then db1 else upd_owned_key item (\<lambda>k. k\<lparr>ik_status := ''completed'', ik_proposal_id := proposal_id\<rparr>) db1) in
     ebind (append_job_event env now db2 (jb_id job) ''item'' status (Some iid)
       (path_detail item @ [(''proposal_id'', opt_str proposal_id)])) (\<lambda>db3.
     refresh_job env now db3 (jb_id job)))"

definition failure_status :: "job_row \<Rightarrow> item_row \<Rightarrow> bool \<Rightarrow> string" where
  "failure_status job item retryable =
     (if jb_cancel_requested job then ''cancelled''
      else if retryable \<and> it_attempts item < it_max_attempts item then ''retry_wait'' else ''dead_letter'')"

definition fail_row :: "string \<Rightarrow> string \<Rightarrow> int option \<Rightarrow> item_row \<Rightarrow> item_row" where
  "fail_row status error next_attempt item = item\<lparr>it_error := Some (take 4000 error), it_lease_owner := None,
     it_lease_expires_at := None, it_status := status, it_next_attempt_at := next_attempt\<rparr>"

definition fail_item ::
  "kenv \<Rightarrow> int \<Rightarrow> kdb \<Rightarrow> string \<Rightarrow> string \<Rightarrow> string \<Rightarrow> int \<Rightarrow> string option \<Rightarrow> bool \<Rightarrow> kdb result" where
  "fail_item env now db iid worker_id error retry_delay error_code retryable =
     ebind (leased_item db iid worker_id) (\<lambda>(item, job).
     let status = failure_status job item retryable;
       db1 = upd_item iid (fail_row status error (if status = ''retry_wait'' then Some (now + retry_delay) else None)) db;
       db2 = (if status = ''retry_wait'' then db1
         else upd_owned_key item (\<lambda>k. k\<lparr>ik_status := ''failed''\<rparr>)
           (set_external_state iid (if status = ''cancelled'' then ''cancelled'' else ''failed'') db1)) in
     ebind (append_job_event env now db2 (jb_id job) ''item'' status (Some iid)
       (path_detail item @ [(''attempt'', PInt (it_attempts item)), (''error'', PStr (take 4000 error)),
         (''error_code'', opt_str error_code), (''retryable'', PBool retryable)])) (\<lambda>db3.
     refresh_job env now db3 (jb_id job)))"

section \<open>Cancellation, retry and recovery\<close>

definition cancelled_row :: "item_row \<Rightarrow> item_row" where
  "cancelled_row item = item\<lparr>it_status := ''cancelled'', it_next_attempt_at := None\<rparr>"

definition cancelled_claim_row :: "item_row \<Rightarrow> item_row" where
  "cancelled_claim_row item = item\<lparr>it_status := ''cancelled'', it_lease_owner := None, it_lease_expires_at := None\<rparr>"

definition retried_row :: "int \<Rightarrow> item_row \<Rightarrow> item_row" where
  "retried_row now item = item\<lparr>it_status := ''retry_wait'', it_attempts := 0, it_next_attempt_at := Some now, it_error := None\<rparr>"

definition recovered_row :: "int \<Rightarrow> bool \<Rightarrow> item_row \<Rightarrow> item_row" where
  "recovered_row now cancel_requested item = item\<lparr>it_status := (if cancel_requested then ''cancelled'' else ''retry_wait''),
     it_lease_owner := None, it_lease_expires_at := None, it_next_attempt_at := (if cancel_requested then None else Some now)\<rparr>"

definition cancel_one :: "kenv \<Rightarrow> int \<Rightarrow> string \<Rightarrow> kdb \<Rightarrow> item_row \<Rightarrow> kdb result" where
  "cancel_one env now jid db item =
     append_job_event env now (set_external_state (it_id item) ''cancelled''
         (upd_item (it_id item) cancelled_row db))
       jid ''item'' ''cancelled'' (Some (it_id item)) (path_detail item)"

definition cancel_job :: "kenv \<Rightarrow> int \<Rightarrow> kdb \<Rightarrow> string \<Rightarrow> (kdb \<times> job_view) result" where
  "cancel_job env now db jid =
     ebind (found jid (find_job db jid)) (\<lambda>job.
     ebind (require (jb_status job \<notin> set TERMINAL_JOB_STATUSES) (JobConflict ''knowledge job is already terminal'')) (\<lambda>_.
     let db1 = upd_job jid (\<lambda>j. j\<lparr>jb_cancel_requested := True, jb_status := ''cancelling''\<rparr>) db in
     ebind (efold (cancel_one env now jid) db1
       (filter (\<lambda>i. it_job_id i = jid \<and> it_status i \<in> set READY_STATUSES) (kd_items db1))) (\<lambda>db2.
     ebind (append_job_event env now db2 jid ''job'' ''cancelling'' None []) (\<lambda>db3.
     ebind (refresh_job env now db3 jid) (\<lambda>db4.
     ebind (found jid (find_job db4 jid)) (\<lambda>job'.
     ebind (job_view_of db4 job') (\<lambda>v. Inr (db4, v))))))))"

definition is_cancel_requested :: "kdb \<Rightarrow> string \<Rightarrow> bool" where
  "is_cancel_requested db iid = (case find_item db iid of
     None \<Rightarrow> False
   | Some item \<Rightarrow> (case find_job db (it_job_id item) of None \<Rightarrow> False | Some job \<Rightarrow> jb_cancel_requested job))"

definition cancel_claimed_item :: "kenv \<Rightarrow> int \<Rightarrow> kdb \<Rightarrow> string \<Rightarrow> string \<Rightarrow> kdb result" where
  "cancel_claimed_item env now db iid worker_id =
     ebind (leased_item db iid worker_id) (\<lambda>(item, job).
     ebind (append_job_event env now (set_external_state iid ''cancelled''
         (upd_item iid cancelled_claim_row db))
       (jb_id job) ''item'' ''cancelled'' (Some iid) (path_detail item)) (\<lambda>db1.
     refresh_job env now db1 (jb_id job)))"

definition retry_item :: "kenv \<Rightarrow> int \<Rightarrow> kdb \<Rightarrow> string \<Rightarrow> string \<Rightarrow> kdb result" where
  "retry_item env now db jid iid =
     ebind (locked_item_and_job db iid) (\<lambda>(item, job).
     ebind (require (jb_id job = jid) (JobNotFound iid)) (\<lambda>_.
     ebind (require (\<not> jb_cancel_requested job) (JobConflict ''cancelled jobs cannot be retried'')) (\<lambda>_.
     ebind (require (it_status item = ''dead_letter'') (JobConflict ''only dead-letter items can be retried'')) (\<lambda>_.
     let db1 = upd_item iid (retried_row now) db;
       db2 = upd_job jid (\<lambda>j. j\<lparr>jb_completed_at := None, jb_status := ''running''\<rparr>)
         (db1\<lparr>kd_externals := delete_where (\<lambda>r. ex_item_id r = iid) (kd_externals db1)\<rparr>) in
     ebind (append_job_event env now db2 jid ''item'' ''retry_wait'' (Some iid) (path_detail item @ [(''manual'', PBool True)]))
       (\<lambda>db3. refresh_job env now db3 jid)))))"

definition lease_expired :: "int \<Rightarrow> item_row \<Rightarrow> bool" where
  "lease_expired now item = (it_status item \<in> set LEASED_STATUSES
     \<and> (case it_lease_expires_at item of None \<Rightarrow> False | Some t \<Rightarrow> t \<le> now))"

definition recover_one :: "kenv \<Rightarrow> int \<Rightarrow> kdb \<times> string list \<Rightarrow> string \<Rightarrow> (kdb \<times> string list) result" where
  "recover_one env now s iid =
     (let (db, recovered) = s in
      ebind (locked_item_and_job db iid) (\<lambda>(item, job).
      if \<not> lease_expired now item then Inr (db, recovered)
      else
        let status = (if jb_cancel_requested job then ''cancelled'' else ''retry_wait'') in
        ebind (append_job_event env now (upd_item iid (recovered_row now (jb_cancel_requested job)) db)
          (jb_id job) ''recovery'' status (Some iid) (path_detail item)) (\<lambda>db1.
        ebind (refresh_job env now db1 (jb_id job)) (\<lambda>db2. Inr (db2, recovered @ [iid])))))"

definition recover_expired_leases :: "kenv \<Rightarrow> int \<Rightarrow> kdb \<Rightarrow> (kdb \<times> string list) result" where
  "recover_expired_leases env now db =
     efold (recover_one env now) (db, []) (map it_id (filter (lease_expired now) (kd_items db)))"

section \<open>Histories\<close>

datatype kop =
    KEnsure string string string string string string string
  | KCreateJob string string string string "scanned_file list" int "string option"
  | KBeginScan string string string
  | KScanPage string string string "string option"
  | KScanFailure string string string
  | KCreatePlan sync_scope string string string "string option" string int string "sync_change list"
  | KDefer string string string string string string int
  | KMarkExternal string string string "string option"
  | KClaim string string int
  | KHeartbeat string string int
  | KStartParsing string string
  | KStartApplying string string
  | KStartUnderstanding string string
  | KProgress string string string string string "int option" "int option" "string option"
  | KClaimKey string
  | KComplete string string "string option" bool
  | KFail string string string int "string option" bool
  | KCancelJob string
  | KCancelClaimed string string
  | KRetry string string
  | KRecover

fun kexec :: "kenv \<Rightarrow> int \<Rightarrow> kdb \<Rightarrow> kop \<Rightarrow> kdb result" where
  "kexec env now db (KEnsure w n r k l a v) = ebind (ensure_workspace env db w n r k l a v) (\<lambda>x. Inr (fst x))"
| "kexec env now db (KCreateJob w sid d v files m p) = ebind (create_job env now db w sid d v files m p) (\<lambda>x. Inr (fst x))"
| "kexec env now db (KBeginScan sid a v) = ebind (begin_source_scan now db sid a v) (\<lambda>x. Inr (fst x))"
| "kexec env now db (KScanPage sid a v c) = record_source_scan_page db sid a v c"
| "kexec env now db (KScanFailure sid c m) = record_source_scan_failure db sid c m"
| "kexec env now db (KCreatePlan sc sid a v bc tc bw h cs) =
     ebind (create_sync_plan env now db sc sid a v bc tc bw h cs) (\<lambda>x. Inr (fst x))"
| "kexec env now db (KDefer iid w a v t s d) = defer_external_parse env now db iid w a v t s d"
| "kexec env now db (KMarkExternal iid w s c) = mark_external_parse_terminal env now db iid w s c"
| "kexec env now db (KClaim iid w l) = ebind (claim_item env now db iid w l) (\<lambda>x. Inr (fst x))"
| "kexec env now db (KHeartbeat iid w l) = Inr (fst (heartbeat now db iid w l))"
| "kexec env now db (KStartParsing iid w) = start_parsing env now db iid w"
| "kexec env now db (KStartApplying iid w) = start_applying env now db iid w"
| "kexec env now db (KStartUnderstanding iid w) = start_understanding env now db iid w"
| "kexec env now db (KProgress iid w a v s c t r) = record_parser_progress env now db iid w a v s c t r"
| "kexec env now db (KClaimKey iid) = ebind (claim_idempotency db iid) (\<lambda>x. Inr (fst x))"
| "kexec env now db (KComplete iid w p s) = complete_item env now db iid w p s"
| "kexec env now db (KFail iid w e d c r) = fail_item env now db iid w e d c r"
| "kexec env now db (KCancelJob jid) = ebind (cancel_job env now db jid) (\<lambda>x. Inr (fst x))"
| "kexec env now db (KCancelClaimed iid w) = cancel_claimed_item env now db iid w"
| "kexec env now db (KRetry jid iid) = retry_item env now db jid iid"
| "kexec env now db KRecover = ebind (recover_expired_leases env now db) (\<lambda>x. Inr (fst x))"

inductive kstep :: "kenv \<Rightarrow> kdb \<Rightarrow> kdb \<Rightarrow> bool" for env where
  step: "kexec env now db op = Inr db' \<Longrightarrow> kstep env db db'"

inductive_cases kstepE: "kstep env db db'"

end
