(* ===== verification/Knowledge_Progress.thy ===== *)
theory Knowledge_Progress
  imports Knowledge_Jobs
begin

text \<open>
  What holds in every history of the ingestion repository: event logs without gaps, leases held
  exactly by the items in work, and progress counters that agree with the items.
\<close>

section \<open>What the primitive updates touch\<close>

lemma upd_item_simps [simp]:
  "kd_jobs (upd_item iid f db) = kd_jobs db" "kd_events (upd_item iid f db) = kd_events db"
  "kd_items (upd_item iid f db) = update_where (\<lambda>r. it_id r = iid) f (kd_items db)"
  "kd_syncs (upd_item iid f db) = kd_syncs db" "kd_plans (upd_item iid f db) = kd_plans db"
  "kd_keys (upd_item iid f db) = kd_keys db" "kd_manifest (upd_item iid f db) = kd_manifest db"
  "kd_externals (upd_item iid f db) = kd_externals db" "kd_sources (upd_item iid f db) = kd_sources db"
  by (simp_all add: upd_item_def)

lemma upd_job_simps [simp]:
  "kd_jobs (upd_job jid g db) = update_where (\<lambda>r. jb_id r = jid) g (kd_jobs db)"
  "kd_events (upd_job jid g db) = kd_events db" "kd_items (upd_job jid g db) = kd_items db"
  "kd_syncs (upd_job jid g db) = kd_syncs db" "kd_plans (upd_job jid g db) = kd_plans db"
  "kd_keys (upd_job jid g db) = kd_keys db" "kd_manifest (upd_job jid g db) = kd_manifest db"
  "kd_externals (upd_job jid g db) = kd_externals db" "kd_sources (upd_job jid g db) = kd_sources db"
  by (simp_all add: upd_job_def)

lemma upd_sync_simps [simp]:
  "kd_jobs (upd_sync sid h db) = kd_jobs db" "kd_events (upd_sync sid h db) = kd_events db"
  "kd_items (upd_sync sid h db) = kd_items db" "kd_plans (upd_sync sid h db) = kd_plans db"
  "kd_syncs (upd_sync sid h db) = update_where (\<lambda>r. sy_source_id r = sid) h (kd_syncs db)"
  "kd_keys (upd_sync sid h db) = kd_keys db" "kd_manifest (upd_sync sid h db) = kd_manifest db"
  "kd_externals (upd_sync sid h db) = kd_externals db" "kd_sources (upd_sync sid h db) = kd_sources db"
  by (simp_all add: upd_sync_def)

lemma upd_plan_simps [simp]:
  "kd_jobs (upd_plan pid h db) = kd_jobs db" "kd_events (upd_plan pid h db) = kd_events db"
  "kd_items (upd_plan pid h db) = kd_items db" "kd_syncs (upd_plan pid h db) = kd_syncs db"
  "kd_plans (upd_plan pid h db) = update_where (\<lambda>r. pl_id r = pid) h (kd_plans db)"
  "kd_keys (upd_plan pid h db) = kd_keys db" "kd_manifest (upd_plan pid h db) = kd_manifest db"
  "kd_externals (upd_plan pid h db) = kd_externals db" "kd_sources (upd_plan pid h db) = kd_sources db"
  by (simp_all add: upd_plan_def)

lemma set_external_simps [simp]:
  "kd_jobs (set_external_state iid s db) = kd_jobs db" "kd_events (set_external_state iid s db) = kd_events db"
  "kd_items (set_external_state iid s db) = kd_items db" "kd_syncs (set_external_state iid s db) = kd_syncs db"
  "kd_plans (set_external_state iid s db) = kd_plans db" "kd_keys (set_external_state iid s db) = kd_keys db"
  "kd_manifest (set_external_state iid s db) = kd_manifest db" "kd_sources (set_external_state iid s db) = kd_sources db"
  by (simp_all add: set_external_state_def)

lemma upd_owned_key_simps [simp]:
  "kd_jobs (upd_owned_key item f db) = kd_jobs db" "kd_events (upd_owned_key item f db) = kd_events db"
  "kd_items (upd_owned_key item f db) = kd_items db" "kd_syncs (upd_owned_key item f db) = kd_syncs db"
  "kd_plans (upd_owned_key item f db) = kd_plans db" "kd_externals (upd_owned_key item f db) = kd_externals db" "kd_manifest (upd_owned_key item f db) = kd_manifest db"
  "kd_sources (upd_owned_key item f db) = kd_sources db"
  by (simp_all add: upd_owned_key_def)

lemma mark_plan_simps [simp]:
  "kd_jobs (mark_plan plan s db) = kd_jobs db" "kd_events (mark_plan plan s db) = kd_events db"
  "kd_items (mark_plan plan s db) = kd_items db" "kd_keys (mark_plan plan s db) = kd_keys db"
  "kd_externals (mark_plan plan s db) = kd_externals db"
  "kd_manifest (mark_plan plan s db) = kd_manifest db" "kd_sources (mark_plan plan s db) = kd_sources db"
  by (simp_all add: mark_plan_def)

lemma found_Inr [simp]: "found name row = Inr r \<longleftrightarrow> row = Some r"
  by (auto simp: found_def split: option.splits)

lemma find_jobD: "find_job db jid = Some j \<Longrightarrow> j \<in> set (kd_jobs db) \<and> jb_id j = jid"
  unfolding find_job_def by (rule fetchone_SomeD)

lemma find_itemD: "find_item db iid = Some i \<Longrightarrow> i \<in> set (kd_items db) \<and> it_id i = iid"
  unfolding find_item_def by (rule fetchone_SomeD)

lemma locked_itemD:
  "locked_item_and_job db iid = Inr (item, job) \<Longrightarrow>
   item \<in> set (kd_items db) \<and> it_id item = iid \<and> job \<in> set (kd_jobs db) \<and> jb_id job = it_job_id item"
  by (auto simp: locked_item_and_job_def dest!: find_jobD find_itemD)

lemma leased_itemD:
  "leased_item db iid w = Inr (item, job) \<Longrightarrow>
   item \<in> set (kd_items db) \<and> it_id item = iid \<and> job \<in> set (kd_jobs db) \<and> jb_id job = it_job_id item \<and>
   it_lease_owner item = Some w \<and> it_status item \<in> set LEASED_STATUSES"
  by (auto simp: leased_item_def require_lease_def owns_lease_def dest!: locked_itemD)

text \<open>Everything that appending an event and settling a plan leave alone.\<close>

lemma append_frame:
  "append_job_event env now db jid k s i d = Inr db' \<Longrightarrow>
   kd_items db' = kd_items db \<and> kd_keys db' = kd_keys db \<and> kd_manifest db' = kd_manifest db \<and>
   kd_syncs db' = kd_syncs db \<and> kd_plans db' = kd_plans db \<and> kd_sources db' = kd_sources db \<and> kd_externals db' = kd_externals db"
  by (auto simp: append_job_event_def Let_def)

lemma ensure_sync_frame:
  "ensure_sync db sid = Inr (db', sync) \<Longrightarrow>
   kd_items db' = kd_items db \<and> kd_keys db' = kd_keys db \<and> kd_manifest db' = kd_manifest db \<and> kd_jobs db' = kd_jobs db \<and>
   kd_events db' = kd_events db \<and> kd_plans db' = kd_plans db \<and> kd_sources db' = kd_sources db \<and> kd_externals db' = kd_externals db"
  by (auto simp: ensure_sync_def split: option.splits)

lemma commit_frame:
  "commit_item env jid db item = Inr db' \<Longrightarrow>
   kd_items db' = kd_items db \<and> kd_keys db' = kd_keys db \<and> kd_jobs db' = kd_jobs db \<and> kd_events db' = kd_events db \<and>
   kd_plans db' = kd_plans db \<and> kd_syncs db' = kd_syncs db \<and> kd_sources db' = kd_sources db \<and> kd_externals db' = kd_externals db"
  by (auto simp: commit_item_def Let_def split: if_splits)

lemma commits_frame:
  assumes "efold (commit_item env jid) db xs = Inr db'"
  shows "kd_items db' = kd_items db \<and> kd_keys db' = kd_keys db \<and> kd_jobs db' = kd_jobs db \<and> kd_events db' = kd_events db \<and>
   kd_plans db' = kd_plans db \<and> kd_syncs db' = kd_syncs db \<and> kd_sources db' = kd_sources db \<and> kd_externals db' = kd_externals db"
  by (rule efold_invariant [OF assms]) (auto dest: commit_frame)

text \<open>Settling a plan touches a job only by moving it from completed to completed with errors.\<close>

lemma finalize_cases:
  assumes "finalize_sync_plan env now db job = Inr db'"
  shows "db' = db \<or> (\<exists>plan. get_plan db (the (jb_sync_plan_id job)) = Some plan \<and>
    pl_status plan \<notin> {''completed'', ''cancelled'', ''conflict''} \<and> settle_plan env now db job plan = Inr db')"
  using assms unfolding finalize_sync_plan_def by (auto split: if_splits option.splits simp del: insert_iff)

lemma settle_cases:
  assumes "settle_plan env now db job plan = Inr db'"
  obtains db1 sync where "ensure_sync db (pl_source_id plan) = Inr (db1, sync)"
      "jb_status job = ''completed''" "\<not> plan_is_current sync plan"
      "db' = upd_job (jb_id job) (\<lambda>j. j\<lparr>jb_status := ''completed_with_errors''\<rparr>) (mark_plan plan ''conflict'' db1)"
    | db1 sync db2 where "ensure_sync db (pl_source_id plan) = Inr (db1, sync)"
      "jb_status job = ''completed''" "plan_is_current sync plan"
      "efold (commit_item env (jb_id job)) db1 (finished_items db1 (jb_id job)) = Inr db2"
      "db' = upd_plan (pl_id plan) (\<lambda>p. p\<lparr>pl_status := ''completed''\<rparr>)
           (upd_sync (pl_source_id plan) (advance_sync now plan (jb_id job)) db2)"
    | db1 sync status where "ensure_sync db (pl_source_id plan) = Inr (db1, sync)"
      "jb_status job \<noteq> ''completed''" "status = (if jb_status job = ''cancelled'' then ''cancelled'' else ''retryable'')"
      "db' = mark_plan plan status db1"
proof -
  from assms obtain db1 sync where e: "ensure_sync db (pl_source_id plan) = Inr (db1, sync)"
    unfolding settle_plan_def by auto
  show thesis
  proof (cases "jb_status job = ''completed''")
    case True
    then show thesis using assms e that(1,2) by (cases "plan_is_current sync plan") (auto simp: settle_plan_def)
  next
    case False
    then show thesis using assms e that(3) [OF e False refl] by (simp add: settle_plan_def split: if_splits)
  qed
qed

lemma finalize_jobs:
  assumes "finalize_sync_plan env now db job = Inr db'"
  shows "kd_items db' = kd_items db \<and> kd_keys db' = kd_keys db \<and> kd_events db' = kd_events db \<and> kd_externals db' = kd_externals db \<and>
    (kd_jobs db' = kd_jobs db \<or> jb_status job = ''completed'' \<and>
      kd_jobs db' = update_where (\<lambda>r. jb_id r = jb_id job) (\<lambda>j. j\<lparr>jb_status := ''completed_with_errors''\<rparr>) (kd_jobs db))"
  using finalize_cases [OF assms]
proof (elim disjE exE conjE)
  fix plan assume "settle_plan env now db job plan = Inr db'"
  then show ?thesis
    by (rule settle_cases) (auto dest!: ensure_sync_frame commits_frame)
qed simp

section \<open>Well-formed databases\<close>

definition ITEM_STATUSES :: "string list" where
  "ITEM_STATUSES = READY_STATUSES @ LEASED_STATUSES @ TERMINAL_ITEM_STATUSES"

text \<open>An item has a lease, with an owner and an expiry, exactly while it is in work.\<close>

definition item_ok :: "item_row \<Rightarrow> bool" where
  "item_ok i \<longleftrightarrow> it_status i \<in> set ITEM_STATUSES \<and> (it_status i \<in> set LEASED_STATUSES \<longleftrightarrow> it_lease_owner i \<noteq> None) \<and>
     (it_lease_owner i = None \<longleftrightarrow> it_lease_expires_at i = None)"

definition job_events :: "kdb \<Rightarrow> string \<Rightarrow> job_event_row list" where
  "job_events db jid = filter (\<lambda>e. je_job_id e = jid) (kd_events db)"

text \<open>The events of every job are numbered 1, 2, \dots up to the counter of the job.\<close>

definition events_wf :: "kdb \<Rightarrow> bool" where
  "events_wf db \<longleftrightarrow> distinct (map jb_id (kd_jobs db)) \<and> je_job_id ` set (kd_events db) \<subseteq> jb_id ` set (kd_jobs db) \<and>
     (\<forall>j \<in> set (kd_jobs db). 0 \<le> jb_event_sequence j \<and>
       map je_sequence (job_events db (jb_id j)) = [1..jb_event_sequence j])"

definition items_wf :: "kdb \<Rightarrow> bool" where
  "items_wf db \<longleftrightarrow> distinct (map it_id (kd_items db)) \<and> it_job_id ` set (kd_items db) \<subseteq> jb_id ` set (kd_jobs db) \<and>
     (\<forall>i \<in> set (kd_items db). item_ok i)"

definition total_ok :: "kdb \<Rightarrow> job_row \<Rightarrow> bool" where
  "total_ok db j \<longleftrightarrow> jb_total_items j = int (rowcount (\<lambda>i. it_job_id i = jb_id j) (kd_items db))"

text \<open>The counters of a job are the counts of its items, and its status is terminal exactly when all are processed.\<close>

definition counts_ok :: "kdb \<Rightarrow> job_row \<Rightarrow> bool" where
  "counts_ok db j \<longleftrightarrow> jb_succeeded_items j = status_count db (jb_id j) ''completed'' \<and>
     jb_skipped_items j = status_count db (jb_id j) ''skipped'' \<and> jb_failed_items j = status_count db (jb_id j) ''dead_letter'' \<and>
     jb_cancelled_items j = status_count db (jb_id j) ''cancelled'' \<and>
     jb_processed_items j = int (rowcount (\<lambda>i. it_job_id i = jb_id j \<and> it_status i \<in> set TERMINAL_ITEM_STATUSES) (kd_items db))"

definition job_ok :: "kdb \<Rightarrow> job_row \<Rightarrow> bool" where
  "job_ok db j \<longleftrightarrow> total_ok db j \<and> counts_ok db j \<and>
     (jb_status j \<in> set TERMINAL_JOB_STATUSES \<longleftrightarrow> jb_processed_items j = jb_total_items j)"

definition kwf :: "kdb \<Rightarrow> bool" where
  "kwf db \<longleftrightarrow> events_wf db \<and> items_wf db \<and> (\<forall>j \<in> set (kd_jobs db). job_ok db j)"

text \<open>Inside a transaction the counters of the one job that is being changed may lag behind.\<close>

definition kwf_but :: "string \<Rightarrow> kdb \<Rightarrow> bool" where
  "kwf_but jid db \<longleftrightarrow> events_wf db \<and> items_wf db \<and>
     (\<forall>j \<in> set (kd_jobs db). if jb_id j = jid then total_ok db j else job_ok db j)"

lemmas status_sets = TERMINAL_ITEM_STATUSES_def TERMINAL_JOB_STATUSES_def LEASED_STATUSES_def READY_STATUSES_def
  ITEM_STATUSES_def EXTERNAL_TERMINAL_STATES_def

lemma kwf_imp_but: "kwf db \<Longrightarrow> kwf_but jid db"
  by (auto simp: kwf_def kwf_but_def job_ok_def)

lemma status_count_cong: "kd_items db' = kd_items db \<Longrightarrow> status_count db' = status_count db"
  by (intro ext) (simp add: status_count_def)

lemma counts_ok_cong: "kd_items db' = kd_items db \<Longrightarrow> counts_ok db' = counts_ok db"
  by (intro ext) (simp add: counts_ok_def status_count_cong [of db' db])

lemma total_ok_cong: "kd_items db' = kd_items db \<Longrightarrow> total_ok db' = total_ok db"
  by (intro ext) (simp add: total_ok_def)

lemma job_ok_cong: "kd_items db' = kd_items db \<Longrightarrow> job_ok db' = job_ok db"
  by (intro ext) (simp add: job_ok_def counts_ok_cong [of db' db] total_ok_cong [of db' db])

text \<open>Operations that touch neither jobs, items nor events.\<close>

lemma kwf_core:
  "kwf db \<Longrightarrow> kd_jobs db' = kd_jobs db \<Longrightarrow> kd_items db' = kd_items db \<Longrightarrow> kd_events db' = kd_events db \<Longrightarrow> kwf db'"
  by (simp add: kwf_def events_wf_def items_wf_def job_events_def job_ok_cong [of db' db])

lemma kwf_but_core:
  "kwf_but jid db \<Longrightarrow> kd_jobs db' = kd_jobs db \<Longrightarrow> kd_items db' = kd_items db \<Longrightarrow> kd_events db' = kd_events db \<Longrightarrow> kwf_but jid db'"
  by (simp add: kwf_but_def events_wf_def items_wf_def job_events_def job_ok_cong [of db' db] total_ok_cong [of db' db])

lemma job_ok_sequence: "job_ok db (j\<lparr>jb_event_sequence := n\<rparr>) = job_ok db j"
  by (simp add: job_ok_def counts_ok_def total_ok_def)

text \<open>The sum over the terminal statuses counts every terminal item once.\<close>

lemma rowcount_disj:
  "(\<And>x. \<not> (P x \<and> Q x)) \<Longrightarrow> rowcount (\<lambda>x. P x \<or> Q x) xs = rowcount P xs + rowcount Q xs"
  by (induction xs) (auto simp: rowcount_def)

lemma sum_status_counts:
  "distinct sts \<Longrightarrow> sum_list (map (status_count db jid) sts) =
    int (rowcount (\<lambda>i. it_job_id i = jid \<and> it_status i \<in> set sts) (kd_items db))"
proof (induction sts)
  case (Cons s sts)
  have "rowcount (\<lambda>i. it_job_id i = jid \<and> it_status i \<in> set (s # sts)) (kd_items db) =
      rowcount (\<lambda>i. (it_job_id i = jid \<and> it_status i = s) \<or> (it_job_id i = jid \<and> it_status i \<in> set sts)) (kd_items db)"
    by (rule arg_cong [of _ _ "\<lambda>P. rowcount P (kd_items db)"]) auto
  also have "\<dots> = rowcount (\<lambda>i. it_job_id i = jid \<and> it_status i = s) (kd_items db) +
      rowcount (\<lambda>i. it_job_id i = jid \<and> it_status i \<in> set sts) (kd_items db)"
    by (rule rowcount_disj) (use Cons.prems in auto)
  finally show ?case using Cons by (simp add: status_count_def)
qed (simp add: rowcount_def)

lemma terminal_statuses_distinct: "distinct TERMINAL_ITEM_STATUSES"
  by (simp add: TERMINAL_ITEM_STATUSES_def)

lemma counts_recount: "counts_ok db (recount db j)"
  by (simp add: counts_ok_def recount_def sum_status_counts [OF terminal_statuses_distinct])

lemma counts_settle: "counts_ok db (settle_status now j) = counts_ok db j"
  by (simp add: counts_ok_def settle_status_def)

lemma settle_fields [simp]:
  "jb_id (settle_status now j) = jb_id j" "jb_event_sequence (settle_status now j) = jb_event_sequence j"
  "jb_total_items (settle_status now j) = jb_total_items j" "jb_sync_plan_id (settle_status now j) = jb_sync_plan_id j"
  "jb_cancel_requested (settle_status now j) = jb_cancel_requested j" "jb_processed_items (settle_status now j) = jb_processed_items j"
  by (simp_all add: settle_status_def)

lemma recount_fields [simp]:
  "jb_id (recount db j) = jb_id j" "jb_event_sequence (recount db j) = jb_event_sequence j"
  "jb_total_items (recount db j) = jb_total_items j" "jb_sync_plan_id (recount db j) = jb_sync_plan_id j"
  "jb_cancel_requested (recount db j) = jb_cancel_requested j" "jb_status (recount db j) = jb_status j"
  by (simp_all add: recount_def)

lemma settle_terminal: "jb_status (settle_status now j) \<in> set TERMINAL_JOB_STATUSES \<longleftrightarrow> jb_processed_items j = jb_total_items j"
  by (simp add: settle_status_def status_sets)

lemma settled_ok: "total_ok db j \<Longrightarrow> job_ok db (settle_status now (recount db j))"
  by (simp add: job_ok_def counts_settle counts_recount settle_terminal total_ok_def)

lemma rowcount_less:
  "x \<in> set xs \<Longrightarrow> P x \<Longrightarrow> \<not> Q x \<Longrightarrow> (\<And>y. Q y \<Longrightarrow> P y) \<Longrightarrow> rowcount Q xs < rowcount P xs"
proof (induction xs)
  case (Cons a xs)
  have le: "rowcount Q ys \<le> rowcount P ys" for ys
    using Cons.prems(4) by (induction ys) (auto simp: rowcount_def le_SucI)
  show ?case
  proof (cases "a = x")
    case True
    then show ?thesis using Cons.prems le [of xs] by (simp add: rowcount_def)
  next
    case False
    then have "rowcount Q xs < rowcount P xs" using Cons by auto
    then show ?thesis using Cons.prems(4) [of a] by (auto simp: rowcount_def)
  qed
qed simp

text \<open>A job with an unfinished item is not terminal.\<close>

lemma open_item_open_job:
  assumes "job_ok db j" and "i \<in> set (kd_items db)" and "it_job_id i = jb_id j" and "it_status i \<notin> set TERMINAL_ITEM_STATUSES"
  shows "jb_status j \<notin> set TERMINAL_JOB_STATUSES" and "jb_processed_items j \<noteq> jb_total_items j"
proof -
  have "rowcount (\<lambda>i. it_job_id i = jb_id j \<and> it_status i \<in> set TERMINAL_ITEM_STATUSES) (kd_items db)
      < rowcount (\<lambda>i. it_job_id i = jb_id j) (kd_items db)"
    by (rule rowcount_less [of i]) (use assms in auto)
  then show "jb_processed_items j \<noteq> jb_total_items j" using assms(1) by (simp add: job_ok_def counts_ok_def total_ok_def)
  then show "jb_status j \<notin> set TERMINAL_JOB_STATUSES" using assms(1) by (simp add: job_ok_def)
qed

section \<open>Preservation by the primitive updates\<close>

lemma append_shape:
  assumes "append_job_event env now db jid kind status item detail = Inr db'"
  shows "\<exists>job row. find_job db jid = Some job \<and> je_job_id row = jid \<and> je_sequence row = jb_event_sequence job + 1 \<and>
    je_kind row = kind \<and> je_status row = status \<and> je_item_id row = item \<and> kd_events db' = kd_events db @ [row] \<and>
    kd_jobs db' = update_where (\<lambda>r. jb_id r = jid) (\<lambda>j. j\<lparr>jb_event_sequence := jb_event_sequence job + 1\<rparr>) (kd_jobs db)"
  using assms by (fastforce simp: append_job_event_def Let_def)

lemma append_events_wf:
  assumes wf: "events_wf db" and app: "append_job_event env now db jid kind status item detail = Inr db'"
  shows "events_wf db'"
proof -
  obtain job row where job: "find_job db jid = Some job" and row: "je_job_id row = jid" "je_sequence row = jb_event_sequence job + 1"
    and ev: "kd_events db' = kd_events db @ [row]"
    and jobs: "kd_jobs db' = update_where (\<lambda>r. jb_id r = jid) (\<lambda>j. j\<lparr>jb_event_sequence := jb_event_sequence job + 1\<rparr>) (kd_jobs db)"
    using append_shape [OF app] by blast
  have mem: "job \<in> set (kd_jobs db)" "jb_id job = jid" using find_jobD [OF job] by auto
  have ids: "map jb_id (kd_jobs db') = map jb_id (kd_jobs db)" unfolding jobs by (rule map_update_where) simp
  have "0 \<le> jb_event_sequence j' \<and> map je_sequence (job_events db' (jb_id j')) = [1..jb_event_sequence j']"
    if j': "j' \<in> set (kd_jobs db')" for j'
  proof -
    from j' obtain j where j: "j \<in> set (kd_jobs db)"
      and eq: "j' = (if jb_id j = jid then j\<lparr>jb_event_sequence := jb_event_sequence job + 1\<rparr> else j)"
      by (auto simp: jobs)
    have old: "0 \<le> jb_event_sequence j" "map je_sequence (job_events db (jb_id j)) = [1..jb_event_sequence j]"
      using wf j by (auto simp: events_wf_def)
    show ?thesis
    proof (cases "jb_id j = jid")
      case True
      then have "j = job" using wf mem j map_key_inj [of jb_id "kd_jobs db"] by (auto simp: events_wf_def)
      then show ?thesis using eq True old row ev by (simp add: job_events_def upto_rec2)
    next
      case False
      then show ?thesis using eq old row ev by (simp add: job_events_def)
    qed
  qed
  moreover have "je_job_id ` set (kd_events db') \<subseteq> jb_id ` set (kd_jobs db')"
  proof -
    have "jb_id ` set (kd_jobs db') = jb_id ` set (kd_jobs db)" using ids by (metis set_map)
    moreover have "jid \<in> jb_id ` set (kd_jobs db)" using mem by blast
    ultimately show ?thesis using wf ev row by (auto simp: events_wf_def)
  qed
  ultimately show ?thesis using wf ids by (simp add: events_wf_def)
qed

lemma items_wf_cong:
  assumes "items_wf db" and "kd_items db' = kd_items db" and "map jb_id (kd_jobs db') = map jb_id (kd_jobs db)"
  shows "items_wf db'"
proof -
  have "jb_id ` set (kd_jobs db') = jb_id ` set (kd_jobs db)" using assms(3) by (metis set_map)
  then show ?thesis using assms by (simp add: items_wf_def)
qed

lemma append_items_wf:
  assumes "items_wf db" and "append_job_event env now db jid kind status item detail = Inr db'"
  shows "items_wf db'"
proof (rule items_wf_cong [OF assms(1)])
  show "kd_items db' = kd_items db" using append_frame [OF assms(2)] by blast
  obtain n where "kd_jobs db' = update_where (\<lambda>r. jb_id r = jid) (\<lambda>j. j\<lparr>jb_event_sequence := n\<rparr>) (kd_jobs db)"
    using append_shape [OF assms(2)] by blast
  then show "map jb_id (kd_jobs db') = map jb_id (kd_jobs db)" by (simp add: map_update_where)
qed

lemma append_jobs_ok:
  assumes "append_job_event env now db jid kind status item detail = Inr db'" and "j' \<in> set (kd_jobs db')"
  shows "\<exists>j \<in> set (kd_jobs db). jb_id j' = jb_id j \<and> job_ok db' j' = job_ok db j \<and> total_ok db' j' = total_ok db j"
proof -
  obtain n where "kd_jobs db' = update_where (\<lambda>r. jb_id r = jid) (\<lambda>j. j\<lparr>jb_event_sequence := n\<rparr>) (kd_jobs db)"
    using append_shape [OF assms(1)] by blast
  then obtain j where j: "j \<in> set (kd_jobs db)" "j' = j \<or> j' = j\<lparr>jb_event_sequence := n\<rparr>"
    using assms(2) by auto
  have "kd_items db' = kd_items db" using append_frame [OF assms(1)] by blast
  then show ?thesis
    using j by (intro bexI [of _ j]) (auto simp: job_ok_cong [of db' db] total_ok_cong [of db' db] job_ok_sequence total_ok_def)
qed

lemma append_wf:
  assumes "kwf db" and "append_job_event env now db jid kind status item detail = Inr db'"
  shows "kwf db'"
  using assms append_events_wf append_items_wf append_jobs_ok [OF assms(2)] unfolding kwf_def by metis

lemma append_wf_but:
  assumes "kwf_but x db" and "append_job_event env now db jid kind status item detail = Inr db'"
  shows "kwf_but x db'"
  using assms append_events_wf append_items_wf append_jobs_ok [OF assms(2)] unfolding kwf_but_def by metis

text \<open>An update of items of one job.\<close>

lemma rowcount_update:
  "(\<And>x. x \<in> set xs \<Longrightarrow> P x \<Longrightarrow> Q (f x) = Q x) \<Longrightarrow> rowcount Q (update_where P f xs) = rowcount Q xs"
  by (induction xs) (auto simp: rowcount_def update_where_def)

lemma upd_item_wf_but:
  assumes wf: "kwf_but jid db"
    and f: "\<And>i. i \<in> set (kd_items db) \<Longrightarrow> it_id i = iid \<Longrightarrow> it_job_id i = jid \<and> item_ok (f i) \<and> it_id (f i) = it_id i \<and> it_job_id (f i) = it_job_id i"
  shows "kwf_but jid (upd_item iid f db)"
proof -
  let ?db = "upd_item iid f db"
  have ids: "map it_id (kd_items ?db) = map it_id (kd_items db)"
    using f by (auto simp: update_where_def)
  have "items_wf ?db"
    using wf f ids by (auto simp: kwf_but_def items_wf_def)
  moreover have "events_wf ?db" using wf by (simp add: kwf_but_def events_wf_def job_events_def)
  moreover have "total_ok ?db j = total_ok db j" for j
    using f by (simp add: total_ok_def rowcount_update)
  moreover have "job_ok ?db j" if "job_ok db j" "jb_id j \<noteq> jid" for j
    using that f calculation(3) by (simp add: job_ok_def counts_ok_def status_count_def rowcount_update)
  ultimately show ?thesis using wf by (simp add: kwf_but_def)
qed

lemma upd_job_wf_but:
  assumes wf: "kwf_but jid db"
    and g: "\<And>j. jb_id (g j) = jb_id j \<and> jb_event_sequence (g j) = jb_event_sequence j \<and> jb_total_items (g j) = jb_total_items j"
  shows "kwf_but jid (upd_job jid g db)"
proof -
  let ?db = "upd_job jid g db"
  have ids: "map jb_id (kd_jobs ?db) = map jb_id (kd_jobs db)" using g by (simp add: map_update_where)
  have "items_wf ?db" using wf by (intro items_wf_cong [OF _ _ ids]) (simp_all add: kwf_but_def)
  moreover have "events_wf ?db"
  proof -
    have "jb_id ` set (kd_jobs ?db) = jb_id ` set (kd_jobs db)" using ids by (metis set_map)
    moreover have "0 \<le> jb_event_sequence j' \<and> map je_sequence (job_events ?db (jb_id j')) = [1..jb_event_sequence j']"
      if "j' \<in> set (kd_jobs ?db)" for j'
    proof -
      from that obtain j where "j \<in> set (kd_jobs db)" "j' = j \<or> j' = g j" by auto
      then show ?thesis using wf g [of j] by (auto simp: kwf_but_def events_wf_def job_events_def)
    qed
    ultimately show ?thesis using wf ids by (simp add: kwf_but_def events_wf_def)
  qed
  moreover have tot: "total_ok ?db (g j) = total_ok db j" "total_ok ?db j = total_ok db j" "job_ok ?db j = job_ok db j" for j
    using g by (simp_all add: total_ok_def job_ok_cong [of ?db db])
  moreover have "if jb_id j' = jid then total_ok ?db j' else job_ok ?db j'" if "j' \<in> set (kd_jobs ?db)" for j'
  proof -
    from that obtain j where j: "j \<in> set (kd_jobs db)" "j' = (if jb_id j = jid then g j else j)" by auto
    then show ?thesis using wf g [of j] tot by (auto simp: kwf_but_def)
  qed
  ultimately show ?thesis unfolding kwf_but_def by blast
qed

lemma kwf_from_but:
  "kwf_but jid db \<Longrightarrow> (\<And>j. j \<in> set (kd_jobs db) \<Longrightarrow> jb_id j = jid \<Longrightarrow> job_ok db j) \<Longrightarrow> kwf db"
  by (auto simp: kwf_def kwf_but_def split: if_splits)

lemma finalize_wf:
  assumes wf: "kwf db" and fin: "finalize_sync_plan env now db job = Inr db'"
    and settled: "\<And>j. j \<in> set (kd_jobs db) \<Longrightarrow> jb_id j = jb_id job \<Longrightarrow> jb_status j \<in> set TERMINAL_JOB_STATUSES"
  shows "kwf db'"
proof -
  let ?g = "\<lambda>j. j\<lparr>jb_status := ''completed_with_errors''\<rparr>"
  let ?db = "upd_job (jb_id job) ?g db"
  note f = finalize_jobs [OF fin]
  have "kwf ?db"
  proof (rule kwf_from_but [OF upd_job_wf_but [OF kwf_imp_but [OF wf]]])
    fix j' assume "j' \<in> set (kd_jobs ?db)" "jb_id j' = jb_id job"
    then obtain j where j: "j \<in> set (kd_jobs db)" "jb_id j = jb_id job" "j' = ?g j" by (auto split: if_splits)
    have "job_ok db j" "jb_status j \<in> set TERMINAL_JOB_STATUSES" using wf j settled by (auto simp: kwf_def)
    then show "job_ok ?db j'"
      by (simp add: j(3) job_ok_cong [of ?db db] job_ok_def counts_ok_def total_ok_def TERMINAL_JOB_STATUSES_def)
  qed simp
  moreover have "kd_jobs db' = kd_jobs db \<or> kd_jobs db' = kd_jobs ?db" using f by auto
  ultimately show ?thesis using f kwf_core [OF wf, of db'] kwf_core [of ?db db'] by auto
qed

lemma settled_db_wf:
  assumes "kwf_but jid db"
  shows "kwf (upd_job jid (\<lambda>j. settle_status now (recount db j)) db)"
proof (rule kwf_from_but [OF upd_job_wf_but [OF assms]])
  let ?db = "upd_job jid (\<lambda>j. settle_status now (recount db j)) db"
  fix j' assume "j' \<in> set (kd_jobs ?db)" "jb_id j' = jid"
  then obtain j where j: "j \<in> set (kd_jobs db)" "jb_id j = jid" "j' = settle_status now (recount db j)"
    by (auto split: if_splits)
  have "total_ok db j" using assms j by (auto simp: kwf_but_def)
  then show "job_ok ?db j'" using settled_ok j by (simp add: job_ok_cong [of ?db db])
qed simp

lemma refresh_cases:
  assumes "refresh_job env now db jid = Inr db'"
  obtains job db1 db2 where "find_job db jid = Some job" "db1 = upd_job jid (\<lambda>j. settle_status now (recount db j)) db"
    "db2 = db1 \<or> append_job_event env now db1 jid ''job'' (jb_status (settle_status now (recount db job))) None
       [(''processed_items'', PInt (jb_processed_items (settle_status now (recount db job)))),
        (''total_items'', PInt (jb_total_items (settle_status now (recount db job))))] = Inr db2"
    "db' = db2 \<or> jb_status (settle_status now (recount db job)) \<in> set TERMINAL_JOB_STATUSES \<and>
       finalize_sync_plan env now db2 (settle_status now (recount db job)) = Inr db'"
proof -
  obtain job where job: "find_job db jid = Some job" using assms unfolding refresh_job_def by auto
  let ?job = "settle_status now (recount db job)" and ?db = "upd_job jid (\<lambda>j. settle_status now (recount db j)) db"
  obtain db2 where db2: "(if jb_status ?job \<noteq> jb_status job
         then append_job_event env now ?db jid ''job'' (jb_status ?job) None
           [(''processed_items'', PInt (jb_processed_items ?job)), (''total_items'', PInt (jb_total_items ?job))]
         else Inr ?db) = Inr db2"
    and fin: "(if truthy (jb_sync_plan_id ?job) \<and> jb_status ?job \<in> set TERMINAL_JOB_STATUSES
     then finalize_sync_plan env now db2 ?job else Inr db2) = Inr db'"
    using assms job unfolding refresh_job_def Let_def by (auto simp del: settle_fields)
  show thesis
  proof (rule that [OF job refl])
    show "db2 = ?db \<or> append_job_event env now ?db jid ''job'' (jb_status ?job) None
       [(''processed_items'', PInt (jb_processed_items ?job)), (''total_items'', PInt (jb_total_items ?job))] = Inr db2"
      using db2 by (simp only: split: if_splits) simp_all
    show "db' = db2 \<or> jb_status ?job \<in> set TERMINAL_JOB_STATUSES \<and> finalize_sync_plan env now db2 ?job = Inr db'"
      using fin by (auto split: if_splits)
  qed
qed

lemma refresh_wf:
  assumes wf: "kwf_but jid db" and r: "refresh_job env now db jid = Inr db'"
  shows "kwf db'"
  using r
proof (rule refresh_cases)
  fix job db1 db2
  let ?job = "settle_status now (recount db job)"
  assume job: "find_job db jid = Some job" and db1: "db1 = upd_job jid (\<lambda>j. settle_status now (recount db j)) db"
    and db2: "db2 = db1 \<or> append_job_event env now db1 jid ''job'' (jb_status ?job) None
       [(''processed_items'', PInt (jb_processed_items ?job)), (''total_items'', PInt (jb_total_items ?job))] = Inr db2"
    and fin: "db' = db2 \<or> jb_status ?job \<in> set TERMINAL_JOB_STATUSES \<and> finalize_sync_plan env now db2 ?job = Inr db'"
  have wf1: "kwf db1" unfolding db1 by (rule settled_db_wf [OF wf])
  have wf2: "kwf db2" using db2 append_wf [OF wf1] wf1 by blast
  have job': "job \<in> set (kd_jobs db)" "jb_id job = jid" using find_jobD [OF job] by auto
  show ?thesis
  proof (cases "db' = db2")
    case False
    then have t: "jb_status ?job \<in> set TERMINAL_JOB_STATUSES" and f: "finalize_sync_plan env now db2 ?job = Inr db'" using fin by auto
    have "jb_status j2 = jb_status ?job" if j2: "j2 \<in> set (kd_jobs db2)" "jb_id j2 = jid" for j2
    proof -
      obtain j1 where j1: "j1 \<in> set (kd_jobs db1)" "jb_id j1 = jid" "jb_status j2 = jb_status j1"
        using db2
      proof
        assume "append_job_event env now db1 jid ''job'' (jb_status ?job) None
          [(''processed_items'', PInt (jb_processed_items ?job)), (''total_items'', PInt (jb_total_items ?job))] = Inr db2"
        then obtain n where "kd_jobs db2 = update_where (\<lambda>r. jb_id r = jid) (\<lambda>j. j\<lparr>jb_event_sequence := n\<rparr>) (kd_jobs db1)"
          using append_shape by blast
        then obtain j1 where "j1 \<in> set (kd_jobs db1)" "j2 = j1\<lparr>jb_event_sequence := n\<rparr> \<or> j2 = j1" using j2 by auto
        then show thesis using that [of j1] j2 by auto
      qed (use j2 that in blast)
      then obtain j where "j \<in> set (kd_jobs db)" "jb_id j = jid" "j1 = settle_status now (recount db j)"
        by (auto simp: db1 split: if_splits)
      moreover from this have "j = job"
        using job' wf map_key_inj [of jb_id "kd_jobs db"] by (auto simp: kwf_but_def events_wf_def)
      ultimately show ?thesis using j1 by simp
    qed
    then show ?thesis using t job' by (intro finalize_wf [OF wf2 f]) simp
  qed (use wf2 in simp)
qed

lemma refresh_frame:
  assumes "refresh_job env now db jid = Inr db'"
  shows "kd_items db' = kd_items db \<and> kd_keys db' = kd_keys db \<and> kd_externals db' = kd_externals db"
  using assms by (rule refresh_cases) (auto dest!: append_frame finalize_jobs)

section \<open>Preservation by the operations\<close>

lemma upd_item_open_wf:
  assumes wf: "kwf db"
    and f: "\<And>i. i \<in> set (kd_items db) \<Longrightarrow> it_id i = iid \<Longrightarrow> item_ok (f i) \<and> it_id (f i) = it_id i \<and> it_job_id (f i) = it_job_id i \<and>
      (it_status (f i) = it_status i \<or> it_status i \<notin> set TERMINAL_ITEM_STATUSES \<and> it_status (f i) \<notin> set TERMINAL_ITEM_STATUSES)"
  shows "kwf (upd_item iid f db)"
proof -
  let ?db = "upd_item iid f db"
  have count: "rowcount Q (kd_items ?db) = rowcount Q (kd_items db)"
    if "\<And>i. i \<in> set (kd_items db) \<Longrightarrow> it_id i = iid \<Longrightarrow> Q (f i) = Q i" for Q
    using that by (simp add: rowcount_update)
  have "items_wf ?db"
  proof -
    have "map it_id (kd_items ?db) = map it_id (kd_items db)" using f by (auto simp: update_where_def)
    then show ?thesis using wf f by (auto simp: kwf_def items_wf_def)
  qed
  moreover have "events_wf ?db" using wf by (simp add: kwf_def events_wf_def job_events_def)
  moreover have "job_ok ?db j" if "job_ok db j" for j
  proof -
    have "total_ok ?db j" using that f count by (simp add: job_ok_def total_ok_def)
    moreover have "status_count ?db (jb_id j) s = status_count db (jb_id j) s" if "s \<in> set TERMINAL_ITEM_STATUSES" for s
      unfolding status_count_def using f that by (intro arg_cong [of _ _ int] count) fastforce
    moreover have "rowcount (\<lambda>i. it_job_id i = jb_id j \<and> it_status i \<in> set TERMINAL_ITEM_STATUSES) (kd_items ?db) =
        rowcount (\<lambda>i. it_job_id i = jb_id j \<and> it_status i \<in> set TERMINAL_ITEM_STATUSES) (kd_items db)"
      using f by (intro count) fastforce
    ultimately show ?thesis using that
      by (simp add: job_ok_def counts_ok_def TERMINAL_ITEM_STATUSES_def del: upd_item_simps)
  qed
  ultimately show ?thesis using wf by (simp add: kwf_def)
qed

lemma unique_item:
  "kwf db \<Longrightarrow> i \<in> set (kd_items db) \<Longrightarrow> i' \<in> set (kd_items db) \<Longrightarrow> it_id i = it_id i' \<Longrightarrow> i = i'"
  using map_key_inj [of it_id "kd_items db"] by (auto simp: kwf_def items_wf_def)

lemma unique_job:
  "kwf db \<Longrightarrow> j \<in> set (kd_jobs db) \<Longrightarrow> j' \<in> set (kd_jobs db) \<Longrightarrow> jb_id j = jb_id j' \<Longrightarrow> j = j'"
  using map_key_inj [of jb_id "kd_jobs db"] by (auto simp: kwf_def events_wf_def)

lemma item_is_ok: "kwf db \<Longrightarrow> i \<in> set (kd_items db) \<Longrightarrow> item_ok i"
  by (simp add: kwf_def items_wf_def)

text \<open>
  The common shape of the operations that move one item: the item changes by \<open>f\<close>, its job at most in
  fields outside the log and the total, then an event is appended and the counters are refreshed.
\<close>

definition item_update :: "kenv \<Rightarrow> int \<Rightarrow> kdb \<Rightarrow> item_row \<Rightarrow> (item_row \<Rightarrow> item_row) \<Rightarrow> kdb \<Rightarrow> bool" where
  "item_update env now db item f db' \<longleftrightarrow>
     item \<in> set (kd_items db) \<and> item_ok (f item) \<and> it_id (f item) = it_id item \<and> it_job_id (f item) = it_job_id item \<and>
     (\<exists>db1 db2 g k s e d. kd_events db1 = kd_events db \<and>
       kd_items db1 = update_where (\<lambda>r. it_id r = it_id item) f (kd_items db) \<and>
       kd_jobs db1 = update_where (\<lambda>r. jb_id r = it_job_id item) g (kd_jobs db) \<and>
       (\<forall>j. jb_id (g j) = jb_id j \<and> jb_event_sequence (g j) = jb_event_sequence j \<and> jb_total_items (g j) = jb_total_items j) \<and>
       append_job_event env now db1 (it_job_id item) k s e d = Inr db2 \<and> refresh_job env now db2 (it_job_id item) = Inr db')"

lemma update_where_id [simp]: "update_where P (\<lambda>x. x) xs = xs"
  by (simp add: update_where_def)

lemma item_updateI:
  assumes "append_job_event env now db1 jid k s e d = Inr db2" and "refresh_job env now db2 jid = Inr db'"
    and "item \<in> set (kd_items db)" "it_job_id item = jid" "item_ok (f item)" "it_id (f item) = it_id item" "it_job_id (f item) = it_job_id item"
    and "kd_events db1 = kd_events db" "kd_items db1 = update_where (\<lambda>r. it_id r = it_id item) f (kd_items db)" "kd_jobs db1 = kd_jobs db"
  shows "item_update env now db item f db'"
  unfolding item_update_def using assms
  by (intro conjI exI [of _ db1] exI [of _ db2] exI [of _ "\<lambda>j. j"] exI [of _ k] exI [of _ s] exI [of _ e] exI [of _ d]) auto

lemma item_update_items: "item_update env now db item f db' \<Longrightarrow> kd_items db' = update_where (\<lambda>r. it_id r = it_id item) f (kd_items db)"
  by (auto simp: item_update_def dest!: append_frame refresh_frame)

lemma item_update_wf:
  assumes wf: "kwf db" and up: "item_update env now db item f db'"
  shows "kwf db'"
proof -
  let ?jid = "it_job_id item" and ?iid = "it_id item"
  obtain db1 db2 g k s e d where item: "item \<in> set (kd_items db)" "item_ok (f item)" "it_id (f item) = ?iid" "it_job_id (f item) = ?jid"
    and db1: "kd_events db1 = kd_events db" "kd_items db1 = update_where (\<lambda>r. it_id r = ?iid) f (kd_items db)"
      "kd_jobs db1 = update_where (\<lambda>r. jb_id r = ?jid) g (kd_jobs db)"
    and g: "\<And>j. jb_id (g j) = jb_id j \<and> jb_event_sequence (g j) = jb_event_sequence j \<and> jb_total_items (g j) = jb_total_items j"
    and app: "append_job_event env now db1 ?jid k s e d = Inr db2" and ref: "refresh_job env now db2 ?jid = Inr db'"
    using up unfolding item_update_def by blast
  have only: "i = item" if "i \<in> set (kd_items db)" "it_id i = ?iid" for i
    using unique_item [OF wf that(1) item(1)] that by simp
  have "kwf_but ?jid (upd_item ?iid f db)"
    by (rule upd_item_wf_but [OF kwf_imp_but [OF wf]]) (use only item in auto)
  then have "kwf_but ?jid (upd_job ?jid g (upd_item ?iid f db))" by (rule upd_job_wf_but) (use g in auto)
  then have "kwf_but ?jid db1" by (rule kwf_but_core) (simp_all add: db1)
  then show ?thesis using refresh_wf append_wf_but [OF _ app] ref by blast
qed

lemma unleased_ok:
  "it_status i \<in> set READY_STATUSES \<union> set TERMINAL_ITEM_STATUSES \<Longrightarrow> it_lease_owner i = None \<Longrightarrow> it_lease_expires_at i = None \<Longrightarrow> item_ok i"
  by (auto simp: item_ok_def status_sets)

lemma store_ticket_frame:
  "store_ticket now db iid a v t s = Inr db' \<Longrightarrow>
   kd_jobs db' = kd_jobs db \<and> kd_items db' = kd_items db \<and> kd_events db' = kd_events db \<and> kd_keys db' = kd_keys db \<and>
   kd_syncs db' = kd_syncs db \<and> kd_plans db' = kd_plans db \<and> kd_manifest db' = kd_manifest db"
  by (auto simp: store_ticket_def Let_def split: option.splits if_splits)

lemma complete_update:
  assumes "complete_item env now db iid w p skipped = Inr db'"
  obtains item job where "leased_item db iid w = Inr (item, job)" "item_update env now db item (completed_row skipped p) db'"
    "kd_keys db' = (if skipped then kd_keys db else update_where (\<lambda>r. ik_key r = it_idempotency_key item \<and> ik_owner_item_id r = iid)
       (\<lambda>k. k\<lparr>ik_status := ''completed'', ik_proposal_id := p\<rparr>) (kd_keys db))"
proof -
  obtain item job where l: "leased_item db iid w = Inr (item, job)" using assms by (auto simp: complete_item_def)
  note m = leased_itemD [OF l]
  let ?s = "if skipped then ''skipped'' else ''completed''"
  let ?db1 = "upd_item iid (completed_row skipped p) db"
  let ?db2 = "if skipped then ?db1 else upd_owned_key item (\<lambda>k. k\<lparr>ik_status := ''completed'', ik_proposal_id := p\<rparr>) ?db1"
  obtain db3 where app: "append_job_event env now ?db2 (jb_id job) ''item'' ?s (Some iid)
       (path_detail item @ [(''proposal_id'', opt_str p)]) = Inr db3" and ref: "refresh_job env now db3 (jb_id job) = Inr db'"
    using assms l by (auto simp: complete_item_def Let_def)
  have ok: "item_ok (completed_row skipped p item)" by (rule unleased_ok) (simp_all add: completed_row_def status_sets)
  have "item_update env now db item (completed_row skipped p) db'"
    by (rule item_updateI [OF app ref]) (use m ok in \<open>auto simp: completed_row_def\<close>)
  moreover have "kd_keys db' = kd_keys ?db2" using append_frame [OF app] refresh_frame [OF ref] by simp
  ultimately show thesis using that l m by (simp add: upd_owned_key_def split: if_splits)
qed

lemma fail_update:
  assumes "fail_item env now db iid w e d c r = Inr db'"
  obtains item job status where "leased_item db iid w = Inr (item, job)" "status = failure_status job item r"
    "item_update env now db item (fail_row status e (if status = ''retry_wait'' then Some (now + d) else None)) db'"
    "kd_keys db' = (if status = ''retry_wait'' then kd_keys db
       else update_where (\<lambda>r. ik_key r = it_idempotency_key item \<and> ik_owner_item_id r = iid) (\<lambda>k. k\<lparr>ik_status := ''failed''\<rparr>) (kd_keys db))"
proof -
  obtain item job where l: "leased_item db iid w = Inr (item, job)" using assms by (auto simp: fail_item_def)
  note m = leased_itemD [OF l]
  let ?s = "failure_status job item r"
  let ?f = "fail_row ?s e (if ?s = ''retry_wait'' then Some (now + d) else None)"
  let ?db2 = "if ?s = ''retry_wait'' then upd_item iid ?f db else upd_owned_key item (\<lambda>k. k\<lparr>ik_status := ''failed''\<rparr>)
    (set_external_state iid (if ?s = ''cancelled'' then ''cancelled'' else ''failed'') (upd_item iid ?f db))"
  obtain db3 where app: "append_job_event env now ?db2 (jb_id job) ''item'' ?s (Some iid)
       (path_detail item @ [(''attempt'', PInt (it_attempts item)), (''error'', PStr (take 4000 e)),
         (''error_code'', opt_str c), (''retryable'', PBool r)]) = Inr db3" and ref: "refresh_job env now db3 (jb_id job) = Inr db'"
    using assms l unfolding fail_item_def Let_def by auto
  have ok: "item_ok (?f item)" by (rule unleased_ok) (simp_all add: fail_row_def failure_status_def status_sets)
  have "item_update env now db item ?f db'"
    by (rule item_updateI [OF app ref]) (use m ok in \<open>auto simp: fail_row_def\<close>)
  moreover have "kd_keys db' = kd_keys ?db2" using append_frame [OF app] refresh_frame [OF ref] by simp
  ultimately show thesis using that [OF l refl] m by (simp add: upd_owned_key_def split: if_splits)
qed

lemma defer_update:
  assumes "defer_external_parse env now db iid w a v t s d = Inr db'"
  obtains item job where "leased_item db iid w = Inr (item, job)" "item_update env now db item (deferred_row (now + d)) db'"
    "kd_keys db' = kd_keys db"
proof -
  obtain item job db1 db2 where l: "leased_item db iid w = Inr (item, job)"
    and t: "store_ticket now db iid a v t s = Inr db1"
    and app: "append_job_event env now (upd_item iid (deferred_row (now + d)) db1) (jb_id job) ''item'' ''external_wait'' (Some iid)
         (path_detail item @ [(''adapter_id'', PStr a), (''adapter_version'', PStr v), (''parser_state'', PStr s)]) = Inr db2"
    and ref: "refresh_job env now db2 (jb_id job) = Inr db'"
    using assms by (auto simp: defer_external_parse_def)
  note m = leased_itemD [OF l] and f = store_ticket_frame [OF t]
  have ok: "item_ok (deferred_row (now + d) item)" by (rule unleased_ok) (simp_all add: deferred_row_def status_sets)
  have "item_update env now db item (deferred_row (now + d)) db'"
    by (rule item_updateI [OF app ref]) (use m f ok in \<open>auto simp: deferred_row_def\<close>)
  then show thesis using that l append_frame [OF app] refresh_frame [OF ref] f by simp
qed

lemma cancel_claimed_update:
  assumes "cancel_claimed_item env now db iid w = Inr db'"
  obtains item job where "leased_item db iid w = Inr (item, job)" "item_update env now db item cancelled_claim_row db'"
    "kd_keys db' = kd_keys db"
proof -
  obtain item job db1 where l: "leased_item db iid w = Inr (item, job)"
    and app: "append_job_event env now (set_external_state iid ''cancelled'' (upd_item iid cancelled_claim_row db))
       (jb_id job) ''item'' ''cancelled'' (Some iid) (path_detail item) = Inr db1"
    and ref: "refresh_job env now db1 (jb_id job) = Inr db'"
    using assms by (auto simp: cancel_claimed_item_def)
  note m = leased_itemD [OF l]
  have ok: "item_ok (cancelled_claim_row item)" by (rule unleased_ok) (simp_all add: cancelled_claim_row_def status_sets)
  have "item_update env now db item cancelled_claim_row db'"
    by (rule item_updateI [OF app ref]) (use m ok in \<open>auto simp: cancelled_claim_row_def\<close>)
  then show thesis using that l append_frame [OF app] refresh_frame [OF ref] by simp
qed

lemma unleased_if: "item_ok i \<Longrightarrow> it_status i \<notin> set LEASED_STATUSES \<Longrightarrow> it_lease_owner i = None \<and> it_lease_expires_at i = None"
  by (auto simp: item_ok_def)

lemma retry_update:
  assumes wf: "kwf db" and "retry_item env now db jid iid = Inr db'"
  obtains item job where "locked_item_and_job db iid = Inr (item, job)" "it_status item = ''dead_letter''" "\<not> jb_cancel_requested job"
    "item_update env now db item (retried_row now) db'" "kd_keys db' = kd_keys db"
proof -
  let ?g = "\<lambda>j. j\<lparr>jb_completed_at := None, jb_status := ''running''\<rparr>"
  let ?db1 = "upd_item iid (retried_row now) db"
  let ?db2 = "upd_job jid ?g (?db1\<lparr>kd_externals := delete_where (\<lambda>r. ex_item_id r = iid) (kd_externals ?db1)\<rparr>)"
  obtain item job db3 where l: "locked_item_and_job db iid = Inr (item, job)" and st: "it_status item = ''dead_letter''"
    and jid: "jb_id job = jid" and nc: "\<not> jb_cancel_requested job"
    and app: "append_job_event env now ?db2 jid ''item'' ''retry_wait'' (Some iid) (path_detail item @ [(''manual'', PBool True)]) = Inr db3"
    and ref: "refresh_job env now db3 jid = Inr db'"
    using assms(2) by (auto simp: retry_item_def Let_def)
  note m = locked_itemD [OF l]
  have "it_lease_owner item = None \<and> it_lease_expires_at item = None"
    using unleased_if [OF item_is_ok [OF wf]] m st by (auto simp: status_sets)
  then have ok: "item_ok (retried_row now item)" by (intro unleased_ok) (simp_all add: retried_row_def status_sets)
  have "item_update env now db item (retried_row now) db'"
    unfolding item_update_def
  proof (intro conjI exI)
    show "append_job_event env now ?db2 (it_job_id item) ''item'' ''retry_wait'' (Some iid)
       (path_detail item @ [(''manual'', PBool True)]) = Inr db3" "refresh_job env now db3 (it_job_id item) = Inr db'"
      using app ref m jid by simp_all
    show "kd_jobs ?db2 = update_where (\<lambda>r. jb_id r = it_job_id item) ?g (kd_jobs db)" using m jid by simp
  qed (use m ok in \<open>auto simp: retried_row_def\<close>)
  then show thesis using that l st nc append_frame [OF app] refresh_frame [OF ref] by simp
qed

lemma recover_one_update:
  assumes "recover_one env now (db, rec) iid = Inr (db', rec')"
  obtains "db' = db" "rec' = rec"
  | item job where "locked_item_and_job db iid = Inr (item, job)" "lease_expired now item" "rec' = rec @ [iid]"
      "item_update env now db item (recovered_row now (jb_cancel_requested job)) db'" "kd_keys db' = kd_keys db"
proof -
  obtain item job where l: "locked_item_and_job db iid = Inr (item, job)" using assms by (auto simp: recover_one_def)
  note m = locked_itemD [OF l]
  show thesis
  proof (cases "lease_expired now item")
    case True
    let ?c = "jb_cancel_requested job"
    let ?s = "if ?c then ''cancelled'' else ''retry_wait''"
    obtain db1 where app: "append_job_event env now (upd_item iid (recovered_row now ?c) db) (jb_id job) ''recovery'' ?s (Some iid)
        (path_detail item) = Inr db1" and ref: "refresh_job env now db1 (jb_id job) = Inr db'" and r: "rec' = rec @ [iid]"
      using assms l True by (auto simp: recover_one_def Let_def)
    have ok: "item_ok (recovered_row now ?c item)" by (rule unleased_ok) (simp_all add: recovered_row_def status_sets)
    have "item_update env now db item (recovered_row now ?c) db'"
      by (rule item_updateI [OF app ref]) (use m ok in \<open>auto simp: recovered_row_def\<close>)
    then show thesis using that(2) l True r append_frame [OF app] refresh_frame [OF ref] by simp
  next
    case False
    then show thesis using that(1) assms l by (auto simp: recover_one_def)
  qed
qed

lemma recover_wf:
  assumes "kwf db" and "recover_expired_leases env now db = Inr (db', rec)"
  shows "kwf db'"
proof -
  have "kwf (fst (db', rec))"
  proof (rule efold_invariant [OF assms(2) [unfolded recover_expired_leases_def]])
    fix s x s' assume "kwf (fst s)" "recover_one env now s x = Inr s'"
    then show "kwf (fst s')"
      by (cases s; cases s') (auto elim!: recover_one_update intro: item_update_wf)
  qed (use assms in simp)
  then show ?thesis by simp
qed

lemma cancelled_row_simps [simp]:
  "it_id (cancelled_row i) = it_id i" "it_job_id (cancelled_row i) = it_job_id i" "cancelled_row (cancelled_row i) = cancelled_row i"
  "it_lease_owner (cancelled_row i) = it_lease_owner i" "it_lease_expires_at (cancelled_row i) = it_lease_expires_at i"
  "it_status (cancelled_row i) = ''cancelled''" "it_idempotency_key (cancelled_row i) = it_idempotency_key i"
  by (simp_all add: cancelled_row_def)

lemma cancel_one_items:
  "cancel_one env now jid db item = Inr db' \<Longrightarrow>
   kd_items db' = update_where (\<lambda>r. it_id r = it_id item) cancelled_row (kd_items db) \<and> kd_keys db' = kd_keys db"
  by (auto simp: cancel_one_def dest!: append_frame)

lemma cancel_fold_items:
  "efold (cancel_one env now jid) db xs = Inr db' \<Longrightarrow>
   kd_items db' = map (\<lambda>i. if it_id i \<in> it_id ` set xs then cancelled_row i else i) (kd_items db) \<and> kd_keys db' = kd_keys db"
proof (induction xs arbitrary: db)
  case (Cons x xs)
  then obtain db1 where one: "cancel_one env now jid db x = Inr db1" and rest: "efold (cancel_one env now jid) db1 xs = Inr db'" by auto
  show ?case using Cons.IH [OF rest] cancel_one_items [OF one] by (auto simp: update_where_def)
qed simp

lemma cancel_one_wf:
  assumes wf: "kwf_but jid db" and one: "cancel_one env now jid db item = Inr db'"
    and free: "\<And>i. i \<in> set (kd_items db) \<Longrightarrow> it_id i = it_id item \<Longrightarrow> it_job_id i = jid \<and> it_lease_owner i = None \<and> it_lease_expires_at i = None"
  shows "kwf_but jid db'"
proof -
  have "kwf_but jid (upd_item (it_id item) cancelled_row db)"
    by (rule upd_item_wf_but [OF wf]) (use free in \<open>auto intro!: unleased_ok simp: status_sets\<close>)
  then have "kwf_but jid (set_external_state (it_id item) ''cancelled'' (upd_item (it_id item) cancelled_row db))"
    by (rule kwf_but_core) simp_all
  then show ?thesis using one append_wf_but by (auto simp: cancel_one_def)
qed

lemma cancel_fold_wf:
  assumes "kwf_but jid db" and "efold (cancel_one env now jid) db xs = Inr db'"
    and "\<And>i. i \<in> set (kd_items db) \<Longrightarrow> it_id i \<in> it_id ` set xs \<Longrightarrow> it_job_id i = jid \<and> it_lease_owner i = None \<and> it_lease_expires_at i = None"
  shows "kwf_but jid db'"
  using assms
proof (induction xs arbitrary: db)
  case (Cons x xs)
  then obtain db1 where one: "cancel_one env now jid db x = Inr db1" and rest: "efold (cancel_one env now jid) db1 xs = Inr db'" by auto
  have "kwf_but jid db1" by (rule cancel_one_wf [OF Cons.prems(1) one]) (use Cons.prems(3) in auto)
  then show ?case
    by (rule Cons.IH [OF _ rest]) (use Cons.prems(3) cancel_one_items [OF one] in \<open>auto split: if_splits\<close>)
qed simp

lemma cancel_job_shape:
  assumes wf: "kwf db" and "cancel_job env now db jid = Inr (db', v)"
  shows "kwf db' \<and> kd_keys db' = kd_keys db \<and> (\<exists>job. find_job db jid = Some job \<and> jb_status job \<notin> set TERMINAL_JOB_STATUSES) \<and>
    kd_items db' = map (\<lambda>i. if it_job_id i = jid \<and> it_status i \<in> set READY_STATUSES then cancelled_row i else i) (kd_items db)"
proof -
  let ?g = "\<lambda>j. j\<lparr>jb_cancel_requested := True, jb_status := ''cancelling''\<rparr>"
  let ?xs = "filter (\<lambda>i. it_job_id i = jid \<and> it_status i \<in> set READY_STATUSES) (kd_items db)"
  obtain job db2 db3 where job: "find_job db jid = Some job" "jb_status job \<notin> set TERMINAL_JOB_STATUSES"
    and fold: "efold (cancel_one env now jid) (upd_job jid ?g db) ?xs = Inr db2"
    and app: "append_job_event env now db2 jid ''job'' ''cancelling'' None [] = Inr db3" and ref: "refresh_job env now db3 jid = Inr db'"
    using assms(2) by (auto simp: cancel_job_def Let_def)
  have mem: "it_id i \<in> it_id ` set ?xs \<longleftrightarrow> it_job_id i = jid \<and> it_status i \<in> set READY_STATUSES" if "i \<in> set (kd_items db)" for i
    using that unique_item [OF wf that] by auto
  have "kwf_but jid (upd_job jid ?g db)" by (rule upd_job_wf_but [OF kwf_imp_but [OF wf]]) simp
  then have "kwf_but jid db2"
  proof (rule cancel_fold_wf [OF _ fold])
    fix i assume i: "i \<in> set (kd_items (upd_job jid ?g db))" "it_id i \<in> it_id ` set ?xs"
    then have "it_job_id i = jid" "it_status i \<in> set READY_STATUSES" using mem [of i] by simp_all
    then show "it_job_id i = jid \<and> it_lease_owner i = None \<and> it_lease_expires_at i = None"
      using unleased_if [OF item_is_ok [OF wf]] i by (auto simp: status_sets)
  qed
  then have "kwf db'" using append_wf_but [OF _ app] refresh_wf [OF _ ref] by blast
  moreover have "kd_items db' = map (\<lambda>i. if it_job_id i = jid \<and> it_status i \<in> set READY_STATUSES then cancelled_row i else i) (kd_items db)"
    using cancel_fold_items [OF fold] append_frame [OF app] refresh_frame [OF ref] mem by auto
  ultimately show ?thesis
    using job cancel_fold_items [OF fold] append_frame [OF app] refresh_frame [OF ref] by simp
qed

lemma leased_open: "s \<in> set LEASED_STATUSES \<Longrightarrow> s \<notin> set TERMINAL_ITEM_STATUSES"
  by (auto simp: status_sets)

lemma restage_ok:
  "item_ok i \<Longrightarrow> it_status i \<in> set LEASED_STATUSES \<Longrightarrow> stage \<in> set LEASED_STATUSES \<Longrightarrow> item_ok (i\<lparr>it_status := stage\<rparr>)"
  by (auto simp add: item_ok_def ITEM_STATUSES_def)

lemma start_stage_shape:
  assumes wf: "kwf db" and stage: "stage \<in> set LEASED_STATUSES" and op: "start_stage stage env now db iid w = Inr db'"
  obtains item job where "leased_item db iid w = Inr (item, job)" "kwf db'" "kd_keys db' = kd_keys db"
    "kd_items db' = update_where (\<lambda>r. it_id r = iid) (\<lambda>i. i\<lparr>it_status := stage\<rparr>) (kd_items db)"
proof -
  obtain item job where l: "leased_item db iid w = Inr (item, job)"
    and app: "append_job_event env now (upd_item iid (\<lambda>i. i\<lparr>it_status := stage\<rparr>) db) (jb_id job) ''item'' stage (Some iid)
       (path_detail item) = Inr db'"
    using op by (auto simp: start_stage_def)
  note m = leased_itemD [OF l]
  have only: "i = item" if "i \<in> set (kd_items db)" "it_id i = iid" for i
    by (rule unique_item [OF wf that(1)]) (use m that in auto)
  have "item_ok item" using item_is_ok [OF wf] m by blast
  then have "item_ok (item\<lparr>it_status := stage\<rparr>)" "stage \<notin> set TERMINAL_ITEM_STATUSES" "it_status item \<notin> set TERMINAL_ITEM_STATUSES"
    using restage_ok [of item stage] m stage leased_open by blast+
  then have "kwf (upd_item iid (\<lambda>i. i\<lparr>it_status := stage\<rparr>) db)"
    by (intro upd_item_open_wf [OF wf]) (frule (1) only, simp)
  then show thesis using that l append_wf [OF _ app] append_frame [OF app] by simp
qed

lemma heartbeat_shape:
  assumes wf: "kwf db"
  shows "kwf (fst (heartbeat now db iid w l))" "kd_keys (fst (heartbeat now db iid w l)) = kd_keys db"
    "kd_items (fst (heartbeat now db iid w l)) = kd_items db \<or>
     kd_items (fst (heartbeat now db iid w l)) = update_where (\<lambda>r. it_id r = iid) (\<lambda>i. i\<lparr>it_lease_expires_at := Some (now + l)\<rparr>) (kd_items db)"
proof -
  have "kwf (upd_item iid (\<lambda>i. i\<lparr>it_lease_expires_at := Some (now + l)\<rparr>) db)"
    if f: "find_item db iid = Some item" and o: "owns_lease item w" for item
  proof (rule upd_item_open_wf [OF wf])
    fix i assume i: "i \<in> set (kd_items db)" "it_id i = iid"
    have "i = item" by (rule unique_item [OF wf i(1)]) (use find_itemD [OF f] i in auto)
    then show "item_ok (i\<lparr>it_lease_expires_at := Some (now + l)\<rparr>) \<and> it_id (i\<lparr>it_lease_expires_at := Some (now + l)\<rparr>) = it_id i \<and>
        it_job_id (i\<lparr>it_lease_expires_at := Some (now + l)\<rparr>) = it_job_id i \<and>
        (it_status (i\<lparr>it_lease_expires_at := Some (now + l)\<rparr>) = it_status i \<or> it_status i \<notin> set TERMINAL_ITEM_STATUSES \<and>
         it_status (i\<lparr>it_lease_expires_at := Some (now + l)\<rparr>) \<notin> set TERMINAL_ITEM_STATUSES)"
      using item_is_ok [OF wf i(1)] o by (simp add: item_ok_def owns_lease_def)
  qed
  then show "kwf (fst (heartbeat now db iid w l))" using wf by (auto simp: heartbeat_def split: option.splits)
  show "kd_keys (fst (heartbeat now db iid w l)) = kd_keys db"
    "kd_items (fst (heartbeat now db iid w l)) = kd_items db \<or>
     kd_items (fst (heartbeat now db iid w l)) = update_where (\<lambda>r. it_id r = iid) (\<lambda>i. i\<lparr>it_lease_expires_at := Some (now + l)\<rparr>) (kd_items db)"
    by (auto simp: heartbeat_def split: option.splits)
qed

lemma claim_shape:
  assumes wf: "kwf db" and op: "claim_item env now db iid w l = Inr (db', v)"
  obtains "db' = db" "v = None"
  | item job where "find_item db iid = Some item" "find_job db (it_job_id item) = Some job" "\<not> jb_cancel_requested job" "ready_at now item"
      "kwf db'" "kd_keys db' = kd_keys db" "v = Some (item_view_of (claim_row now w l item))"
      "kd_items db' = update_where (\<lambda>r. it_id r = iid) (claim_row now w l) (kd_items db)"
proof (cases "db' = db \<and> v = None")
  case False
  let ?g = "\<lambda>j. j\<lparr>jb_started_at := if jb_started_at j = None then Some now else jb_started_at j, jb_status := ''running''\<rparr>"
  let ?u = "upd_item iid (claim_row now w l) db"
  obtain item job where f: "find_item db iid = Some item" "find_job db (it_job_id item) = Some job"
    and c: "\<not> jb_cancel_requested job" "ready_at now item" and v: "v = Some (item_view_of (claim_row now w l item))"
    and app: "append_job_event env now (upd_job (jb_id job) ?g ?u) (jb_id job) ''item'' ''claimed'' (Some iid)
             (path_detail item @ [(''attempt'', PInt (it_attempts (claim_row now w l item)))]) = Inr db'"
    using op False by (auto simp: claim_item_def Let_def split: option.splits if_splits)
  have mi: "item \<in> set (kd_items db)" "it_id item = iid" and mj: "job \<in> set (kd_jobs db)" "jb_id job = it_job_id item"
    using find_itemD [OF f(1)] find_jobD [OF f(2)] by auto
  have only: "i = item" if "i \<in> set (kd_items db)" "it_id i = iid" for i
    by (rule unique_item [OF wf that(1)]) (use mi that in auto)
  have st: "it_status item \<notin> set TERMINAL_ITEM_STATUSES" using c(2) by (auto simp: ready_at_def status_sets)
  have wf1: "kwf ?u"
    using st by (intro upd_item_open_wf [OF wf]) (frule (1) only, simp add: claim_row_def item_ok_def status_sets)
  have "kwf (upd_job (jb_id job) ?g ?u)"
  proof (rule kwf_from_but [OF upd_job_wf_but [OF kwf_imp_but [OF wf1]]])
    fix j' assume "j' \<in> set (kd_jobs (upd_job (jb_id job) ?g ?u))" "jb_id j' = jb_id job"
    then obtain j where j: "j \<in> set (kd_jobs db)" "jb_id j = jb_id job" "j' = ?g j" by (auto split: if_splits)
    have ok: "job_ok ?u j" using wf1 j by (simp add: kwf_def)
    have "claim_row now w l item \<in> set (kd_items ?u)" using mi by force
    then have "jb_processed_items j \<noteq> jb_total_items j"
      by (rule open_item_open_job(2) [OF ok]) (use mj j in \<open>auto simp: claim_row_def status_sets\<close>)
    then show "job_ok (upd_job (jb_id job) ?g ?u) j'"
      using ok by (simp add: j(3) job_ok_cong [of "upd_job (jb_id job) ?g ?u" ?u] job_ok_def counts_ok_def total_ok_def TERMINAL_JOB_STATUSES_def)
  qed simp
  then show thesis using that(2) [OF f c] v append_wf [OF _ app] append_frame [OF app] by simp
qed (use that(1) in simp)

lemma insert_item_shape:
  assumes "insert_item env now jid sid m db x = Inr db'"
  obtains row where "kd_items db' = kd_items db @ [row]" "it_id row \<notin> it_id ` set (kd_items db)" "it_job_id row = jid"
    "it_status row = ''queued''" "it_lease_owner row = None" "it_lease_expires_at row = None"
    "it_relative_path row = sf_relative_path x" "it_source_revision row = sf_source_revision x" "it_change_kind row = sf_change_kind x"
    "it_source_id row = sid"
    "kd_jobs db' = kd_jobs db" "kd_events db' = kd_events db" "kd_keys db' = kd_keys db" "kd_syncs db' = kd_syncs db"
    "kd_plans db' = kd_plans db" "kd_manifest db' = kd_manifest db"
  using assms by (fastforce simp: insert_item_def Let_def list_ex_iff)

definition row_of_file :: "string \<Rightarrow> string \<Rightarrow> item_row \<Rightarrow> scanned_file \<Rightarrow> bool" where
  "row_of_file jid sid row x \<longleftrightarrow> it_job_id row = jid \<and> it_status row = ''queued'' \<and> it_lease_owner row = None \<and>
     it_lease_expires_at row = None \<and> it_relative_path row = sf_relative_path x \<and> it_source_revision row = sf_source_revision x \<and>
     it_change_kind row = sf_change_kind x \<and> it_source_id row = sid"

lemma insert_items_shape:
  assumes "efold (insert_item env now jid sid m) db files = Inr db'"
  shows "\<exists>rows. kd_items db' = kd_items db @ rows \<and> list_all2 (row_of_file jid sid) rows files \<and>
    (distinct (map it_id (kd_items db)) \<longrightarrow> distinct (map it_id (kd_items db'))) \<and>
    kd_jobs db' = kd_jobs db \<and> kd_events db' = kd_events db \<and> kd_keys db' = kd_keys db \<and> kd_syncs db' = kd_syncs db \<and>
    kd_plans db' = kd_plans db \<and> kd_manifest db' = kd_manifest db"
  using assms
proof (induction files arbitrary: db)
  case (Cons x files)
  then obtain db1 where one: "insert_item env now jid sid m db x = Inr db1"
    and rest: "efold (insert_item env now jid sid m) db1 files = Inr db'" by auto
  from Cons.IH [OF rest] obtain rows where rows: "kd_items db' = kd_items db1 @ rows" "list_all2 (row_of_file jid sid) rows files"
    "distinct (map it_id (kd_items db1)) \<longrightarrow> distinct (map it_id (kd_items db'))"
    and same: "kd_jobs db' = kd_jobs db1" "kd_events db' = kd_events db1" "kd_keys db' = kd_keys db1" "kd_syncs db' = kd_syncs db1"
      "kd_plans db' = kd_plans db1" "kd_manifest db' = kd_manifest db1" by blast
  from one show ?case
  proof (rule insert_item_shape)
    fix row assume row: "kd_items db1 = kd_items db @ [row]" "it_id row \<notin> it_id ` set (kd_items db)" "it_job_id row = jid"
      "it_status row = ''queued''" "it_lease_owner row = None" "it_lease_expires_at row = None"
      "it_relative_path row = sf_relative_path x" "it_source_revision row = sf_source_revision x" "it_change_kind row = sf_change_kind x"
      "it_source_id row = sid"
      "kd_jobs db1 = kd_jobs db" "kd_events db1 = kd_events db" "kd_keys db1 = kd_keys db" "kd_syncs db1 = kd_syncs db"
      "kd_plans db1 = kd_plans db" "kd_manifest db1 = kd_manifest db"
    then have "distinct (map it_id (kd_items db)) \<longrightarrow> distinct (map it_id (kd_items db'))" using rows(3) by simp
    moreover have "row_of_file jid sid row x" using row by (simp add: row_of_file_def)
    ultimately show ?thesis using rows row same by (intro exI [of _ "row # rows"]) simp
  qed
qed simp

lemma rowcount_append [simp]: "rowcount P (xs @ ys) = rowcount P xs + rowcount P ys"
  by (simp add: rowcount_def)

lemma rowcount_all: "(\<And>x. x \<in> set xs \<Longrightarrow> P x) \<Longrightarrow> rowcount P xs = length xs"
  by (simp add: rowcount_def filter_id_conv)

lemma rowcount_none: "(\<And>x. x \<in> set xs \<Longrightarrow> \<not> P x) \<Longrightarrow> rowcount P xs = 0"
  by simp

text \<open>Adding a fresh job with its queued items.\<close>

lemma add_job_wf:
  assumes wf: "kwf db" and fresh: "jid \<notin> jb_id ` set (kd_jobs db)"
    and jobs: "kd_jobs db' = kd_jobs db @ [new_job jid now ws sid pid dir ver (int (length rows))]"
    and items: "kd_items db' = kd_items db @ rows" and ev: "kd_events db' = kd_events db"
    and ids: "distinct (map it_id (kd_items db'))"
    and rows: "\<And>i. i \<in> set rows \<Longrightarrow> it_job_id i = jid \<and> it_status i = ''queued'' \<and> it_lease_owner i = None \<and> it_lease_expires_at i = None"
  shows "kwf_but jid db'" and "rows \<noteq> [] \<Longrightarrow> kwf db'"
proof -
  have old: "it_job_id i \<noteq> jid" if "i \<in> set (kd_items db)" for i
    using that wf fresh by (auto simp: kwf_def items_wf_def)
  have count_old: "rowcount (\<lambda>i. it_job_id i = x \<and> Q i) (kd_items db') = rowcount (\<lambda>i. it_job_id i = x \<and> Q i) (kd_items db)"
    if "x \<noteq> jid" for x Q
    using rows that by (simp add: items rowcount_none)
  have noq: "rowcount (\<lambda>i. it_job_id i = jid \<and> Q (it_status i)) (kd_items db') = 0" if "\<not> Q ''queued''" for Q
    using rows old that by (auto simp: items)
  have total: "rowcount (\<lambda>i. it_job_id i = jid) (kd_items db') = length rows"
    using rows old by (simp add: items rowcount_none rowcount_all)
  have e: "events_wf db'"
  proof -
    have "job_events db' jid = []" using wf fresh by (auto simp: job_events_def ev kwf_def events_wf_def filter_empty_conv)
    then show ?thesis using wf fresh
      by (auto simp: kwf_def events_wf_def jobs ev job_events_def new_job_def)
  qed
  have i: "items_wf db'"
  proof -
    have "item_ok i" if "i \<in> set rows" for i using rows [OF that] by (intro unleased_ok) (simp_all add: status_sets)
    then show ?thesis using wf ids rows by (auto simp: kwf_def items_wf_def jobs items new_job_def)
  qed
  have others: "job_ok db' j" if "j \<in> set (kd_jobs db)" for j
  proof -
    have ne: "jb_id j \<noteq> jid" using that fresh by auto
    have "job_ok db j" using wf that by (simp add: kwf_def)
    then show ?thesis using count_old [OF ne] count_old [OF ne, of "\<lambda>_. True"]
      by (simp add: job_ok_def counts_ok_def total_ok_def status_count_def)
  qed
  have t: "total_ok db' (new_job jid now ws sid pid dir ver (int (length rows)))" using total by (simp add: total_ok_def new_job_def)
  show "kwf_but jid db'"
    using e i others t fresh by (auto simp: kwf_but_def jobs new_job_def)
  show "kwf db'" if "rows \<noteq> []"
  proof (rule kwf_from_but [OF \<open>kwf_but jid db'\<close>])
    fix j assume "j \<in> set (kd_jobs db')" "jb_id j = jid"
    then have j: "j = new_job jid now ws sid pid dir ver (int (length rows))" using fresh by (auto simp: jobs)
    have "counts_ok db' j"
      using noq [of "\<lambda>s. s = ''completed''"] noq [of "\<lambda>s. s = ''skipped''"] noq [of "\<lambda>s. s = ''dead_letter''"]
        noq [of "\<lambda>s. s = ''cancelled''"] noq [of "\<lambda>s. s \<in> set TERMINAL_ITEM_STATUSES"]
      by (simp add: j counts_ok_def status_count_def new_job_def TERMINAL_ITEM_STATUSES_def)
    then show "job_ok db' j" using t that by (simp add: job_ok_def j) (simp add: new_job_def TERMINAL_JOB_STATUSES_def)
  qed
qed

lemma insert_job_shape:
  assumes op: "insert_job env now db jid ws sid pid dir ver files m = Inr db'"
  obtains rows db1 db2 where "jid \<notin> jb_id ` set (kd_jobs db)" "list_all2 (row_of_file jid sid) rows files"
    "kd_jobs db1 = kd_jobs db @ [new_job jid now ws sid pid dir ver (int (length files))]" "kd_items db1 = kd_items db @ rows"
    "kd_events db1 = kd_events db" "kd_keys db1 = kd_keys db" "kd_syncs db1 = kd_syncs db" "kd_plans db1 = kd_plans db"
    "kd_manifest db1 = kd_manifest db" "distinct (map it_id (kd_items db)) \<Longrightarrow> distinct (map it_id (kd_items db1))"
    "append_job_event env now db1 jid ''job'' ''queued'' None [(''total_items'', PInt (int (length files)))] = Inr db2"
    "if files = [] then refresh_job env now db2 jid = Inr db' else db' = db2"
proof -
  let ?db = "db\<lparr>kd_jobs := kd_jobs db @ [new_job jid now ws sid pid dir ver (int (length files))]\<rparr>"
  have "\<not> list_ex (\<lambda>j. jb_id j = jid \<or> pid \<noteq> None \<and> jb_sync_plan_id j = pid) (kd_jobs db)"
    using op by (simp add: insert_job_def)
  then have fresh: "jid \<notin> jb_id ` set (kd_jobs db)" by (auto simp: list_ex_iff)
  obtain db1 db2 where ins: "efold (insert_item env now jid sid m) ?db files = Inr db1"
    and app: "append_job_event env now db1 jid ''job'' ''queued'' None [(''total_items'', PInt (int (length files)))] = Inr db2"
    and ref: "(if files = [] then refresh_job env now db2 jid else Inr db2) = Inr db'"
    using op unfolding insert_job_def by auto
  from insert_items_shape [OF ins] obtain rows where rows: "kd_items db1 = kd_items db @ rows" "list_all2 (row_of_file jid sid) rows files"
      "distinct (map it_id (kd_items db)) \<longrightarrow> distinct (map it_id (kd_items db1))"
      "kd_jobs db1 = kd_jobs db @ [new_job jid now ws sid pid dir ver (int (length files))]" "kd_events db1 = kd_events db"
      "kd_keys db1 = kd_keys db" "kd_syncs db1 = kd_syncs db" "kd_plans db1 = kd_plans db" "kd_manifest db1 = kd_manifest db"
    by auto
  show thesis by (rule that [OF fresh rows(2,4,1,5-9) _ app]) (use rows(3) ref in \<open>auto split: if_splits\<close>)
qed

lemma insert_job_wf:
  assumes wf: "kwf db" and op: "insert_job env now db jid ws sid pid dir ver files m = Inr db'"
  shows "kwf db'"
  using op
proof (rule insert_job_shape)
  fix rows db1 db2
  assume fresh: "jid \<notin> jb_id ` set (kd_jobs db)" and rows: "list_all2 (row_of_file jid sid) rows files"
    and db1: "kd_jobs db1 = kd_jobs db @ [new_job jid now ws sid pid dir ver (int (length files))]" "kd_items db1 = kd_items db @ rows"
      "kd_events db1 = kd_events db"
    and ids: "distinct (map it_id (kd_items db)) \<Longrightarrow> distinct (map it_id (kd_items db1))"
    and app: "append_job_event env now db1 jid ''job'' ''queued'' None [(''total_items'', PInt (int (length files)))] = Inr db2"
    and fin: "if files = [] then refresh_job env now db2 jid = Inr db' else db' = db2"
  have len: "length files = length rows" using list_all2_lengthD [OF rows] by simp
  have r: "it_job_id i = jid \<and> it_status i = ''queued'' \<and> it_lease_owner i = None \<and> it_lease_expires_at i = None" if "i \<in> set rows" for i
    using that rows by (auto simp: row_of_file_def list_all2_conv_all_nth in_set_conv_nth)
  have d: "distinct (map it_id (kd_items db1))" using ids wf by (simp add: kwf_def items_wf_def)
  note new = add_job_wf [OF wf fresh db1(1) [unfolded len] db1(2,3) d r]
  show ?thesis
  proof (cases "files = []")
    case True
    then show ?thesis using refresh_wf append_wf_but [OF new(1) app] fin by simp
  next
    case False
    then have "kwf db1" using new(2) len by (cases rows) auto
    then show ?thesis using append_wf [OF _ app] fin False by simp
  qed
qed

lemma start_plan_frame:
  "start_plan db pid = Inr (Inr db') \<Longrightarrow> kd_jobs db' = kd_jobs db \<and> kd_items db' = kd_items db \<and> kd_events db' = kd_events db \<and>
   kd_keys db' = kd_keys db \<and> kd_manifest db' = kd_manifest db"
  by (auto simp: start_plan_def split: option.splits dest!: ensure_sync_frame)

lemma create_job_shape:
  assumes "create_job env now db ws sid dir ver files m pid = Inr (db', v)"
  obtains existing where "db' = db\<lparr>kd_drawn := Suc (kd_drawn db)\<rparr>" "existing \<in> set (kd_jobs db)" "pid \<noteq> None" "jb_sync_plan_id existing = pid"
    | db1 where "pid = None \<and> db1 = db\<lparr>kd_drawn := Suc (kd_drawn db)\<rparr> \<or>
        (\<exists>p. pid = Some p \<and> start_plan (db\<lparr>kd_drawn := Suc (kd_drawn db)\<rparr>) p = Inr (Inr db1))"
      "insert_job env now db1 (random_id env ''kjob'' db) ws sid pid dir ver files m = Inr db'"
proof (cases pid)
  case None
  then show thesis using assms that(2) by (auto simp: create_job_def Let_def)
next
  case (Some p)
  let ?db = "db\<lparr>kd_drawn := Suc (kd_drawn db)\<rparr>"
  obtain r where r: "start_plan ?db p = Inr r" using assms Some by (auto simp: create_job_def Let_def)
  show thesis
  proof (cases r)
    case (Inl existing)
    then have "fetchone (\<lambda>j. jb_sync_plan_id j = Some p) (kd_jobs db) = Some existing"
      using r by (auto simp: start_plan_def split: option.splits)
    then show thesis using that(1) assms Some r Inl fetchone_SomeD [of _ "kd_jobs db" existing]
      by (fastforce simp: create_job_def Let_def)
  next
    case (Inr db1)
    then show thesis using that(2) assms Some r by (auto simp: create_job_def Let_def)
  qed
qed

lemma create_job_wf:
  assumes wf: "kwf db" and "create_job env now db ws sid dir ver files m pid = Inr (db', v)"
  shows "kwf db'"
  using assms(2)
proof (rule create_job_shape)
  assume "db' = db\<lparr>kd_drawn := Suc (kd_drawn db)\<rparr>"
  then show ?thesis by (intro kwf_core [OF wf]) simp_all
next
  fix db1 assume "pid = None \<and> db1 = db\<lparr>kd_drawn := Suc (kd_drawn db)\<rparr> \<or>
        (\<exists>p. pid = Some p \<and> start_plan (db\<lparr>kd_drawn := Suc (kd_drawn db)\<rparr>) p = Inr (Inr db1))"
    and ins: "insert_job env now db1 (random_id env ''kjob'' db) ws sid pid dir ver files m = Inr db'"
  then have "kwf db1" by (intro kwf_core [OF wf]) (auto dest!: start_plan_frame)
  then show ?thesis using insert_job_wf ins by blast
qed

section \<open>Every history\<close>

definition same_core :: "kdb \<Rightarrow> kdb \<Rightarrow> bool" where
  "same_core db db' \<longleftrightarrow> kd_jobs db' = kd_jobs db \<and> kd_items db' = kd_items db \<and> kd_events db' = kd_events db"

lemma ensure_sync_core: "ensure_sync db sid = Inr (db', s) \<Longrightarrow> same_core db db'"
  by (simp add: same_core_def ensure_sync_frame)

lemma ensure_workspace_core: "ensure_workspace env db a b c d e f g = Inr (db', x) \<Longrightarrow> same_core db db'"
  unfolding ensure_workspace_def Let_def same_core_def by (auto split: option.splits)

lemma scan_core:
  "begin_source_scan now db sid a v = Inr (db', x) \<Longrightarrow> same_core db db'"
  "record_source_scan_page db sid a v cu = Inr db' \<Longrightarrow> same_core db db'"
  "record_source_scan_failure db sid a v = Inr db' \<Longrightarrow> same_core db db'"
  by (auto simp: begin_source_scan_def record_source_scan_page_def record_source_scan_failure_def Let_def same_core_def split: option.splits)

lemma create_sync_plan_shape:
  assumes op: "create_sync_plan env now db sc sid a v bc tc bw h cs = Inr (db', x)"
  obtains db1 sync and existing :: plan_row where "ensure_sync db sid = Inr (db1, sync)"
      "db' = upd_sync sid (\<lambda>s. s\<lparr>sy_resume_cursor := None, sy_scan_status := pl_status existing\<rparr>) db1"
    | db1 sync plan where "ensure_sync db sid = Inr (db1, sync)" "get_plan db1 (pl_id plan) = None"
      "db' = upd_sync sid (\<lambda>s. s\<lparr>sy_resume_cursor := None, sy_scan_status := ''planned''\<rparr>) (db1\<lparr>kd_plans := kd_plans db1 @ [plan]\<rparr>)"
      "sy_watermark sync = bw" "pl_base_watermark plan = bw" "pl_target_watermark plan = bw + (if cs \<noteq> [] then 1 else 0)"
      "pl_changes plan = cs" "pl_status plan = ''planned''" "pl_source_id plan = sid"
proof -
  obtain pid ph db1 sync where id: "build_plan_id (sync_env.truncate env) sc bw cs a v bc (Some tc) = Inr (pid, ph)"
    and e: "ensure_sync db sid = Inr (db1, sync)"
    using op unfolding create_sync_plan_def by auto
  show thesis
  proof (cases "get_plan db1 pid")
    case (Some existing)
    then have "db' = upd_sync sid (\<lambda>s. s\<lparr>sy_resume_cursor := None, sy_scan_status := pl_status existing\<rparr>) db1"
      using op id e by (simp add: create_sync_plan_def)
    then show thesis by (rule that(1) [OF e])
  next
    case None
    then show thesis using op id e that(2) [OF e, of "new_plan now pid sc sid a v bc tc bw h cs"]
      by (simp add: create_sync_plan_def Let_def) (simp add: new_plan_def)
  qed
qed

lemma create_sync_plan_core: "create_sync_plan env now db sc sid a v bc tc bw h cs = Inr (db', x) \<Longrightarrow> same_core db db'"
  by (erule create_sync_plan_shape) (drule ensure_sync_frame, simp add: same_core_def)+

lemma claim_idempotency_shape:
  assumes "claim_idempotency db iid = Inr (db', c)"
  obtains item where "find_item db iid = Some item" "find_key db (it_idempotency_key item) = None" "c = Acquired"
      "db' = db\<lparr>kd_keys := kd_keys db @ [\<lparr>ik_key = it_idempotency_key item, ik_owner_item_id = iid,
         ik_status = ''processing'', ik_proposal_id = None\<rparr>]\<rparr>"
    | item k where "find_item db iid = Some item" "find_key db (it_idempotency_key item) = Some k" "db' = db"
      "c = (if ik_status k = ''completed'' then Duplicate (ik_proposal_id k) else if ik_owner_item_id k = iid then Acquired else Busy)"
      "ik_status k = ''completed'' \<or> ik_owner_item_id k = iid \<or> ik_status k \<noteq> ''failed''"
    | item k where "find_item db iid = Some item" "find_key db (it_idempotency_key item) = Some k" "ik_status k = ''failed''"
      "ik_owner_item_id k \<noteq> iid" "c = Acquired"
      "db' = db\<lparr>kd_keys := update_where (\<lambda>r. ik_key r = it_idempotency_key item)
           (\<lambda>r. r\<lparr>ik_owner_item_id := iid, ik_status := ''processing'', ik_proposal_id := None\<rparr>) (kd_keys db)\<rparr>"
proof -
  obtain item where i: "find_item db iid = Some item" using assms by (auto simp: claim_idempotency_def)
  show thesis
  proof (cases "find_key db (it_idempotency_key item)")
    case None
    then show thesis using that(1) [OF i] assms i by (simp add: claim_idempotency_def found_def)
  next
    case (Some k)
    show thesis
    proof (cases "ik_status k = ''failed'' \<and> ik_owner_item_id k \<noteq> iid")
      case True
      then show thesis using that(3) [OF i Some] assms i Some by (simp add: claim_idempotency_def found_def)
    next
      case False
      then show thesis using that(2) [OF i Some] assms i Some
        by (simp add: claim_idempotency_def found_def split: if_splits)
    qed
  qed
qed

lemma claim_idempotency_core: "claim_idempotency db iid = Inr (db', x) \<Longrightarrow> same_core db db'"
  by (erule claim_idempotency_shape) (simp_all add: same_core_def)

lemma same_core_wf: "kwf db \<Longrightarrow> same_core db db' \<Longrightarrow> kwf db'"
  unfolding same_core_def by (elim conjE) (rule kwf_core)

lemma event_ops_wf:
  "kwf db \<Longrightarrow> mark_external_parse_terminal env now db iid w s c = Inr db' \<Longrightarrow> kwf db'"
  "kwf db \<Longrightarrow> record_parser_progress env now db iid w a v st cu tu r = Inr db' \<Longrightarrow> kwf db'"
proof -
  assume wf: "kwf db"
  have ext: "kwf (set_external_state iid s db)" by (rule kwf_core [OF wf]) simp_all
  show "mark_external_parse_terminal env now db iid w s c = Inr db' \<Longrightarrow> kwf db'"
    using wf append_wf [OF ext] by (auto simp: mark_external_parse_terminal_def split: option.splits)
  show "record_parser_progress env now db iid w a v st cu tu r = Inr db' \<Longrightarrow> kwf db'"
    using append_wf [OF wf] by (auto simp: record_parser_progress_def)
qed

lemma start_ops_wf:
  "kwf db \<Longrightarrow> start_parsing env now db iid w = Inr db' \<Longrightarrow> kwf db'"
  "kwf db \<Longrightarrow> start_applying env now db iid w = Inr db' \<Longrightarrow> kwf db'"
  "kwf db \<Longrightarrow> start_understanding env now db iid w = Inr db' \<Longrightarrow> kwf db'"
  unfolding start_parsing_def start_applying_def start_understanding_def
  by (erule start_stage_shape [rotated 2]; simp add: LEASED_STATUSES_def)+

lemma kexec_wf:
  assumes wf: "kwf db" and "kexec env now db op = Inr db'"
  shows "kwf db'"
proof (cases op)
  case (KClaim iid w l)
  then obtain v where "claim_item env now db iid w l = Inr (db', v)" using assms by auto
  then show ?thesis by (rule claim_shape [OF wf]) (use wf in auto)
qed (use assms in \<open>auto intro: create_job_wf [OF wf] same_core_wf [OF wf] ensure_workspace_core scan_core create_sync_plan_core
    claim_idempotency_core event_ops_wf [OF wf] start_ops_wf [OF wf] heartbeat_shape(1) [OF wf] recover_wf [OF wf]
    cancel_job_shape [OF wf, THEN conjunct1] elim!: complete_update fail_update defer_update cancel_claimed_update retry_update [OF wf]
    dest: item_update_wf [OF wf]\<close>)

lemma empty_kwf: "kwf empty_kdb"
  by (simp add: kwf_def events_wf_def items_wf_def empty_kdb_def)

lemma reachable_kwf: "rtranclp (kstep env) db db' \<Longrightarrow> kwf db \<Longrightarrow> kwf db'"
  by (induction rule: rtranclp_induct) (auto elim!: kstepE intro: kexec_wf)

section \<open>How items evolve\<close>

text \<open>An item keeps its identity, and a terminal item does not change at all.\<close>

definition same_identity :: "item_row \<Rightarrow> item_row \<Rightarrow> bool" where
  "same_identity i i' \<longleftrightarrow> it_id i' = it_id i \<and> it_job_id i' = it_job_id i \<and> it_source_id i' = it_source_id i \<and>
     it_relative_path i' = it_relative_path i \<and> it_source_revision i' = it_source_revision i \<and>
     it_change_kind i' = it_change_kind i \<and> it_idempotency_key i' = it_idempotency_key i"

definition evolves :: "kdb \<Rightarrow> kdb \<Rightarrow> bool" where
  "evolves db db' \<longleftrightarrow> (\<forall>i \<in> set (kd_items db). \<exists>i' \<in> set (kd_items db').
     same_identity i i' \<and> (it_status i \<in> set TERMINAL_ITEM_STATUSES \<longrightarrow> i' = i))"

lemma same_identity_refl [simp]: "same_identity i i"
  by (simp add: same_identity_def)

lemma evolves_same: "kd_items db' = kd_items db \<Longrightarrow> evolves db db'"
  unfolding evolves_def by (metis same_identity_refl)

lemma evolves_trans: "evolves db db1 \<Longrightarrow> evolves db1 db2 \<Longrightarrow> evolves db db2"
  unfolding evolves_def same_identity_def by metis

lemma update_evolves:
  assumes "kd_items db' = update_where (\<lambda>r. it_id r = iid) f (kd_items db)"
    and "\<And>i. i \<in> set (kd_items db) \<Longrightarrow> it_id i = iid \<Longrightarrow> same_identity i (f i) \<and> it_status i \<notin> set TERMINAL_ITEM_STATUSES"
  shows "evolves db db'"
  unfolding evolves_def
proof
  fix i assume "i \<in> set (kd_items db)"
  then show "\<exists>i' \<in> set (kd_items db'). same_identity i i' \<and> (it_status i \<in> set TERMINAL_ITEM_STATUSES \<longrightarrow> i' = i)"
    using assms by (intro bexI [of _ "if it_id i = iid then f i else i"]) auto
qed

lemma item_update_evolves:
  assumes wf: "kwf db" and up: "item_update env now db item f db'" and "same_identity item (f item)"
    and open_item: "it_status item \<in> set LEASED_STATUSES"
  shows "evolves db db'"
proof (rule update_evolves [OF item_update_items [OF up]])
  fix i assume i: "i \<in> set (kd_items db)" "it_id i = it_id item"
  have "item \<in> set (kd_items db)" using up by (simp add: item_update_def)
  then have "i = item" using unique_item [OF wf i(1)] i(2) by blast
  then show "same_identity i (f i) \<and> it_status i \<notin> set TERMINAL_ITEM_STATUSES" using assms leased_open by simp
qed

lemmas row_defs = completed_row_def fail_row_def deferred_row_def cancelled_row_def cancelled_claim_row_def retried_row_def
  recovered_row_def claim_row_def

lemma leased_update_evolves:
  assumes "kwf db" and "item_update env now db item f db'" and "leased_item db iid w = Inr (item, job)" and "same_identity item (f item)"
  shows "evolves db db'"
  using item_update_evolves [OF assms(1,2,4)] leased_itemD [OF assms(3)] by blast

lemma recover_evolves:
  assumes "kwf db" and "recover_expired_leases env now db = Inr (db', rec)"
  shows "evolves db db'"
proof -
  have "kwf (fst (db', rec)) \<and> evolves db (fst (db', rec))"
  proof (rule efold_invariant [OF assms(2) [unfolded recover_expired_leases_def]])
    fix s x s' assume s: "kwf (fst s) \<and> evolves db (fst s)" and "recover_one env now s x = Inr s'"
    then have "recover_one env now (fst s, snd s) x = Inr (fst s', snd s')" by simp
    then show "kwf (fst s') \<and> evolves db (fst s')"
    proof (rule recover_one_update)
      fix item job assume "lease_expired now item"
        and up: "item_update env now (fst s) item (recovered_row now (jb_cancel_requested job)) (fst s')"
      then have "evolves (fst s) (fst s')"
        using s by (intro item_update_evolves [OF _ up]) (auto simp: row_defs same_identity_def lease_expired_def)
      then show ?thesis using s evolves_trans item_update_wf [OF _ up] by blast
    qed (use s in simp)
  qed (use assms in \<open>simp add: evolves_same\<close>)
  then show ?thesis by simp
qed

lemma create_items:
  assumes "create_job env now db ws sid dir ver files m pid = Inr (db', v)"
  shows "\<exists>rows. kd_items db' = kd_items db @ rows \<and> (\<forall>i \<in> set rows. it_status i = ''queued'' \<and> it_lease_owner i = None)"
  using assms
proof (rule create_job_shape)
  fix db1 assume "pid = None \<and> db1 = db\<lparr>kd_drawn := Suc (kd_drawn db)\<rparr> \<or>
        (\<exists>p. pid = Some p \<and> start_plan (db\<lparr>kd_drawn := Suc (kd_drawn db)\<rparr>) p = Inr (Inr db1))"
    and ins: "insert_job env now db1 (random_id env ''kjob'' db) ws sid pid dir ver files m = Inr db'"
  then have same: "kd_items db1 = kd_items db" by (auto dest!: start_plan_frame)
  from ins show ?thesis
  proof (rule insert_job_shape)
    fix rows db2 db3
    assume rows: "list_all2 (row_of_file (random_id env ''kjob'' db) sid) rows files" and items: "kd_items db2 = kd_items db1 @ rows"
      and app: "append_job_event env now db2 (random_id env ''kjob'' db) ''job'' ''queued'' None [(''total_items'', PInt (int (length files)))] = Inr db3"
      and fin: "if files = [] then refresh_job env now db3 (random_id env ''kjob'' db) = Inr db' else db' = db3"
    have "kd_items db' = kd_items db3" using fin by (auto dest!: refresh_frame split: if_splits)
    then have "kd_items db' = kd_items db @ rows" using append_frame [OF app] same items by simp
    moreover have "\<forall>i \<in> set rows. it_status i = ''queued'' \<and> it_lease_owner i = None"
      using rows by (auto simp: list_all2_conv_all_nth in_set_conv_nth row_of_file_def)
    ultimately show ?thesis by blast
  qed
qed simp

lemma create_evolves:
  assumes "create_job env now db ws sid dir ver files m pid = Inr (db', v)"
  shows "evolves db db'"
  using create_items [OF assms] by (force simp: evolves_def)

lemma cancel_job_evolves:
  assumes "kwf db" and "cancel_job env now db jid = Inr (db', v)"
  shows "evolves db db'"
  unfolding evolves_def
proof
  fix i assume "i \<in> set (kd_items db)"
  then show "\<exists>i' \<in> set (kd_items db'). same_identity i i' \<and> (it_status i \<in> set TERMINAL_ITEM_STATUSES \<longrightarrow> i' = i)"
    using cancel_job_shape [OF assms]
    by (intro bexI [of _ "if it_job_id i = jid \<and> it_status i \<in> set READY_STATUSES then cancelled_row i else i"])
      (auto simp: same_identity_def row_defs status_sets)
qed

lemma stage_evolves:
  assumes wf: "kwf db" and "stage \<in> set LEASED_STATUSES" and op: "start_stage stage env now db iid w = Inr db'"
  shows "evolves db db'"
proof -
  obtain item job where l: "leased_item db iid w = Inr (item, job)"
    and items: "kd_items db' = update_where (\<lambda>r. it_id r = iid) (\<lambda>i. i\<lparr>it_status := stage\<rparr>) (kd_items db)"
    using start_stage_shape [OF assms] by blast
  note m = leased_itemD [OF l]
  show ?thesis
  proof (rule update_evolves [OF items])
    fix i assume "i \<in> set (kd_items db)" "it_id i = iid"
    then have "i = item" using unique_item [OF wf] m by blast
    then show "same_identity i (i\<lparr>it_status := stage\<rparr>) \<and> it_status i \<notin> set TERMINAL_ITEM_STATUSES"
      using m leased_open by (simp add: same_identity_def)
  qed
qed

lemma heartbeat_evolves: "kwf db \<Longrightarrow> evolves db (fst (heartbeat now db iid w l))"
proof (cases "find_item db iid")
  case (Some item)
  assume wf: "kwf db"
  show ?thesis
  proof (cases "owns_lease item w")
    case True
    have "evolves db (upd_item iid (\<lambda>i. i\<lparr>it_lease_expires_at := Some (now + l)\<rparr>) db)"
    proof (rule update_evolves)
      fix i assume "i \<in> set (kd_items db)" "it_id i = iid"
      then have "i = item" using unique_item [OF wf] find_itemD [OF Some] by blast
      then show "same_identity i (i\<lparr>it_lease_expires_at := Some (now + l)\<rparr>) \<and> it_status i \<notin> set TERMINAL_ITEM_STATUSES"
        using True leased_open by (simp add: same_identity_def owns_lease_def)
    qed simp
    then show ?thesis using Some True by (simp add: heartbeat_def)
  qed (use Some in \<open>simp add: heartbeat_def evolves_same\<close>)
qed (simp add: heartbeat_def evolves_same)

lemma claim_evolves:
  assumes wf: "kwf db" and "claim_item env now db iid w l = Inr (db', v)"
  shows "evolves db db'"
  using assms(2)
proof (rule claim_shape [OF wf])
  fix item job assume item: "find_item db iid = Some item" "ready_at now item"
    and items: "kd_items db' = update_where (\<lambda>r. it_id r = iid) (claim_row now w l) (kd_items db)"
  show ?thesis
  proof (rule update_evolves [OF items])
    fix i assume "i \<in> set (kd_items db)" "it_id i = iid"
    then have "i = item" using unique_item [OF wf] find_itemD [OF item(1)] by blast
    then show "same_identity i (claim_row now w l i) \<and> it_status i \<notin> set TERMINAL_ITEM_STATUSES"
      using item(2) by (auto simp: same_identity_def row_defs ready_at_def status_sets)
  qed
qed (simp add: evolves_same)

lemma event_ops_items:
  "mark_external_parse_terminal env now db iid w s c = Inr db' \<Longrightarrow> kd_items db' = kd_items db \<and> kd_keys db' = kd_keys db"
  "record_parser_progress env now db iid w a v st cu tu r = Inr db' \<Longrightarrow> kd_items db' = kd_items db \<and> kd_keys db' = kd_keys db"
  by (auto simp: mark_external_parse_terminal_def record_parser_progress_def split: option.splits dest!: append_frame)

lemma event_ops_evolves:
  "mark_external_parse_terminal env now db iid w s c = Inr db' \<Longrightarrow> evolves db db'"
  "record_parser_progress env now db iid w a v st cu tu r = Inr db' \<Longrightarrow> evolves db db'"
  by (simp_all add: event_ops_items evolves_same)

lemma same_core_evolves: "same_core db db' \<Longrightarrow> evolves db db'"
  by (simp add: same_core_def evolves_same)

lemma kexec_evolves:
  assumes wf: "kwf db" and op: "kexec env now db op = Inr db'" and "\<And>jid iid. op \<noteq> KRetry jid iid"
  shows "evolves db db'"
proof (cases op)
  case (KDefer iid w a v t s d)
  then have "defer_external_parse env now db iid w a v t s d = Inr db'" using op by simp
  then show ?thesis by (rule defer_update) (auto intro: leased_update_evolves [OF wf] simp: same_identity_def row_defs)
next
  case (KComplete iid w p s)
  then have "complete_item env now db iid w p s = Inr db'" using op by simp
  then show ?thesis by (rule complete_update) (auto intro: leased_update_evolves [OF wf] simp: same_identity_def row_defs)
next
  case (KFail iid w e d c r)
  then have "fail_item env now db iid w e d c r = Inr db'" using op by simp
  then show ?thesis by (rule fail_update) (auto intro: leased_update_evolves [OF wf] simp: same_identity_def row_defs)
next
  case (KCancelClaimed iid w)
  then have "cancel_claimed_item env now db iid w = Inr db'" using op by simp
  then show ?thesis by (rule cancel_claimed_update) (auto intro: leased_update_evolves [OF wf] simp: same_identity_def row_defs)
qed (use assms in \<open>auto intro: create_evolves same_core_evolves ensure_workspace_core scan_core create_sync_plan_core
    claim_idempotency_core heartbeat_evolves claim_evolves cancel_job_evolves recover_evolves stage_evolves
    simp: start_parsing_def start_applying_def start_understanding_def LEASED_STATUSES_def
    intro: event_ops_evolves\<close>)

section \<open>Runs of operations\<close>

definition krun :: "kenv \<Rightarrow> kdb \<Rightarrow> (int \<times> kop) list \<Rightarrow> kdb result" where
  "krun env db ops = efold (\<lambda>d (now, op). kexec env now d op) db ops"

lemma krun_reach: "krun env db ops = Inr db' \<Longrightarrow> rtranclp (kstep env) db db'"
proof (induction ops arbitrary: db)
  case (Cons x ops)
  then obtain d where "kexec env (fst x) db (snd x) = Inr d" "krun env d ops = Inr db'" by (auto simp: krun_def split: prod.splits)
  then show ?case using Cons.IH kstep.step by (meson converse_rtranclp_into_rtranclp)
qed (simp add: krun_def)

definition sample_kenv :: kenv where
  "sample_kenv = \<lparr>sha_text = (\<lambda>s. s), sha_json = (\<lambda>_. ''h''), random_hex = (\<lambda>n. replicate n (CHR ''x''))\<rparr>"

definition sample_file :: "string \<Rightarrow> scanned_file" where
  "sample_file p = \<lparr>sf_relative_path = p, sf_source_revision = ''1'', sf_idempotency_key = p, sf_change_kind = ''added''\<rparr>"

definition sample_source :: string where
  "sample_source = ''ksrc_w'' @ [CHR 0x00] @ ''r''"

definition after_ops :: "kdb \<Rightarrow> (int \<times> kop) list \<Rightarrow> kdb" where
  "after_ops db ops = (case krun sample_kenv db ops of Inr d \<Rightarrow> d | Inl _ \<Rightarrow> empty_kdb)"

lemma after_run: "\<not> isl (krun sample_kenv db ops) \<Longrightarrow> krun sample_kenv db ops = Inr (after_ops db ops)"
  by (auto simp: after_ops_def isl_def split: sum.splits)

end
