(* ===== verification/Knowledge_Guarantees.thy ===== *)
theory Knowledge_Guarantees
  imports Knowledge_Progress
begin

text \<open>
  The guarantees of the ingestion repository in every history of its operations: the event feed of a
  job, its progress counters, the fate of items, leases, idempotency keys and the committed manifest.
\<close>

section \<open>The event feed of a job\<close>

lemma sorted_seqs_sort:
  assumes "map je_sequence es = [1..n]"
  shows "sort_key je_sequence (filter (\<lambda>e. c < je_sequence e) es) = filter (\<lambda>e. c < je_sequence e) es"
proof (rule sort_key_id_if_sorted)
  have "sorted (map je_sequence es)" by (simp add: assms)
  then show "sorted (map je_sequence (filter (\<lambda>e. c < je_sequence e) es))" by (simp add: sorted_filter)
qed

definition feed :: "kdb \<times> string \<Rightarrow> int \<Rightarrow> nat \<Rightarrow> job_event_row list" where
  "feed s after limit = (case list_events (fst s) (snd s) after limit of Inr es \<Rightarrow> es | Inl _ \<Rightarrow> [])"

lemma job_of_events:
  assumes "kwf db" and "find_job db jid = Some job"
  shows "map je_sequence (job_events db jid) = [1..jb_event_sequence job]" and "int (length (job_events db jid)) = jb_event_sequence job"
proof -
  show "map je_sequence (job_events db jid) = [1..jb_event_sequence job]"
    using assms find_jobD [OF assms(2)] by (auto simp: kwf_def events_wf_def)
  then have "length (job_events db jid) = length [1..jb_event_sequence job]" by (metis length_map)
  moreover have "0 \<le> jb_event_sequence job" using assms find_jobD [OF assms(2)] by (auto simp: kwf_def events_wf_def)
  ultimately show "int (length (job_events db jid)) = jb_event_sequence job" by simp
qed

interpretation job_feed: sequenced_log "\<lambda>s. kwf (fst s) \<and> find_job (fst s) (snd s) \<noteq> None" "\<lambda>s. job_events (fst s) (snd s)" je_sequence feed
proof unfold_locales
  fix s :: "kdb \<times> string" and c n
  assume "kwf (fst s) \<and> find_job (fst s) (snd s) \<noteq> None"
  then obtain job where wf: "kwf (fst s)" and job: "find_job (fst s) (snd s) = Some job" by blast
  note ev = job_of_events [OF wf job]
  show "map je_sequence (job_events (fst s) (snd s)) = [1..int (length (job_events (fst s) (snd s)))]" using ev by simp
  have "filter (\<lambda>e. je_job_id e = snd s \<and> c < je_sequence e) (kd_events (fst s)) = filter (\<lambda>e. c < je_sequence e) (job_events (fst s) (snd s))"
    by (simp add: job_events_def conj_commute)
  then show "feed s c n = take n (filter (\<lambda>e. c < je_sequence e) (job_events (fst s) (snd s)))"
    using job sorted_seqs_sort [OF ev(1)] by (simp add: feed_def list_events_def found_def)
qed

text \<open>
  C14: the event feed of a job has no gap. After any history of operations, reading the feed of an existing
  job after a cursor returns, and the events read are numbered consecutively from the cursor on, as many
  as the limit and the counter of the job allow; so a browser that polls with its last number misses none.
\<close>

theorem job_feed_gap_free:
  assumes "rtranclp (kstep env) empty_kdb db" and "find_job db jid = Some job" and "0 \<le> after"
  shows "\<exists>es. list_events db jid after limit = Inr es \<and>
    map je_sequence es = [after + 1..min (after + int limit) (jb_event_sequence job)] \<and> (\<forall>e \<in> set es. je_job_id e = jid)"
proof -
  have wf: "kwf db" using reachable_kwf [OF assms(1) empty_kwf] .
  have l: "list_events db jid after limit = Inr (feed (db, jid) after limit)"
    using assms(2) by (simp add: feed_def list_events_def found_def)
  have inv: "kwf (fst (db, jid)) \<and> find_job (fst (db, jid)) (snd (db, jid)) \<noteq> None" using wf assms(2) by simp
  have "map je_sequence (feed (db, jid) after limit) = [after + 1..min (after + int limit) (jb_event_sequence job)]"
    using job_feed.page_seqs [OF inv assms(3), of limit] job_of_events(2) [OF wf assms(2)] by simp
  moreover have "je_job_id e = jid" if "e \<in> set (feed (db, jid) after limit)" for e
    using that job_feed.page_drop [OF inv assms(3), of limit] by (auto simp: job_events_def dest!: in_set_takeD in_set_dropD)
  ultimately show ?thesis using l by blast
qed

section \<open>Progress counters\<close>

text \<open>
  C7: the progress a job reports is exact. After any history of operations, the counters of every job are the
  numbers of its items with the status they name, the total is the number of its items, and the status
  of the job is terminal exactly when no item is left open.
\<close>

theorem job_progress_exact:
  assumes "rtranclp (kstep env) empty_kdb db" and "job \<in> set (kd_jobs db)"
  shows "jb_total_items job = int (length (filter (\<lambda>i. it_job_id i = jb_id job) (kd_items db))) \<and>
    jb_succeeded_items job = status_count db (jb_id job) ''completed'' \<and>
    jb_skipped_items job = status_count db (jb_id job) ''skipped'' \<and>
    jb_failed_items job = status_count db (jb_id job) ''dead_letter'' \<and>
    jb_cancelled_items job = status_count db (jb_id job) ''cancelled'' \<and>
    jb_processed_items job = jb_succeeded_items job + jb_skipped_items job + jb_failed_items job + jb_cancelled_items job \<and>
    (jb_status job \<in> set TERMINAL_JOB_STATUSES \<longleftrightarrow>
      (\<forall>i \<in> set (kd_items db). it_job_id i = jb_id job \<longrightarrow> it_status i \<in> set TERMINAL_ITEM_STATUSES))"
proof -
  have wf: "kwf db" using reachable_kwf [OF assms(1) empty_kwf] .
  have ok: "job_ok db job" using wf assms(2) by (simp add: kwf_def)
  have sum: "jb_processed_items job = jb_succeeded_items job + jb_skipped_items job + jb_failed_items job + jb_cancelled_items job"
    using ok sum_status_counts [OF terminal_statuses_distinct, of db "jb_id job"]
    by (simp add: job_ok_def counts_ok_def TERMINAL_ITEM_STATUSES_def)
  have "jb_status job \<in> set TERMINAL_JOB_STATUSES \<longleftrightarrow>
      (\<forall>i \<in> set (kd_items db). it_job_id i = jb_id job \<longrightarrow> it_status i \<in> set TERMINAL_ITEM_STATUSES)"
  proof
    assume "jb_status job \<in> set TERMINAL_JOB_STATUSES"
    then show "\<forall>i \<in> set (kd_items db). it_job_id i = jb_id job \<longrightarrow> it_status i \<in> set TERMINAL_ITEM_STATUSES"
      using open_item_open_job(1) [OF ok] by blast
  next
    assume "\<forall>i \<in> set (kd_items db). it_job_id i = jb_id job \<longrightarrow> it_status i \<in> set TERMINAL_ITEM_STATUSES"
    then have "filter (\<lambda>i. it_job_id i = jb_id job \<and> it_status i \<in> set TERMINAL_ITEM_STATUSES) (kd_items db) =
        filter (\<lambda>i. it_job_id i = jb_id job) (kd_items db)" by (intro filter_cong) auto
    then show "jb_status job \<in> set TERMINAL_JOB_STATUSES"
      using ok by (simp add: job_ok_def counts_ok_def total_ok_def rowcount_def)
  qed
  then show ?thesis using ok sum by (simp add: job_ok_def counts_ok_def total_ok_def rowcount_def)
qed

section \<open>A sample history\<close>

definition started_ops :: "(int \<times> kop) list" where
  "started_ops = [(1, KEnsure ''w'' ''W'' ''r'' ''local'' ''Notes'' ''fs'' ''1''),
     (2, KCreateJob ''w'' sample_source ''.'' ''v1'' [sample_file ''a'', sample_file ''b''] 3 None),
     (3, KClaim ''kitem_x'' ''worker'' 60), (4, KClaimKey ''kitem_x'')]"

definition started_kdb :: kdb where
  "started_kdb = (case krun sample_kenv empty_kdb started_ops of Inr d \<Rightarrow> d | Inl _ \<Rightarrow> empty_kdb)"

lemma started_run: "krun sample_kenv empty_kdb started_ops = Inr started_kdb"
proof -
  have "\<not> isl (krun sample_kenv empty_kdb started_ops)" by code_simp
  then show ?thesis by (auto simp: started_kdb_def isl_def split: sum.splits)
qed

lemma started_job: "map jb_event_sequence (kd_jobs started_kdb) = [2]" "map jb_id (kd_jobs started_kdb) = [''kjob_'']" "map it_status (kd_items started_kdb) = [''claimed'', ''queued'']"
  by code_simp+

lemma started_reach: "rtranclp (kstep sample_kenv) empty_kdb started_kdb"
  by (rule krun_reach [OF started_run])

theorem job_feed_gap_free_witness:
  "\<exists>es. list_events started_kdb ''kjob_'' 0 10 = Inr es \<and> map je_sequence es = [1, 2]"
proof -
  have "map_option jb_event_sequence (find_job started_kdb ''kjob_'') = Some 2" by code_simp
  then obtain job where j: "find_job started_kdb ''kjob_'' = Some job" "jb_event_sequence job = 2" by auto
  have "[0 + 1..min (0 + int 10) 2] = [1, 2 :: int]" by code_simp
  then show ?thesis using job_feed_gap_free [OF started_reach j(1), of 0 10] j(2) by auto
qed

theorem job_progress_exact_witness:
  "\<exists>job \<in> set (kd_jobs started_kdb). jb_total_items job = 2 \<and> jb_status job \<notin> set TERMINAL_JOB_STATUSES"
proof -
  obtain job where job: "job \<in> set (kd_jobs started_kdb)" using started_job(2) by (cases "kd_jobs started_kdb") auto
  have "\<forall>j \<in> set (kd_jobs started_kdb). jb_id j = ''kjob_''" by code_simp
  then have id: "jb_id job = ''kjob_''" using job by blast
  have "length (filter (\<lambda>i. it_job_id i = ''kjob_'') (kd_items started_kdb)) = 2"
    "\<not> (\<forall>i \<in> set (kd_items started_kdb). it_job_id i = ''kjob_'' \<longrightarrow> it_status i \<in> set TERMINAL_ITEM_STATUSES)" by code_simp+
  then have "jb_total_items job = int 2" "jb_status job \<notin> set TERMINAL_JOB_STATUSES"
    using job_progress_exact [OF started_reach job] unfolding id by metis+
  then show ?thesis using job by auto
qed

section \<open>Leases and the fate of items\<close>

text \<open>The item and the worker that an operation presents.\<close>

fun worker_of :: "kop \<Rightarrow> (string \<times> string) option" where
  "worker_of (KDefer iid w a v t s d) = Some (iid, w)"
| "worker_of (KMarkExternal iid w s c) = Some (iid, w)"
| "worker_of (KHeartbeat iid w l) = Some (iid, w)"
| "worker_of (KStartParsing iid w) = Some (iid, w)"
| "worker_of (KStartApplying iid w) = Some (iid, w)"
| "worker_of (KStartUnderstanding iid w) = Some (iid, w)"
| "worker_of (KProgress iid w a v s c t r) = Some (iid, w)"
| "worker_of (KComplete iid w p s) = Some (iid, w)"
| "worker_of (KFail iid w e d c r) = Some (iid, w)"
| "worker_of (KCancelClaimed iid w) = Some (iid, w)"
| "worker_of _ = None"

definition holds_lease :: "kdb \<Rightarrow> string \<Rightarrow> string \<Rightarrow> bool" where
  "holds_lease db iid w \<longleftrightarrow> (\<exists>i \<in> set (kd_items db). it_id i = iid \<and> it_lease_owner i = Some w \<and> it_status i \<in> set LEASED_STATUSES)"

lemma leased_item_holds: "leased_item db iid w = Inr x \<Longrightarrow> holds_lease db iid w"
  by (cases x) (auto simp: holds_lease_def dest!: leased_itemD)

lemma worker_op_holds:
  assumes "kexec env now db op = Inr db'" and "worker_of op = Some (iid, w)"
  shows "holds_lease db iid w \<or> db' = db"
proof (cases op)
  case (KHeartbeat i v l)
  then show ?thesis using assms
    by (auto simp: heartbeat_def holds_lease_def owns_lease_def split: option.splits if_splits dest!: find_itemD)
qed (use assms in \<open>auto simp: defer_external_parse_def mark_external_parse_terminal_def start_parsing_def start_applying_def
    start_understanding_def start_stage_def record_parser_progress_def complete_item_def fail_item_def cancel_claimed_item_def
    dest!: leased_item_holds\<close>)

text \<open>No operation but a claim makes a worker the owner of a lease.\<close>

definition owners_from :: "kdb \<Rightarrow> kdb \<Rightarrow> bool" where
  "owners_from db db' \<longleftrightarrow> (\<forall>i' \<in> set (kd_items db'). \<forall>w. it_lease_owner i' = Some w \<longrightarrow>
     (\<exists>i \<in> set (kd_items db). it_id i = it_id i' \<and> it_lease_owner i = Some w))"

lemma owners_same: "kd_items db' = kd_items db \<Longrightarrow> owners_from db db'"
  by (auto simp: owners_from_def)

lemma owners_trans: "owners_from db db1 \<Longrightarrow> owners_from db1 db2 \<Longrightarrow> owners_from db db2"
  unfolding owners_from_def by metis

lemma owners_map:
  assumes "kd_items db' = map f (kd_items db) @ rows" and "\<And>i. it_id (f i) = it_id i"
    and "\<And>i. it_lease_owner (f i) = it_lease_owner i \<or> it_lease_owner (f i) = None" and "\<And>i. i \<in> set rows \<Longrightarrow> it_lease_owner i = None"
  shows "owners_from db db'"
  unfolding owners_from_def
proof (intro ballI allI impI)
  fix i' w assume i': "i' \<in> set (kd_items db')" "it_lease_owner i' = Some w"
  then obtain i where "i \<in> set (kd_items db)" "i' = f i" using assms(1,4) by fastforce
  then show "\<exists>i \<in> set (kd_items db). it_id i = it_id i' \<and> it_lease_owner i = Some w"
    using i'(2) assms(2,3) [of i] by (intro bexI [of _ i]) auto
qed

lemma owners_update:
  assumes "kd_items db' = update_where (\<lambda>r. it_id r = x) f (kd_items db)" and "\<And>i. it_id (f i) = it_id i"
    and "\<And>i. it_lease_owner (f i) = it_lease_owner i \<or> it_lease_owner (f i) = None"
  shows "owners_from db db'"
  by (rule owners_map [of _ "\<lambda>r. if it_id r = x then f r else r" _ "[]"]) (use assms in \<open>auto simp: update_where_def\<close>)

lemma recover_owners:
  assumes "recover_expired_leases env now db = Inr (db', rec)"
  shows "owners_from db db'"
proof -
  have "owners_from db (fst (db', rec))"
  proof (rule efold_invariant [OF assms [unfolded recover_expired_leases_def]])
    fix s x s' assume s: "owners_from db (fst s)" and "recover_one env now s x = Inr s'"
    then have "recover_one env now (fst s, snd s) x = Inr (fst s', snd s')" by simp
    then show "owners_from db (fst s')"
    proof (rule recover_one_update)
      fix item job assume up: "item_update env now (fst s) item (recovered_row now (jb_cancel_requested job)) (fst s')"
      have "owners_from (fst s) (fst s')" by (rule owners_update [OF item_update_items [OF up]]) (simp_all add: row_defs)
      then show ?thesis using s owners_trans by blast
    qed (use s in simp)
  qed (simp add: owners_same)
  then show ?thesis by simp
qed

lemma create_owners:
  assumes "create_job env now db ws sid dir ver files m pid = Inr (db', v)"
  shows "owners_from db db'"
  using create_items [OF assms]
proof (elim exE conjE)
  fix rows assume "kd_items db' = kd_items db @ rows" "\<forall>i \<in> set rows. it_status i = ''queued'' \<and> it_lease_owner i = None"
  then show ?thesis by (intro owners_map [of _ "\<lambda>i. i" _ rows]) auto
qed

lemma same_core_owners: "same_core db db' \<Longrightarrow> owners_from db db'"
  by (simp add: same_core_def owners_same)

lemma item_update_owners:
  assumes "item_update env now db item f db'" and "\<And>i. it_id (f i) = it_id i"
    and "\<And>i. it_lease_owner (f i) = it_lease_owner i \<or> it_lease_owner (f i) = None"
  shows "owners_from db db'"
  by (rule owners_update [OF item_update_items [OF assms(1)]]) (use assms in auto)

lemma settle_ops_owners:
  "complete_item env now db iid w p s = Inr db' \<Longrightarrow> owners_from db db'"
  "fail_item env now db iid w e d c r = Inr db' \<Longrightarrow> owners_from db db'"
  "defer_external_parse env now db iid w a v t st d = Inr db' \<Longrightarrow> owners_from db db'"
  "cancel_claimed_item env now db iid w = Inr db' \<Longrightarrow> owners_from db db'"
  "kwf db \<Longrightarrow> retry_item env now db jid iid = Inr db' \<Longrightarrow> owners_from db db'"
  by ((erule complete_update fail_update defer_update cancel_claimed_update | erule (1) retry_update),
      erule item_update_owners, simp_all add: row_defs)+

lemma cancel_job_owners:
  assumes "kwf db" and "cancel_job env now db jid = Inr (db', v)"
  shows "owners_from db db'"
  by (rule owners_map [of _ "\<lambda>i. if it_job_id i = jid \<and> it_status i \<in> set READY_STATUSES then cancelled_row i else i" _ "[]"])
    (use cancel_job_shape [OF assms] in auto)

lemma stage_owners:
  assumes "kwf db" and "stage \<in> set LEASED_STATUSES" and "start_stage stage env now db iid w = Inr db'"
  shows "owners_from db db'"
  using assms(3)
proof (rule start_stage_shape [OF assms(1,2)])
  assume "kd_items db' = update_where (\<lambda>r. it_id r = iid) (\<lambda>i. i\<lparr>it_status := stage\<rparr>) (kd_items db)"
  then show ?thesis by (rule owners_update) simp_all
qed

lemma heartbeat_owners: "kwf db \<Longrightarrow> owners_from db (fst (heartbeat now db iid w l))"
  using heartbeat_shape(3) [of db now iid w l] by (auto intro: owners_same owners_update)

lemma event_ops_owners:
  "mark_external_parse_terminal env now db iid w s c = Inr db' \<Longrightarrow> owners_from db db'"
  "record_parser_progress env now db iid w a v st cu tu r = Inr db' \<Longrightarrow> owners_from db db'"
  by (simp_all add: event_ops_items owners_same)

lemma kexec_owners:
  assumes wf: "kwf db" and op: "kexec env now db op = Inr db'" and "\<And>iid w l. op \<noteq> KClaim iid w l"
  shows "owners_from db db'"
  using assms
  by (cases op) (auto intro: create_owners same_core_owners ensure_workspace_core scan_core create_sync_plan_core
    claim_idempotency_core heartbeat_owners cancel_job_owners recover_owners stage_owners event_ops_owners settle_ops_owners
    simp: start_parsing_def start_applying_def start_understanding_def LEASED_STATUSES_def)

lemma claim_owners:
  assumes wf: "kwf db" and "claim_item env now db x v l = Inr (db', r)" and "holds_lease db' iid w" and "x \<noteq> iid \<or> v \<noteq> w"
  shows "holds_lease db iid w"
  using assms(2)
proof (rule claim_shape [OF wf])
  assume "kd_items db' = update_where (\<lambda>r. it_id r = x) (claim_row now v l) (kd_items db)"
  then show ?thesis using assms(3,4) by (auto simp: holds_lease_def row_defs split: if_splits)
qed (use assms in simp)

lemma lease_only_by_claim:
  assumes wf: "kwf db" and op: "kexec env now db op = Inr db'" and "holds_lease db' iid w" and "\<And>l. op \<noteq> KClaim iid w l"
  shows "holds_lease db iid w"
proof (cases "\<exists>x v l. op = KClaim x v l")
  case True
  then obtain x v l where c: "op = KClaim x v l" by blast
  then obtain r where "claim_item env now db x v l = Inr (db', r)" using op by auto
  moreover have "x \<noteq> iid \<or> v \<noteq> w" using assms(4) c by blast
  ultimately show ?thesis using claim_owners [OF wf _ assms(3)] by blast
next
  case False
  then have "owners_from db db'" using kexec_owners [OF wf op] by blast
  then obtain i where "i \<in> set (kd_items db)" "it_id i = iid" "it_lease_owner i = Some w"
    using assms(3) by (auto simp: owners_from_def holds_lease_def)
  then show ?thesis using item_is_ok [OF wf] by (auto simp: holds_lease_def item_ok_def)
qed

text \<open>
  C15: a worker that lost an item cannot touch it. When a worker does not hold the lease of an item, then
  after any further operations in which that worker does not claim the item again it still does not hold
  it, and each of its calls on the item, from heartbeats to completion, is refused or changes nothing.
\<close>

theorem lost_lease_fenced:
  assumes "rtranclp (kstep env) empty_kdb db" and "\<not> holds_lease db iid w"
    and "krun env db ops = Inr db'" and "\<forall>(now, op) \<in> set ops. \<forall>l. op \<noteq> KClaim iid w l"
    and "worker_of call = Some (iid, w)" and "kexec env now db' call = Inr db''"
  shows "db'' = db'"
proof -
  have "kwf db' \<and> \<not> holds_lease db' iid w"
    by (rule efold_invariant [OF assms(3) [unfolded krun_def]])
      (use assms(1,2,4) reachable_kwf [OF assms(1) empty_kwf] kexec_wf lease_only_by_claim in \<open>fastforce split: prod.splits\<close>)+
  then show ?thesis using worker_op_holds [OF assms(6,5)] by blast
qed

text \<open>
  C18: a finished item stays finished. In every history, an operation leaves an item that is completed, skipped,
  cancelled or dead-lettered exactly as it is, except that the explicit retry of a dead-letter item of a job that
  was not cancelled puts it back in the waiting line with no attempts counted.
\<close>

theorem finished_item_final:
  assumes "rtranclp (kstep env) empty_kdb db" and "kexec env now db op = Inr db'" and "i \<in> set (kd_items db)"
    and "it_status i \<in> set TERMINAL_ITEM_STATUSES"
  shows "i \<in> set (kd_items db') \<or> it_status i = ''dead_letter'' \<and> op = KRetry (it_job_id i) (it_id i) \<and>
    \<not> is_cancel_requested db (it_id i) \<and>
    i\<lparr>it_status := ''retry_wait'', it_attempts := 0, it_next_attempt_at := Some now, it_error := None\<rparr> \<in> set (kd_items db')"
proof (cases "\<exists>jid iid. op = KRetry jid iid")
  case True
  then obtain jid iid where op: "op = KRetry jid iid" by blast
  have wf: "kwf db" using reachable_kwf [OF assms(1) empty_kwf] .
  have r: "retry_item env now db jid iid = Inr db'" using assms(2) op by simp
  then show ?thesis
  proof (rule retry_update [OF wf])
    fix item job assume l: "locked_item_and_job db iid = Inr (item, job)" and d: "it_status item = ''dead_letter''"
      and nc: "\<not> jb_cancel_requested job" and up: "item_update env now db item (retried_row now) db'"
    note m = locked_itemD [OF l] and items = item_update_items [OF up]
    have jid: "jb_id job = jid" using r l by (auto simp: retry_item_def)
    show ?thesis
    proof (cases "it_id i = iid")
      case True
      have "i = item" by (rule unique_item [OF wf assms(3)]) (use m True in auto)
      moreover have "\<not> is_cancel_requested db iid" using l nc
        by (auto simp: is_cancel_requested_def locked_item_and_job_def split: option.splits)
      moreover have "retried_row now item \<in> set (kd_items db')" using m items by force
      ultimately show ?thesis using m d op jid by (simp add: retried_row_def)
    next
      case False
      have "i \<in> set (kd_items db')" unfolding items set_update_where
        by (rule image_eqI [of _ _ i]) (use assms(3) m False in auto)
      then show ?thesis by blast
    qed
  qed
next
  case False
  then have "evolves db db'" using kexec_evolves [OF reachable_kwf [OF assms(1) empty_kwf] assms(2)] by blast
  then show ?thesis using assms(3,4) unfolding evolves_def by metis
qed

section \<open>Idempotency keys\<close>

text \<open>A key whose owner finished for good: neither the owner nor another item can take it any more.\<close>

definition settled_key :: "kdb \<Rightarrow> key_row \<Rightarrow> bool" where
  "settled_key db k \<longleftrightarrow> k \<in> set (kd_keys db) \<and> ik_status k \<noteq> ''failed'' \<and>
     (\<exists>i \<in> set (kd_items db). it_id i = ik_owner_item_id k \<and> it_status i \<in> {''completed'', ''skipped'', ''cancelled''})"

definition keys_wf :: "kdb \<Rightarrow> bool" where
  "keys_wf db \<longleftrightarrow> distinct (map ik_key (kd_keys db)) \<and> (\<forall>k \<in> set (kd_keys db). ik_status k = ''completed'' \<longrightarrow> settled_key db k)"

lemma final_item_stays:
  assumes wf: "kwf db" and op: "kexec env now db op = Inr db'" and i: "i \<in> set (kd_items db)" "it_status i \<in> {''completed'', ''skipped'', ''cancelled''}"
  shows "i \<in> set (kd_items db')"
proof (cases "\<exists>jid iid. op = KRetry jid iid")
  case True
  then obtain jid iid where "retry_item env now db jid iid = Inr db'" using op by auto
  then show ?thesis
  proof (rule retry_update [OF wf])
    fix item job assume l: "locked_item_and_job db iid = Inr (item, job)" and d: "it_status item = ''dead_letter''"
      and up: "item_update env now db item (retried_row now) db'"
    have "it_id i \<noteq> it_id item" using unique_item [OF wf i(1)] locked_itemD [OF l] d i(2) by auto
    then show ?thesis unfolding item_update_items [OF up] set_update_where
      by (intro image_eqI [of _ _ i]) (use i in auto)
  qed
next
  case False
  then have "evolves db db'" using kexec_evolves [OF wf op] by blast
  moreover have "it_status i \<in> set TERMINAL_ITEM_STATUSES" using i(2) by (auto simp: TERMINAL_ITEM_STATUSES_def)
  ultimately show ?thesis using i(1) unfolding evolves_def by blast
qed

text \<open>What an operation does to the keys.\<close>

inductive key_change :: "kdb \<Rightarrow> kdb \<Rightarrow> bool" for db db' where
  same: "kd_keys db' = kd_keys db \<Longrightarrow> key_change db db'"
| settle: "holds_lease db iid w \<Longrightarrow> st = ''failed'' \<or> (\<exists>i \<in> set (kd_items db'). it_id i = iid \<and> it_status i = ''completed'') \<Longrightarrow>
    kd_keys db' = update_where (\<lambda>r. ik_key r = key \<and> ik_owner_item_id r = iid) f (kd_keys db) \<Longrightarrow>
    (\<And>k. ik_key (f k) = ik_key k \<and> ik_owner_item_id (f k) = ik_owner_item_id k \<and> ik_status (f k) = st) \<Longrightarrow> key_change db db'"
| acquire: "find_key db key = None \<Longrightarrow> ik_key row = key \<Longrightarrow> ik_status row = ''processing'' \<Longrightarrow> kd_keys db' = kd_keys db @ [row] \<Longrightarrow>
    key_change db db'"
| takeover: "find_key db key = Some k \<Longrightarrow> ik_status k = ''failed'' \<Longrightarrow>
    kd_keys db' = update_where (\<lambda>r. ik_key r = key)
      (\<lambda>r. r\<lparr>ik_owner_item_id := iid, ik_status := ''processing'', ik_proposal_id := None\<rparr>) (kd_keys db) \<Longrightarrow> key_change db db'"

lemma claim_key_change: "claim_idempotency db iid = Inr (db', c) \<Longrightarrow> key_change db db'"
  by (erule claim_idempotency_shape)
    (rule key_change.acquire, simp_all, auto intro: key_change.same key_change.takeover)

lemma complete_key_change:
  assumes "complete_item env now db iid w p s = Inr db'"
  shows "key_change db db'"
  using assms
proof (rule complete_update)
  fix item job assume l: "leased_item db iid w = Inr (item, job)" and up: "item_update env now db item (completed_row s p) db'"
    and keys: "kd_keys db' = (if s then kd_keys db else update_where (\<lambda>r. ik_key r = it_idempotency_key item \<and> ik_owner_item_id r = iid)
       (\<lambda>k. k\<lparr>ik_status := ''completed'', ik_proposal_id := p\<rparr>) (kd_keys db))"
  note m = leased_itemD [OF l]
  show ?thesis
  proof (cases s)
    case False
    have "completed_row s p item \<in> set (kd_items db')" unfolding item_update_items [OF up] set_update_where
      by (rule image_eqI [of _ _ item]) (use m in auto)
    then have "\<exists>i \<in> set (kd_items db'). it_id i = iid \<and> it_status i = ''completed''"
      using m False by (intro bexI [of _ "completed_row s p item"]) (simp_all add: row_defs)
    then show ?thesis
      using keys False leased_item_holds [OF l] by (intro key_change.settle [of db iid w "''completed''" db']) auto
  qed (use keys in \<open>simp add: key_change.same\<close>)
qed

lemma fail_key_change:
  assumes "fail_item env now db iid w e d c r = Inr db'"
  shows "key_change db db'"
  using assms
proof (rule fail_update)
  fix item job status assume l: "leased_item db iid w = Inr (item, job)"
    and keys: "kd_keys db' = (if status = ''retry_wait'' then kd_keys db
       else update_where (\<lambda>r. ik_key r = it_idempotency_key item \<and> ik_owner_item_id r = iid) (\<lambda>k. k\<lparr>ik_status := ''failed''\<rparr>) (kd_keys db))"
  show ?thesis
  proof (cases "status = ''retry_wait''")
    case False
    then show ?thesis using keys leased_item_holds [OF l] by (intro key_change.settle [of db iid w "''failed''" db']) auto
  qed (use keys in \<open>simp add: key_change.same\<close>)
qed

lemma recover_keys: "recover_expired_leases env now db = Inr (db', rec) \<Longrightarrow> kd_keys db' = kd_keys db"
proof -
  assume r: "recover_expired_leases env now db = Inr (db', rec)"
  have "kd_keys (fst (db', rec)) = kd_keys db"
  proof (rule efold_invariant [OF r [unfolded recover_expired_leases_def]])
    fix s x s' assume s: "kd_keys (fst s) = kd_keys db" and "recover_one env now s x = Inr s'"
    then have "recover_one env now (fst s, snd s) x = Inr (fst s', snd s')" by simp
    then show "kd_keys (fst s') = kd_keys db" by (rule recover_one_update) (use s in auto)
  qed simp
  then show ?thesis by simp
qed

lemma create_keys:
  assumes "create_job env now db ws sid dir ver files m pid = Inr (db', v)"
  shows "kd_keys db' = kd_keys db"
  using assms
proof (rule create_job_shape)
  fix db1 assume "pid = None \<and> db1 = db\<lparr>kd_drawn := Suc (kd_drawn db)\<rparr> \<or>
        (\<exists>p. pid = Some p \<and> start_plan (db\<lparr>kd_drawn := Suc (kd_drawn db)\<rparr>) p = Inr (Inr db1))"
    and ins: "insert_job env now db1 (random_id env ''kjob'' db) ws sid pid dir ver files m = Inr db'"
  then have same: "kd_keys db1 = kd_keys db" by (auto dest!: start_plan_frame)
  from ins show ?thesis
    by (rule insert_job_shape) (auto simp: same dest!: append_frame refresh_frame split: if_splits)
qed simp

lemma config_keys:
  "ensure_workspace env db a b c d e f g = Inr (db', x1) \<Longrightarrow> kd_keys db' = kd_keys db"
  "begin_source_scan now db sid a v = Inr (db', x2) \<Longrightarrow> kd_keys db' = kd_keys db"
  "record_source_scan_page db sid a v cu = Inr db' \<Longrightarrow> kd_keys db' = kd_keys db"
  "record_source_scan_failure db sid a v = Inr db' \<Longrightarrow> kd_keys db' = kd_keys db"
  subgoal unfolding ensure_workspace_def Let_def by (auto split: option.splits)
  by (auto simp: begin_source_scan_def record_source_scan_page_def record_source_scan_failure_def Let_def split: option.splits)

lemma plan_keys: "create_sync_plan env now db sc sid a v bc tc bw h cs = Inr (db', x) \<Longrightarrow> kd_keys db' = kd_keys db"
  by (erule create_sync_plan_shape) (drule ensure_sync_frame, simp)+

lemma worker_keys:
  assumes "kwf db"
  shows "defer_external_parse env now db iid w a v t st d = Inr db' \<Longrightarrow> kd_keys db' = kd_keys db"
    "cancel_claimed_item env now db iid w = Inr db' \<Longrightarrow> kd_keys db' = kd_keys db"
    "retry_item env now db jid iid = Inr db' \<Longrightarrow> kd_keys db' = kd_keys db"
    "claim_item env now db iid w l = Inr (db', r) \<Longrightarrow> kd_keys db' = kd_keys db"
  by (erule defer_update, simp, erule cancel_claimed_update, simp, erule retry_update [OF assms], simp,
      erule claim_shape [OF assms], simp, simp)

lemma stage_keys: "start_stage stage env now db iid w = Inr db' \<Longrightarrow> kd_keys db' = kd_keys db"
  by (auto simp: start_stage_def dest!: append_frame)

lemma kexec_keys:
  assumes wf: "kwf db" and op: "kexec env now db op = Inr db'"
  shows "key_change db db'"
  using assms
  by (cases op) (auto intro: claim_key_change complete_key_change fail_key_change key_change.same config_keys plan_keys create_keys
      recover_keys worker_keys [OF wf] stage_keys event_ops_items [THEN conjunct2] heartbeat_shape(2) [OF wf]
      cancel_job_shape [OF wf, THEN conjunct2, THEN conjunct1]
      simp: start_parsing_def start_applying_def start_understanding_def)

lemma key_change_settled:
  assumes wf: "kwf db" and d: "distinct (map ik_key (kd_keys db))" and s: "settled_key db k" and c: "key_change db db'"
  shows "k \<in> set (kd_keys db')"
  using c
proof cases
  case (settle iid w st key f)
  have "ik_owner_item_id k \<noteq> iid"
  proof
    assume "ik_owner_item_id k = iid"
    then obtain i i' where "i \<in> set (kd_items db)" "it_id i = iid" "it_status i \<in> {''completed'', ''skipped'', ''cancelled''}"
      "i' \<in> set (kd_items db)" "it_id i' = iid" "it_status i' \<in> set LEASED_STATUSES"
      using s settle(1) by (auto simp: settled_key_def holds_lease_def)
    moreover from this have "i = i'" by (intro unique_item [OF wf]) auto
    ultimately show False by (auto simp: LEASED_STATUSES_def)
  qed
  then show ?thesis using s unfolding settle(3) set_update_where settled_key_def by (intro image_eqI [of _ _ k]) auto
next
  case (takeover key k' iid)
  have "k' \<in> set (kd_keys db) \<and> ik_key k' = key" using takeover(1) unfolding find_key_def by (rule fetchone_SomeD)
  then have "ik_key k \<noteq> key" using map_key_inj [OF d] s takeover(2) by (auto simp: settled_key_def)
  then show ?thesis using s unfolding takeover(3) set_update_where settled_key_def by (intro image_eqI [of _ _ k]) auto
qed (use s in \<open>auto simp: settled_key_def\<close>)

lemma key_change_distinct:
  assumes "distinct (map ik_key (kd_keys db))" and "key_change db db'"
  shows "distinct (map ik_key (kd_keys db'))"
  using assms(2) by cases (use assms(1) in \<open>auto simp: map_update_where find_key_def\<close>)

lemma settled_key_stays:
  assumes wf: "kwf db" and d: "distinct (map ik_key (kd_keys db))" and s: "settled_key db k" and op: "kexec env now db op = Inr db'"
  shows "settled_key db' k"
  using key_change_settled [OF wf d s kexec_keys [OF wf op]] s final_item_stays [OF wf op] unfolding settled_key_def by blast

lemma key_change_completed:
  assumes "key_change db db'" and "k \<in> set (kd_keys db')" and "ik_status k = ''completed''"
  shows "k \<in> set (kd_keys db) \<or> (\<exists>i \<in> set (kd_items db'). it_id i = ik_owner_item_id k \<and> it_status i = ''completed'')"
  using assms(1)
proof cases
  case (settle iid w st key f)
  from assms(2) obtain k0 where "k0 \<in> set (kd_keys db)" "k = (if ik_key k0 = key \<and> ik_owner_item_id k0 = iid then f k0 else k0)"
    unfolding settle(3) set_update_where by blast
  then show ?thesis using settle(2) settle(4) [of k0] assms(3) by (auto split: if_splits)
qed (use assms(2,3) in \<open>auto split: if_splits\<close>)

lemma keys_wf_step:
  assumes wf: "kwf db" "keys_wf db" and op: "kexec env now db op = Inr db'"
  shows "keys_wf db'"
  unfolding keys_wf_def
proof (intro conjI ballI impI)
  note c = kexec_keys [OF wf(1) op]
  show "distinct (map ik_key (kd_keys db'))" using key_change_distinct [OF _ c] wf(2) by (simp add: keys_wf_def)
  fix k assume k: "k \<in> set (kd_keys db')" "ik_status k = ''completed''"
  from key_change_completed [OF c k] show "settled_key db' k"
  proof
    assume "k \<in> set (kd_keys db)"
    then show ?thesis using settled_key_stays [OF wf(1) _ _ op] wf(2) k(2) by (auto simp: keys_wf_def)
  qed (use k in \<open>auto simp: settled_key_def\<close>)
qed

lemma empty_keys_wf: "keys_wf empty_kdb"
  by (simp add: keys_wf_def empty_kdb_def)

lemma reachable_keys_wf: "rtranclp (kstep env) empty_kdb db \<Longrightarrow> kwf db \<and> keys_wf db"
proof (induction rule: rtranclp_induct)
  case (step db1 db2)
  from step(2) obtain now op where "kexec env now db1 op = Inr db2" by (rule kstepE)
  then show ?case using step.IH kexec_wf keys_wf_step by blast
qed (simp add: empty_kwf empty_keys_wf)

lemma settled_key_run:
  assumes "kwf db \<and> keys_wf db" and "settled_key db k" and "krun env db ops = Inr db'"
  shows "kwf db' \<and> keys_wf db' \<and> settled_key db' k"
proof (rule efold_invariant [OF assms(3) [unfolded krun_def]])
  fix d x d' assume d: "kwf d \<and> keys_wf d \<and> settled_key d k" and "(case x of (now, op) \<Rightarrow> kexec env now d op) = Inr d'"
  then have "kexec env (fst x) d (snd x) = Inr d'" by (simp add: case_prod_beta)
  moreover have "distinct (map ik_key (kd_keys d))" using d by (simp add: keys_wf_def)
  ultimately show "kwf d' \<and> keys_wf d' \<and> settled_key d' k" using d kexec_wf keys_wf_step settled_key_stays by blast
qed (use assms in blast)

lemma find_key_of: "keys_wf db \<Longrightarrow> k \<in> set (kd_keys db) \<Longrightarrow> find_key db (ik_key k) = Some k"
  unfolding find_key_def by (rule fetchone_unique) (auto simp: keys_wf_def dest: map_key_inj)

lemma find_item_of: "kwf db \<Longrightarrow> i \<in> set (kd_items db) \<Longrightarrow> find_item db (it_id i) = Some i"
  unfolding find_item_def by (rule fetchone_unique) (auto dest: unique_item)

text \<open>
  C26: a source revision is ingested once. When the item that owned an idempotency key completed, then after any further
  operations every item with that key, of whatever job, is told that it is a duplicate and given the
  proposal of the first one; the claim changes nothing.
\<close>

theorem completed_key_final:
  assumes "rtranclp (kstep env) empty_kdb db" and "k \<in> set (kd_keys db)" and "ik_status k = ''completed''"
    and "krun env db ops = Inr db'" and "j \<in> set (kd_items db')" and "it_idempotency_key j = ik_key k"
  shows "claim_idempotency db' (it_id j) = Inr (db', Duplicate (ik_proposal_id k))"
proof -
  have wf: "kwf db \<and> keys_wf db" by (rule reachable_keys_wf [OF assms(1)])
  then have "settled_key db k" using assms(2,3) by (simp add: keys_wf_def)
  from settled_key_run [OF wf this assms(4)] have r: "kwf db'" "keys_wf db'" "k \<in> set (kd_keys db')" by (auto simp: settled_key_def)
  show ?thesis using find_item_of [OF r(1) assms(5)] find_key_of [OF r(2,3)] assms(3,6)
    by (simp add: claim_idempotency_def found_def)
qed

text \<open>
  C40: an item that is cancelled while it holds its idempotency key can keep it for ever. When \<open>cancel_job\<close>,
  \<open>cancel_claimed_item\<close> or the recovery of an expired lease turns the owner of a key that is still processing
  into a cancelled item, then after any further operations every other item with that key, so every later job over the
  same revision of the file, is told that the key is busy. (An item that is cancelled by \<open>fail_item\<close> gives
  its key back.)
\<close>

theorem cancelled_owner_blocks_key:
  assumes "rtranclp (kstep env) empty_kdb db" and "k \<in> set (kd_keys db)" and "ik_status k = ''processing''"
    and "(\<exists>jid. op = KCancelJob jid) \<or> (\<exists>w. op = KCancelClaimed (ik_owner_item_id k) w) \<or> op = KRecover"
    and "kexec env now db op = Inr db1"
    and "i \<in> set (kd_items db1)" and "it_id i = ik_owner_item_id k" and "it_status i = ''cancelled''"
    and "krun env db1 ops = Inr db'" and "j \<in> set (kd_items db')" and "it_idempotency_key j = ik_key k" and "it_id j \<noteq> it_id i"
  shows "claim_idempotency db' (it_id j) = Inr (db', Busy)"
proof -
  have wf: "kwf db \<and> keys_wf db" by (rule reachable_keys_wf [OF assms(1)])
  then have wf1: "kwf db1 \<and> keys_wf db1" using kexec_wf keys_wf_step assms(5) by blast
  have "kd_keys db1 = kd_keys db"
    using assms(4,5) cancel_job_shape wf recover_keys worker_keys(2) by auto
  then have "settled_key db1 k" using assms(2,3,6-8) by (auto simp: settled_key_def)
  from settled_key_run [OF wf1 this assms(9)] have r: "kwf db'" "keys_wf db'" "k \<in> set (kd_keys db')" by (auto simp: settled_key_def)
  show ?thesis using find_item_of [OF r(1) assms(10)] find_key_of [OF r(2,3)] assms(3,7,11,12)
    by (simp add: claim_idempotency_def found_def)
qed

definition done_ops :: "(int \<times> kop) list" where
  "done_ops = [(5, KStartParsing ''kitem_x'' ''worker''), (6, KComplete ''kitem_x'' ''worker'' (Some ''p1'') False)]"

definition cancel_ops :: "(int \<times> kop) list" where
  "cancel_ops = [(5, KFail ''kitem_x'' ''worker'' ''boom'' 10 None True), (6, KCancelJob ''kjob_'')]"

definition again_ops :: "(int \<times> kop) list" where
  "again_ops = [(9, KCreateJob ''w'' sample_source ''.'' ''v1'' [sample_file ''a''] 3 None)]"

definition done_kdb :: kdb where "done_kdb = after_ops started_kdb done_ops"
definition cancelled_kdb :: kdb where "cancelled_kdb = after_ops started_kdb cancel_ops"

lemma sample_reach:
  "rtranclp (kstep sample_kenv) empty_kdb done_kdb" "rtranclp (kstep sample_kenv) empty_kdb cancelled_kdb"
proof -
  have "\<not> isl (krun sample_kenv started_kdb done_ops)" "\<not> isl (krun sample_kenv started_kdb cancel_ops)" by code_simp+
  from this [THEN after_run, THEN krun_reach] show
    "rtranclp (kstep sample_kenv) empty_kdb done_kdb" "rtranclp (kstep sample_kenv) empty_kdb cancelled_kdb"
    unfolding done_kdb_def cancelled_kdb_def by (meson started_reach rtranclp_trans)+
qed

lemma in_set_by: "list_ex P xs \<Longrightarrow> \<exists>x \<in> set xs. P x"
  by (simp add: list_ex_iff)

theorem completed_key_final_witness:
  "\<exists>j \<in> set (kd_items (after_ops done_kdb again_ops)). it_job_id j \<noteq> ''kjob_'' \<and>
     claim_idempotency (after_ops done_kdb again_ops) (it_id j) = Inr (after_ops done_kdb again_ops, Duplicate (Some ''p1''))"
proof -
  have "list_ex (\<lambda>k. ik_key k = ''a'' \<and> ik_status k = ''completed'' \<and> ik_proposal_id k = Some ''p1'') (kd_keys done_kdb)" by code_simp
  then obtain k where k: "k \<in> set (kd_keys done_kdb)" "ik_key k = ''a''" "ik_status k = ''completed''" "ik_proposal_id k = Some ''p1''"
    by (auto dest!: in_set_by)
  have "list_ex (\<lambda>j. it_job_id j \<noteq> ''kjob_'' \<and> it_idempotency_key j = ''a'') (kd_items (after_ops done_kdb again_ops))" by code_simp
  then obtain j where j: "j \<in> set (kd_items (after_ops done_kdb again_ops))" "it_job_id j \<noteq> ''kjob_''" "it_idempotency_key j = ''a''"
    by (auto dest!: in_set_by)
  have "\<not> isl (krun sample_kenv done_kdb again_ops)" by code_simp
  from completed_key_final [OF sample_reach(1) k(1,3) after_run [OF this] j(1)] j k show ?thesis by auto
qed

text \<open>The item waits for its second attempt and owns its key when its job is cancelled.\<close>

definition waiting_kdb :: kdb where "waiting_kdb = after_ops started_kdb (take 1 cancel_ops)"

lemma waiting_reach: "rtranclp (kstep sample_kenv) empty_kdb waiting_kdb"
proof -
  have "\<not> isl (krun sample_kenv started_kdb (take 1 cancel_ops))" by code_simp
  from this [THEN after_run, THEN krun_reach] show ?thesis
    unfolding waiting_kdb_def using started_reach by (rule rtranclp_trans [rotated])
qed

lemma waiting_cancelled: "kexec sample_kenv 6 waiting_kdb (KCancelJob ''kjob_'') = Inr cancelled_kdb"
proof -
  have "\<not> isl (krun sample_kenv started_kdb (take 1 cancel_ops))" "\<not> isl (krun sample_kenv started_kdb cancel_ops)" by code_simp+
  from this [THEN after_run] show ?thesis
    unfolding waiting_kdb_def [symmetric] cancelled_kdb_def [symmetric]
    by (auto simp: cancel_ops_def krun_def simp del: kexec.simps)
qed

theorem cancelled_owner_blocks_key_witness:
  "\<exists>j \<in> set (kd_items (after_ops cancelled_kdb again_ops)). it_job_id j \<noteq> ''kjob_'' \<and>
     claim_idempotency (after_ops cancelled_kdb again_ops) (it_id j) = Inr (after_ops cancelled_kdb again_ops, Busy)"
proof -
  have "list_ex (\<lambda>k. ik_key k = ''a'' \<and> ik_status k = ''processing'' \<and> ik_owner_item_id k = ''kitem_x'') (kd_keys waiting_kdb)" by code_simp
  then obtain k where k: "k \<in> set (kd_keys waiting_kdb)" "ik_key k = ''a''" "ik_status k = ''processing''" "ik_owner_item_id k = ''kitem_x''"
    by (auto dest!: in_set_by)
  have "list_ex (\<lambda>i. it_id i = ''kitem_x'' \<and> it_status i = ''cancelled'') (kd_items cancelled_kdb)" by code_simp
  then obtain i where i: "i \<in> set (kd_items cancelled_kdb)" "it_id i = ''kitem_x''" "it_status i = ''cancelled''" by (auto dest!: in_set_by)
  have "list_ex (\<lambda>j. it_job_id j \<noteq> ''kjob_'' \<and> it_idempotency_key j = ''a'' \<and> it_id j \<noteq> ''kitem_x'') (kd_items (after_ops cancelled_kdb again_ops))"
    by code_simp
  then obtain j where j: "j \<in> set (kd_items (after_ops cancelled_kdb again_ops))" "it_job_id j \<noteq> ''kjob_''" "it_idempotency_key j = ''a''"
    "it_id j \<noteq> ''kitem_x''" by (auto dest!: in_set_by)
  have "\<not> isl (krun sample_kenv cancelled_kdb again_ops)" by code_simp
  from cancelled_owner_blocks_key [OF waiting_reach k(1,3) _ waiting_cancelled i(1) _ i(3) after_run [OF this] j(1)] i j k
  show ?thesis by auto
qed

theorem finished_item_final_witness:
  "\<exists>i \<in> set (kd_items done_kdb). it_status i = ''completed'' \<and> i \<in> set (kd_items (after_ops done_kdb [(7, KCancelJob ''kjob_'')]))"
proof -
  have "list_ex (\<lambda>i. it_status i = ''completed'') (kd_items done_kdb)" by code_simp
  then obtain i where i: "i \<in> set (kd_items done_kdb)" "it_status i = ''completed''" by (auto dest!: in_set_by)
  have "\<not> isl (krun sample_kenv done_kdb [(7, KCancelJob ''kjob_'')])" by code_simp
  from after_run [OF this] have "kexec sample_kenv 7 done_kdb (KCancelJob ''kjob_'') = Inr (after_ops done_kdb [(7, KCancelJob ''kjob_'')])"
    by (simp add: krun_def)
  from finished_item_final [OF sample_reach(1) this i(1)] i show ?thesis by (auto simp: TERMINAL_ITEM_STATUSES_def)
qed

theorem lost_lease_fenced_witness:
  "\<not> holds_lease done_kdb ''kitem_x'' ''worker'' \<and> fst (heartbeat 9 done_kdb ''kitem_x'' ''worker'' 60) = done_kdb"
proof -
  have no: "\<not> holds_lease done_kdb ''kitem_x'' ''worker''" unfolding holds_lease_def by code_simp
  have "krun sample_kenv done_kdb [] = Inr done_kdb" by (simp add: krun_def)
  from lost_lease_fenced [OF sample_reach(1) no this, of "KHeartbeat ''kitem_x'' ''worker'' 60" 9] no show ?thesis by simp
qed

end
