(* ===== verification/Knowledge_Commit.thy ===== *)
theory Knowledge_Commit
  imports Knowledge_Progress
begin

text \<open>
  From a scan to the committed manifest: the files that \<open>KnowledgeJobService.create_batch\<close>
  (\<open>core/knowledge/jobs/service.py\<close>) hands to the repository for a sync plan, and what the manifest
  of the source is once the job of the plan has completed.
\<close>

section \<open>The files of a plan\<close>

text \<open>\<open>item.source_revision or item.previous_revision or ""\<close>\<close>

definition plan_file :: "sync_change \<Rightarrow> scanned_file" where
  "plan_file c = \<lparr>sf_relative_path = ch_relative_path c,
     sf_source_revision = (if truthy (ch_source_revision c) then the (ch_source_revision c)
       else if truthy (ch_previous_revision c) then the (ch_previous_revision c) else []),
     sf_idempotency_key = ch_idempotency_key c, sf_change_kind = ch_change_kind c\<rparr>"

definition plan_files :: "sync_change list \<Rightarrow> scanned_file list" where
  "plan_files changes = map plan_file changes"

section \<open>Committing items\<close>

definition manifest_of :: "kdb \<Rightarrow> string \<Rightarrow> manifest" where
  "manifest_of db sid = fst (snd (get_manifest db sid))"

definition manifest_keys :: "kdb \<Rightarrow> (string \<times> string) set" where
  "manifest_keys db = (\<lambda>r. (mf_source_id r, mf_relative_path r)) ` set (kd_manifest db)"

definition manifest_wf :: "kenv \<Rightarrow> kdb \<Rightarrow> bool" where
  "manifest_wf env db \<longleftrightarrow> distinct (map mf_id (kd_manifest db)) \<and>
     (\<forall>r \<in> set (kd_manifest db). mf_id r = manifest_id env (mf_source_id r) (mf_relative_path r))"

text \<open>No two of the given source paths share a manifest id.\<close>

definition ids_apart :: "kenv \<Rightarrow> (string \<times> string) set \<Rightarrow> bool" where
  "ids_apart env S \<longleftrightarrow> inj_on (\<lambda>(s, p). manifest_id env s p) S"

definition item_entry :: "item_row \<Rightarrow> string \<times> string" where
  "item_entry i = (it_source_revision i, if it_change_kind i = ''deleted'' then ''deleted'' else ''present'')"

definition put_entry :: "(string \<rightharpoonup> string \<times> string) \<Rightarrow> item_row \<Rightarrow> (string \<rightharpoonup> string \<times> string)" where
  "put_entry m i = m(it_relative_path i \<mapsto> item_entry i)"

definition entry_of :: "manifest_row \<Rightarrow> string \<times> string \<times> string" where
  "entry_of r = (mf_relative_path r, mf_source_revision r, mf_status r)"

lemma manifest_of_eq:
  "manifest_of db s = map entry_of (filter (\<lambda>r. mf_source_id r = s) (kd_manifest db))"
  by (simp add: manifest_of_def get_manifest_def entry_of_def [abs_def])

lemma map_of_append_new: "map_of xs p = None \<Longrightarrow> map_of (xs @ [(p, v)]) = (map_of xs)(p \<mapsto> v)"
  by (rule ext) (auto simp: map_add_def split: option.splits)

lemma update_where_Cons: "update_where P f (r # rows) = (if P r then f r else r) # update_where P f rows"
  by (simp add: update_where_def)

lemma update_rows_lookup:
  assumes "\<And>r. r \<in> set rows \<Longrightarrow> mf_id r = mid \<longleftrightarrow> mf_source_id r = s \<and> mf_relative_path r = p"
    and f: "\<And>r. mf_source_id (f r) = mf_source_id r \<and> mf_relative_path (f r) = mf_relative_path r \<and> snd (entry_of (f r)) = e"
  shows "map_of (map entry_of (filter (\<lambda>r. mf_source_id r = x) (update_where (\<lambda>r. mf_id r = mid) f rows))) q =
    (if x = s \<and> q = p \<and> (\<exists>r \<in> set rows. mf_id r = mid) then Some e
     else map_of (map entry_of (filter (\<lambda>r. mf_source_id r = x) rows)) q)"
  using assms(1)
proof (induction rows)
  case (Cons r rows)
  have entry: "entry_of (f r) = (mf_relative_path r, e)" using f [of r] by (cases "entry_of (f r)") (auto simp: entry_of_def)
  have hd: "mf_id r = mid \<longleftrightarrow> mf_source_id r = s \<and> mf_relative_path r = p" using Cons.prems by simp
  have ih: "map_of (map entry_of (filter (\<lambda>r. mf_source_id r = x) (update_where (\<lambda>r. mf_id r = mid) f rows))) q =
    (if x = s \<and> q = p \<and> (\<exists>r \<in> set rows. mf_id r = mid) then Some e
     else map_of (map entry_of (filter (\<lambda>r. mf_source_id r = x) rows)) q)" using Cons by simp
  have fst: "fst (entry_of r) = mf_relative_path r" by (simp add: entry_of_def)
  then obtain v where v: "entry_of r = (mf_relative_path r, v)" by (metis prod.collapse)
  show ?case
  proof (cases "mf_source_id r = x \<and> mf_relative_path r = q")
    case True
    then show ?thesis using f [of r] hd ih by (cases "mf_id r = mid") (auto simp: update_where_Cons entry v)
  next
    case False
    then show ?thesis using f [of r] hd ih by (cases "mf_source_id r = x"; cases "mf_id r = mid") (auto simp: update_where_Cons entry v)
  qed
qed (simp add: update_where_def)

lemma commit_one:
  assumes wf: "manifest_wf env db" and apart: "ids_apart env (insert (it_source_id i, it_relative_path i) (manifest_keys db))"
  shows "\<exists>db'. commit_item env jid db i = Inr db' \<and> manifest_wf env db' \<and>
    manifest_keys db' = insert (it_source_id i, it_relative_path i) (manifest_keys db) \<and>
    (\<forall>x. map_of (manifest_of db' x) = (if x = it_source_id i then (map_of (manifest_of db x))(it_relative_path i \<mapsto> item_entry i)
       else map_of (manifest_of db x)))"
proof -
  let ?s = "it_source_id i" and ?p = "it_relative_path i"
  let ?mid = "manifest_id env ?s ?p"
  have mid: "mf_id r = ?mid \<longleftrightarrow> mf_source_id r = ?s \<and> mf_relative_path r = ?p" if "r \<in> set (kd_manifest db)" for r
  proof
    assume "mf_id r = ?mid"
    then have "(\<lambda>(s, p). manifest_id env s p) (mf_source_id r, mf_relative_path r) = (\<lambda>(s, p). manifest_id env s p) (?s, ?p)"
      using wf that by (simp add: manifest_wf_def)
    then have "(mf_source_id r, mf_relative_path r) = (?s, ?p)"
      by (rule inj_onD [OF apart [unfolded ids_apart_def]]) (use that in \<open>auto simp: manifest_keys_def\<close>)
    then show "mf_source_id r = ?s \<and> mf_relative_path r = ?p" by simp
  qed (use wf that in \<open>auto simp: manifest_wf_def\<close>)
  let ?st = "if it_change_kind i = ''deleted'' then ''deleted'' else ''present''"
  show ?thesis
  proof (cases "\<exists>r \<in> set (kd_manifest db). mf_id r = ?mid")
    case True
    let ?f = "\<lambda>r. r\<lparr>mf_source_revision := it_source_revision i, mf_status := ?st, mf_last_job_id := Some jid\<rparr>"
    let ?db = "db\<lparr>kd_manifest := update_where (\<lambda>r. mf_id r = ?mid) ?f (kd_manifest db)\<rparr>"
    have "commit_item env jid db i = Inr ?db" using True by (simp add: commit_item_def Let_def list_ex_iff)
    moreover have "manifest_wf env ?db" using wf by (auto simp: manifest_wf_def map_update_where)
    moreover have "manifest_keys ?db = insert (?s, ?p) (manifest_keys db)"
    proof -
      have "map (\<lambda>r. (mf_source_id r, mf_relative_path r)) (kd_manifest ?db) = map (\<lambda>r. (mf_source_id r, mf_relative_path r)) (kd_manifest db)"
        by (simp add: map_update_where)
      then have "manifest_keys ?db = manifest_keys db" unfolding manifest_keys_def by (simp only: set_map [symmetric])
      moreover from True obtain r where r: "r \<in> set (kd_manifest db)" "mf_id r = ?mid" by blast
      then have "(?s, ?p) = (mf_source_id r, mf_relative_path r)" using mid [OF r(1)] by simp
      then have "(?s, ?p) \<in> manifest_keys db" unfolding manifest_keys_def using r(1) by (rule image_eqI)
      ultimately show ?thesis by auto
    qed
    moreover have "map_of (manifest_of ?db x) q = (if x = ?s then (map_of (manifest_of db x))(?p \<mapsto> item_entry i) else map_of (manifest_of db x)) q" for x q
      using update_rows_lookup [of "kd_manifest db" ?mid ?s ?p ?f "item_entry i" x q] mid True
      by (simp add: manifest_of_eq item_entry_def entry_of_def)
    ultimately show ?thesis by (intro exI [of _ ?db]) auto
  next
    case False
    let ?row = "\<lparr>mf_id = ?mid, mf_source_id = ?s, mf_relative_path = ?p, mf_source_revision = it_source_revision i, mf_status = ?st,
      mf_last_job_id = Some jid\<rparr>"
    let ?db = "db\<lparr>kd_manifest := kd_manifest db @ [?row]\<rparr>"
    have no: "\<not> (mf_source_id r = ?s \<and> mf_relative_path r = ?p)" if "r \<in> set (kd_manifest db)" for r using False mid that by blast
    then have "\<not> list_ex (\<lambda>r. mf_source_id r = ?s \<and> mf_relative_path r = ?p) (kd_manifest db)" by (simp add: list_ex_iff)
    moreover have "\<not> list_ex (\<lambda>r. mf_id r = ?mid) (kd_manifest db)" using False by (simp add: list_ex_iff)
    ultimately have "commit_item env jid db i = Inr ?db" by (simp add: commit_item_def Let_def)
    moreover have "manifest_wf env ?db" using wf False by (auto simp: manifest_wf_def)
    moreover have "manifest_keys ?db = insert (?s, ?p) (manifest_keys db)" by (auto simp: manifest_keys_def)
    moreover have "map_of (manifest_of db ?s) ?p = None" using no by (fastforce simp: manifest_of_eq map_of_eq_None_iff entry_of_def)
    then have "map_of (manifest_of ?db x) = (if x = ?s then (map_of (manifest_of db x))(?p \<mapsto> item_entry i) else map_of (manifest_of db x))" for x
      using map_of_append_new [of "manifest_of db ?s" ?p "item_entry i"] by (auto simp: manifest_of_eq item_entry_def entry_of_def)
    ultimately show ?thesis by (intro exI [of _ ?db]) blast
  qed
qed

lemma ids_apart_mono: "ids_apart env T \<Longrightarrow> S \<subseteq> T \<Longrightarrow> ids_apart env S"
  unfolding ids_apart_def by (rule inj_on_subset)

lemma commit_all:
  assumes "manifest_wf env db" and "ids_apart env (manifest_keys db \<union> (\<lambda>i. (it_source_id i, it_relative_path i)) ` set rows)"
    and "\<And>i. i \<in> set rows \<Longrightarrow> it_source_id i = sid"
  shows "\<exists>db'. efold (commit_item env jid) db rows = Inr db' \<and> manifest_wf env db' \<and>
    map_of (manifest_of db' sid) = foldl put_entry (map_of (manifest_of db sid)) rows \<and>
    (\<forall>x. x \<noteq> sid \<longrightarrow> map_of (manifest_of db' x) = map_of (manifest_of db x))"
  using assms
proof (induction rows arbitrary: db)
  case (Cons i rows)
  have sid: "it_source_id i = sid" using Cons.prems(3) by simp
  have "ids_apart env (insert (it_source_id i, it_relative_path i) (manifest_keys db))"
    by (rule ids_apart_mono [OF Cons.prems(2)]) auto
  from commit_one [OF Cons.prems(1) this, of jid] obtain db1 where db1: "commit_item env jid db i = Inr db1" "manifest_wf env db1"
    "manifest_keys db1 = insert (it_source_id i, it_relative_path i) (manifest_keys db)"
    "\<And>x. map_of (manifest_of db1 x) = (if x = it_source_id i then (map_of (manifest_of db x))(it_relative_path i \<mapsto> item_entry i)
       else map_of (manifest_of db x))" by blast
  have "ids_apart env (manifest_keys db1 \<union> (\<lambda>i. (it_source_id i, it_relative_path i)) ` set rows)"
    unfolding db1(3) by (rule ids_apart_mono [OF Cons.prems(2)]) auto
  from Cons.IH [OF db1(2) this] Cons.prems(3) obtain db' where db': "efold (commit_item env jid) db1 rows = Inr db'" "manifest_wf env db'"
    "map_of (manifest_of db' sid) = foldl put_entry (map_of (manifest_of db1 sid)) rows"
    "\<forall>x. x \<noteq> sid \<longrightarrow> map_of (manifest_of db' x) = map_of (manifest_of db1 x)" by auto
  then show ?case using db1(1) db1(4) sid by (intro exI [of _ db']) (simp add: put_entry_def [of "map_of (manifest_of db sid)" i])
qed simp

text \<open>The item of a change: what \<open>create_batch\<close> and \<open>create_job\<close> make of it.\<close>

definition row_of_change :: "string \<Rightarrow> item_row \<Rightarrow> sync_change \<Rightarrow> bool" where
  "row_of_change sid i c \<longleftrightarrow> it_source_id i = sid \<and> it_relative_path i = sf_relative_path (plan_file c) \<and>
     it_source_revision i = sf_source_revision (plan_file c) \<and> it_change_kind i = sf_change_kind (plan_file c)"

definition usable_change :: "sync_change \<Rightarrow> bool" where
  "usable_change c \<longleftrightarrow> (if ch_change_kind c = ''deleted'' then ch_source_revision c = None \<and> truthy (ch_previous_revision c)
     else truthy (ch_source_revision c))"

lemma usable_entry: "usable_change c \<Longrightarrow> row_of_change sid i c \<Longrightarrow> change_entry c = Some (item_entry i)"
  by (auto simp: usable_change_def row_of_change_def change_entry_def plan_file_def item_entry_def elim!: truthyE split: if_splits)

lemma apply_matches_commit:
  assumes "list_all2 (row_of_change sid) rows cs" and "\<forall>c \<in> set cs. usable_change c"
  shows "\<exists>t. apply_changes m cs = Inr t \<and> map_of t = foldl put_entry (map_of m) rows"
  using assms
proof (induction rows cs arbitrary: m rule: list_all2_induct)
  case (Cons i rows c cs)
  have e: "change_entry c = Some (item_entry i)" using usable_entry Cons by simp
  have p: "ch_relative_path c = it_relative_path i" using Cons.hyps(1) by (simp add: row_of_change_def plan_file_def)
  obtain t where t: "apply_changes (AList.update (it_relative_path i) (item_entry i) m) cs = Inr t"
      "map_of t = foldl put_entry (map_of (AList.update (it_relative_path i) (item_entry i) m)) rows"
    using Cons.IH Cons.prems by fastforce
  then show ?case using e p by (simp add: apply_changes_def apply_change_def AList.update_conv' put_entry_def [of "map_of m" i])
qed (simp add: apply_changes_def)

section \<open>The manifest after a sync job\<close>

lemma fetchone_update_same:
  "(\<And>r. P r \<Longrightarrow> P (f r)) \<Longrightarrow> fetchone P (update_where P f rows) = map_option f (fetchone P rows)"
  by (induction rows) (auto simp: fetchone_def update_where_def)

lemma manifest_paths_distinct:
  assumes "manifest_wf env db"
  shows "distinct (map fst (manifest_of db sid))"
proof -
  have "distinct (map mf_id (filter (\<lambda>r. mf_source_id r = sid) (kd_manifest db)))"
    using assms by (simp add: manifest_wf_def distinct_map_filter)
  then have "distinct (map (\<lambda>r. manifest_id env sid (mf_relative_path r)) (filter (\<lambda>r. mf_source_id r = sid) (kd_manifest db)))"
    by (rule back_subst [of distinct]) (use assms in \<open>auto simp: manifest_wf_def\<close>)
  then have "distinct (map (manifest_id env sid) (map fst (manifest_of db sid)))" by (simp add: manifest_of_eq comp_def entry_of_def)
  then show ?thesis using distinct_map [THEN iffD1] by blast
qed

lemma update_values: "snd ` set (AList.update k v d) \<subseteq> insert v (snd ` set d)"
  by (induction d) (auto split: if_splits)

lemma current_scanned:
  assumes "x \<in> set (current_of scanned)"
  shows "snd x \<in> set scanned"
proof -
  have "snd ` set (foldl (\<lambda>d item. AList.update (sf_relative_path item) item d) d fs) \<subseteq> snd ` set d \<union> set fs" for d fs
  proof (induction fs arbitrary: d)
    case (Cons a fs)
    show ?case using Cons.IH [of "AList.update (sf_relative_path a) a d"] update_values [of "sf_relative_path a" a d] by auto
  qed simp
  from this [of "[]" scanned] show ?thesis using assms unfolding current_of_def by auto
qed

lemma planned_changes_usable:
  assumes "build_sync_changes env sc scanned m = Inr cs"
    and "\<forall>f \<in> set scanned. sf_source_revision f \<noteq> []" and "\<forall>e \<in> set m. fst (snd e) \<noteq> []" and c: "c \<in> set cs"
  shows "usable_change c"
proof -
  from assms(1) c obtain dir where "(\<exists>x \<in> set (current_of scanned). scan_change env sc m x = Some c) \<or>
      (\<exists>x \<in> set m. deleted_change env sc dir (current_of scanned) x = Some c)"
    by (auto simp: build_sync_changes_def Let_def set_map_filter)
  then show ?thesis
  proof (elim disjE bexE)
    fix x assume x: "x \<in> set (current_of scanned)" "scan_change env sc m x = Some c"
    then have "sf_source_revision (snd x) \<noteq> []" using current_scanned assms(2) by blast
    then show ?thesis using x(2) by (auto simp: scan_change_def usable_change_def Let_def split: prod.splits if_splits option.splits)
  next
    fix x assume x: "x \<in> set m" "deleted_change env sc dir (current_of scanned) x = Some c"
    then show ?thesis using assms(3) by (auto simp: deleted_change_def deletion_def usable_change_def split: prod.splits if_splits)
  qed
qed

text \<open>
  C4: completing a sync job commits exactly what the scan saw. Let a plan hold the changes computed from a scan and the
  committed manifest of its source, let all items made of these changes have finished, and let the source not have
  moved on. Then settling the plan succeeds; afterwards the manifest of the source lists every scanned file as
  present at its scanned revision, every unseen file of the scanned directory as deleted and every other entry
  unchanged; other sources keep their manifest; and the source has the watermark, hash and checkpoint of the plan.
\<close>

theorem committed_manifest_is_scan:
  assumes wf: "manifest_wf env db"
    and scan: "build_sync_changes (sync_env.truncate env) sc scanned (manifest_of db sid) = Inr (pl_changes plan)"
    and dir: "normalize_directory (sc_relative_directory sc) = Inr dir"
    and revs: "\<forall>f \<in> set scanned. sf_source_revision f \<noteq> []" "\<forall>e \<in> set (manifest_of db sid). fst (snd e) \<noteq> []"
    and sync: "get_sync db sid = Some sync" "plan_is_current sync plan" "pl_source_id plan = sid"
    and job: "jb_status job = ''completed''" "list_all2 (row_of_change sid) (finished_items db (jb_id job)) (pl_changes plan)"
    and apart: "ids_apart env (manifest_keys db \<union> (\<lambda>i. (it_source_id i, it_relative_path i)) ` set (finished_items db (jb_id job)))"
  shows "\<exists>db' s'. settle_plan env now db job plan = Inr db' \<and>
    (\<forall>path. map_of (manifest_of db' sid) path = synced dir scanned (manifest_of db sid) path) \<and>
    (\<forall>x. x \<noteq> sid \<longrightarrow> map_of (manifest_of db' x) = map_of (manifest_of db x)) \<and>
    get_sync db' sid = Some s' \<and> sy_watermark s' = pl_target_watermark plan \<and> sy_manifest_hash s' = pl_manifest_hash plan \<and>
    sy_adapter_checkpoint s' = pl_target_checkpoint plan"
proof -
  let ?rows = "finished_items db (jb_id job)"
  have rows: "it_source_id i = sid" if "i \<in> set ?rows" for i
    using job(2) that by (auto simp: list_all2_conv_all_nth in_set_conv_nth row_of_change_def)
  from commit_all [OF wf apart rows, of "jb_id job"] obtain db2 where db2: "efold (commit_item env (jb_id job)) db ?rows = Inr db2"
    "map_of (manifest_of db2 sid) = foldl put_entry (map_of (manifest_of db sid)) ?rows"
    "\<forall>x. x \<noteq> sid \<longrightarrow> map_of (manifest_of db2 x) = map_of (manifest_of db x)" by blast
  have "\<forall>c \<in> set (pl_changes plan). usable_change c" using planned_changes_usable [OF scan revs] by blast
  from apply_matches_commit [OF job(2) this] obtain t where t: "apply_changes (manifest_of db sid) (pl_changes plan) = Inr t"
    "map_of t = foldl put_entry (map_of (manifest_of db sid)) ?rows" by blast
  have synced: "map_of t path = synced dir scanned (manifest_of db sid) path" for path
    using applied_lookup [OF manifest_paths_distinct [OF wf] scan dir] t(1) by auto
  let ?db = "upd_plan (pl_id plan) (\<lambda>p. p\<lparr>pl_status := ''completed''\<rparr>) (upd_sync sid (advance_sync now plan (jb_id job)) db2)"
  have "settle_plan env now db job plan = Inr ?db"
    using sync job(1) db2(1) by (simp add: settle_plan_def ensure_sync_def)
  moreover have same: "manifest_of ?db x = manifest_of db2 x" for x by (simp add: manifest_of_eq)
  moreover have "kd_syncs db2 = kd_syncs db" using commits_frame [OF db2(1)] by simp
  then have "get_sync ?db sid = Some (advance_sync now plan (jb_id job) sync)"
    using sync(1) by (simp add: get_sync_def fetchone_update_same advance_sync_def)
  ultimately show ?thesis using db2(2,3) t(2) synced by (intro exI conjI) (auto simp: advance_sync_def)
qed

section \<open>A sample sync job\<close>

definition job_scope :: sync_scope where
  "job_scope = \<lparr>sc_workspace_id = ''w'', sc_source_root_id = ''r'', sc_relative_directory = ''.'', sc_pipeline_version = ''v1''\<rparr>"

definition job_changes :: "sync_change list" where
  "job_changes = projr (build_sync_changes (sync_env.truncate sample_kenv) job_scope [sample_file ''a''] [])"

definition plan_ops :: "(int \<times> kop) list" where
  "plan_ops = [(1, KEnsure ''w'' ''W'' ''r'' ''local'' ''Notes'' ''fs'' ''1''),
     (2, KCreatePlan job_scope sample_source ''fs'' ''1'' None ''cp'' 0 ''mh'' job_changes),
     (3, KCreateJob ''w'' sample_source ''.'' ''v1'' (plan_files job_changes) 3 (Some ''ksync_h'')),
     (4, KClaim ''kitem_x'' ''worker'' 60)]"

definition planned_kdb :: kdb where
  "planned_kdb = after_ops empty_kdb plan_ops"

text \<open>The database inside \<open>complete_item\<close>, after the only item was completed and before the plan is settled.\<close>

definition finished_kdb :: kdb where
  "finished_kdb = upd_item ''kitem_x'' (completed_row False None) planned_kdb"

definition finished_job :: job_row where
  "finished_job = (hd (kd_jobs finished_kdb))\<lparr>jb_status := ''completed''\<rparr>"

theorem committed_manifest_is_scan_witness:
  "\<exists>db'. settle_plan sample_kenv 5 finished_kdb finished_job (hd (kd_plans finished_kdb)) = Inr db' \<and>
     map_of (manifest_of db' sample_source) ''a'' = Some (''1'', ''present'')"
proof -
  let ?plan = "hd (kd_plans finished_kdb)" and ?sync = "hd (kd_syncs finished_kdb)"
  have wf: "kd_manifest finished_kdb = []" by code_simp
  then have wf': "manifest_wf sample_kenv finished_kdb" and keys: "manifest_keys finished_kdb = {}"
    and m: "manifest_of finished_kdb sample_source = []"
    by (simp_all add: manifest_wf_def manifest_keys_def manifest_of_eq)
  have "build_sync_changes (sync_env.truncate sample_kenv) job_scope [sample_file ''a''] [] = Inr (pl_changes ?plan)" by code_simp
  then have scan: "build_sync_changes (sync_env.truncate sample_kenv) job_scope [sample_file ''a''] (manifest_of finished_kdb sample_source)
    = Inr (pl_changes ?plan)" using m by simp
  have dir: "normalize_directory (sc_relative_directory job_scope) = Inr ''.''" by code_simp
  have sync: "get_sync finished_kdb sample_source = Some ?sync" "plan_is_current ?sync ?plan" "pl_source_id ?plan = sample_source" by code_simp+
  have rows: "list_all2 (row_of_change sample_source) (finished_items finished_kdb (jb_id finished_job)) (pl_changes ?plan)" by code_simp
  have "map (\<lambda>i. (it_source_id i, it_relative_path i)) (finished_items finished_kdb (jb_id finished_job)) = [(sample_source, ''a'')]" by code_simp
  then have "(\<lambda>i. (it_source_id i, it_relative_path i)) ` set (finished_items finished_kdb (jb_id finished_job)) = {(sample_source, ''a'')}"
    by (simp only: set_map [symmetric] list.set)
  then have apart: "ids_apart sample_kenv (manifest_keys finished_kdb \<union>
      (\<lambda>i. (it_source_id i, it_relative_path i)) ` set (finished_items finished_kdb (jb_id finished_job)))"
    by (simp add: keys ids_apart_def)
  have revs: "\<forall>f \<in> set [sample_file ''a'']. sf_source_revision f \<noteq> []" by (simp add: sample_file_def)
  have synced: "synced ''.'' [sample_file ''a''] [] ''a'' = Some (''1'', ''present'')" by code_simp
  have fin: "jb_status finished_job = ''completed''" by (simp add: finished_job_def)
  from committed_manifest_is_scan [OF wf' scan dir revs _ sync fin rows apart, of 5] m synced show ?thesis by auto
qed

definition conflict_kdb :: kdb where
  "conflict_kdb = after_ops planned_kdb [(5, KBeginScan sample_source ''fs'' ''2''), (6, KComplete ''kitem_x'' ''worker'' None False)]"

text \<open>
  A conflict is not reported in the event feed. When the adapter version of the source changes while its sync job runs,
  completing the last item leaves the job with status \<open>completed_with_errors\<close> and the plan in conflict, but the last event
  of the feed says that the job is \<open>completed\<close>, and no event follows it.
\<close>

theorem conflict_unreported:
  "map jb_status (kd_jobs conflict_kdb) = [''completed_with_errors''] \<and> map pl_status (kd_plans conflict_kdb) = [''conflict''] \<and>
   je_kind (last (kd_events conflict_kdb)) = ''job'' \<and> je_status (last (kd_events conflict_kdb)) = ''completed''"
  by code_simp

end
