(* ===== verification/Knowledge_Tasks.thy ===== *)
theory Knowledge_Tasks
  imports Knowledge_Guarantees
begin

text \<open>
  The tasks of the ingestion worker (\<open>core/knowledge/jobs/service.py\<close>): the exceptions they can see, with
  the class hierarchy of \<open>core/knowledge/parsing/errors.py\<close>, \<open>parsing/external.py\<close>,
  \<open>parsing/registry.py\<close> and \<open>sources/errors.py\<close>; the state of the worker; and the \<open>await\<close>, the point
  at which a task gives way.

  A task is a function from the state to the new state and a value or the reason it stopped. At every
  \<open>await\<close> other tasks and processes may have worked on the database: \<open>we_others\<close> lists the
  operations they committed since the previous one, the heartbeat task of the worker among them.
  \<open>asyncio.CancelledError\<close> is not an \<open>Exception\<close>: it is a stop of its own, which no handler of the service
  catches.
\<close>

section \<open>Exceptions\<close>

datatype job_exception =
    Py py_error                     \<comment> \<open>built-in exceptions and those of the repository\<close>
  | FileNotFound string             \<comment> \<open>\<open>FileNotFoundError\<close>\<close>
  | UnicodeFailure string           \<comment> \<open>\<open>UnicodeDecodeError\<close>, a \<open>ValueError\<close>\<close>
  | SourceFailure string            \<comment> \<open>\<open>KnowledgeSourceError\<close> and its subclasses, \<open>ValueError\<close>s\<close>
  | DocumentParseFailure string     \<comment> \<open>\<open>DocumentParseError\<close>, a \<open>ValueError\<close>\<close>
  | DocumentRequiresOcr string      \<comment> \<open>a \<open>DocumentParseError\<close>\<close>
  | ExternalParsePolicyFailure string  \<comment> \<open>a \<open>DocumentParseError\<close>\<close>
  | ExternalParsingFailed string    \<comment> \<open>a \<open>DocumentParseError\<close>\<close>
  | ExternalParsingTransient string \<comment> \<open>a \<open>RuntimeError\<close>\<close>
  | ParserNotFound string           \<comment> \<open>a \<open>LookupError\<close>\<close>
  | OtherFailure string             \<comment> \<open>any other \<open>Exception\<close>, by its class name\<close>

type_synonym 'a outcome = "job_exception + 'a"

text \<open>\<open>isinstance(exc, DocumentParseError)\<close> and \<open>isinstance(exc, ValueError)\<close>\<close>

fun is_parse_error :: "job_exception \<Rightarrow> bool" where
  "is_parse_error (DocumentParseFailure _) = True"
| "is_parse_error (DocumentRequiresOcr _) = True"
| "is_parse_error (ExternalParsePolicyFailure _) = True"
| "is_parse_error (ExternalParsingFailed _) = True"
| "is_parse_error _ = False"

fun is_value_error :: "job_exception \<Rightarrow> bool" where
  "is_value_error (Py e) = (value_error e \<noteq> None)"
| "is_value_error (UnicodeFailure _) = True"
| "is_value_error (SourceFailure _) = True"
| "is_value_error e = is_parse_error e"

fun is_job_conflict :: "job_exception \<Rightarrow> bool" where
  "is_job_conflict (Py (JobConflict _)) = True"
| "is_job_conflict _ = False"

text \<open>\<open>str(exc)\<close> of the exceptions whose text the service stores.\<close>

fun exception_text :: "job_exception \<Rightarrow> string" where
  "exception_text (Py (ValueError m)) = m"
| "exception_text (Py (JobConflict m)) = m"
| "exception_text (Py (JobNotFound m)) = m"
| "exception_text (Py (RuntimeError m)) = m"
| "exception_text (Py _) = []"
| "exception_text (FileNotFound m) = m"
| "exception_text (UnicodeFailure m) = m"
| "exception_text (SourceFailure m) = m"
| "exception_text (DocumentParseFailure m) = m"
| "exception_text (DocumentRequiresOcr m) = m"
| "exception_text (ExternalParsePolicyFailure m) = m"
| "exception_text (ExternalParsingFailed m) = m"
| "exception_text (ExternalParsingTransient m) = m"
| "exception_text (ParserNotFound m) = m"
| "exception_text (OtherFailure _) = []"

text \<open>\<open>type(exc).__name__\<close> of the exceptions for which the service stores it.\<close>

fun class_name :: "job_exception \<Rightarrow> string" where
  "class_name (Py (JobNotFound _)) = ''KnowledgeJobNotFoundError''"
| "class_name (Py (KeyError _)) = ''KeyError''"
| "class_name (Py (TypeError _)) = ''TypeError''"
| "class_name (Py (AttributeError _)) = ''AttributeError''"
| "class_name (Py IntegrityError) = ''IntegrityError''"
| "class_name (Py (DatabaseError _)) = ''DatabaseError''"
| "class_name (Py (RuntimeError _)) = ''RuntimeError''"
| "class_name (Py (OSError _)) = ''OSError''"
| "class_name (ExternalParsingTransient _) = ''ExternalParsingTransientError''"
| "class_name (ParserNotFound _) = ''ParserNotFoundError''"
| "class_name (OtherFailure name) = name"
| "class_name _ = ''Exception''"

section \<open>Documents, sources and messages\<close>

text \<open>The bytes of a document are characters; a parsed document keeps its parser and its text.\<close>

record parse_request =
  rq_source_id :: string
  rq_relative_path :: string
  rq_source_revision :: string
  rq_media_type :: string
  rq_payload :: string

record parsed_document =
  pd_parser_id :: string
  pd_markdown :: string

record source_root =
  sr_root_id :: string
  sr_kind :: string
  sr_label :: string
  sr_path :: string

record queue_message =
  qm_message_id :: string
  qm_item_id :: string

section \<open>The state of the worker\<close>

text \<open>
  The database, the number of awaits so far, and the attributes of \<open>KnowledgeJobService\<close> that change:
  the sources it registered, the messages it recovered, whether it is prepared. Three fields only record what
  left the process: the documents handed to external parsers (with their source), the items published to the
  queue and the messages acknowledged.
\<close>

record worker_state =
  ws_db :: kdb
  ws_awaits :: nat
  ws_source_roots :: "(string \<times> source_root) list"
  ws_source_ids :: "(string \<times> string) list"
  ws_recovered :: "queue_message list"
  ws_prepared :: bool
  ws_sent :: "(string \<times> parse_request) list"
  ws_published :: "string list"
  ws_acked :: "queue_message list"

record worker_env =
  we_ids :: kenv
  we_clock :: "nat \<Rightarrow> int"
  we_others :: "nat \<Rightarrow> (int \<times> kop) list"
  we_cancelled :: "nat \<Rightarrow> bool"
  we_committed :: "nat \<Rightarrow> bool"

text \<open>A transaction of another task that fails leaves the database as it was.\<close>

definition other_op :: "kenv \<Rightarrow> kdb \<Rightarrow> int \<times> kop \<Rightarrow> kdb" where
  "other_op ids db x = (case kexec ids (fst x) db (snd x) of Inl _ \<Rightarrow> db | Inr db' \<Rightarrow> db')"

definition interfere :: "kenv \<Rightarrow> kdb \<Rightarrow> (int \<times> kop) list \<Rightarrow> kdb" where
  "interfere ids = foldl (other_op ids)"

section \<open>Tasks\<close>

datatype stop = Cancellation | Failure job_exception

type_synonym 'a task = "worker_state \<Rightarrow> worker_state \<times> (stop + 'a)"

definition tret :: "'a \<Rightarrow> 'a task" where
  "tret x st = (st, Inr x)"

definition traise :: "job_exception \<Rightarrow> 'a task" where
  "traise e st = (st, Inl (Failure e))"

definition tbind :: "'a task \<Rightarrow> ('a \<Rightarrow> 'b task) \<Rightarrow> 'b task" where
  "tbind m f st = (case m st of (st', Inl e) \<Rightarrow> (st', Inl e) | (st', Inr x) \<Rightarrow> f x st')"

definition trequire :: "bool \<Rightarrow> job_exception \<Rightarrow> unit task" where
  "trequire c e = (if c then tret () else traise e)"

text \<open>\<open>except Exception as exc\<close>, and \<open>finally\<close>: an exception of the final block replaces the outcome.\<close>

definition tcatch :: "'a task \<Rightarrow> (job_exception \<Rightarrow> 'a task) \<Rightarrow> 'a task" where
  "tcatch m h st = (case m st of (st', Inl (Failure e)) \<Rightarrow> h e st' | r \<Rightarrow> r)"

definition tfinally :: "'a task \<Rightarrow> unit task \<Rightarrow> 'a task" where
  "tfinally m f st = (case m st of (st', r) \<Rightarrow> (case f st' of (st'', Inl e) \<Rightarrow> (st'', Inl e) | (st'', Inr _) \<Rightarrow> (st'', r)))"

text \<open>A \<open>for\<close> loop of awaits.\<close>

fun tfold :: "('s \<Rightarrow> 'x \<Rightarrow> 's task) \<Rightarrow> 's \<Rightarrow> 'x list \<Rightarrow> 's task" where
  "tfold f s [] = tret s"
| "tfold f s (x # xs) = tbind (f s x) (\<lambda>s'. tfold f s' xs)"

text \<open>
  An await: others work, then the call takes effect at one moment. If the task is cancelled it learns nothing, but
  a transaction that was under way may have been committed (\<open>we_committed\<close>).
\<close>

definition await :: "worker_env \<Rightarrow> (nat \<Rightarrow> kdb \<Rightarrow> (kdb \<times> 'a) outcome) \<Rightarrow> 'a task" where
  "await env call st =
     (let n = ws_awaits st; db = interfere (we_ids env) (ws_db st) (we_others env n);
        st1 = st\<lparr>ws_db := db, ws_awaits := Suc n\<rparr> in
      if we_cancelled env n
      then (case call n db of Inr (db', _) \<Rightarrow> (if we_committed env n then st1\<lparr>ws_db := db'\<rparr> else st1) | Inl _ \<Rightarrow> st1, Inl Cancellation)
      else case call n db of Inl e \<Rightarrow> (st1, Inl (Failure e)) | Inr (db', x) \<Rightarrow> (st1\<lparr>ws_db := db'\<rparr>, Inr x))"

definition failing :: "'a result \<Rightarrow> 'a outcome" where
  "failing r = (case r of Inl e \<Rightarrow> Inl (Py e) | Inr x \<Rightarrow> Inr x)"

text \<open>A transaction of the repository at the time of the await, one without a result, a query, and a call that leaves the process.\<close>

definition transact :: "worker_env \<Rightarrow> (int \<Rightarrow> kdb \<Rightarrow> (kdb \<times> 'a) result) \<Rightarrow> 'a task" where
  "transact env operation = await env (\<lambda>n db. failing (operation (we_clock env n) db))"

definition perform :: "worker_env \<Rightarrow> (int \<Rightarrow> kdb \<Rightarrow> kdb result) \<Rightarrow> unit task" where
  "perform env operation = transact env (\<lambda>now db. ebind (operation now db) (\<lambda>db'. Inr (db', ())))"

definition ask :: "worker_env \<Rightarrow> (int \<Rightarrow> kdb \<Rightarrow> 'a result) \<Rightarrow> 'a task" where
  "ask env query = transact env (\<lambda>now db. ebind (query now db) (\<lambda>x. Inr (db, x)))"

definition outside :: "worker_env \<Rightarrow> (nat \<Rightarrow> 'a outcome) \<Rightarrow> 'a task" where
  "outside env call = await env (\<lambda>n db. case call n of Inl e \<Rightarrow> Inl e | Inr x \<Rightarrow> Inr (db, x))"

section \<open>Reasoning about tasks\<close>

text \<open>
  From a state where \<open>P\<close> holds, the task ends: with a value and a state where \<open>Q\<close> holds, or stopped in a
  state where \<open>E\<close> holds. A task is a function, so ending is never in doubt.
\<close>

definition triple :: "(worker_state \<Rightarrow> bool) \<Rightarrow> 'a task \<Rightarrow> ('a \<Rightarrow> worker_state \<Rightarrow> bool) \<Rightarrow> (stop \<Rightarrow> worker_state \<Rightarrow> bool) \<Rightarrow> bool" where
  "triple P m Q E \<longleftrightarrow> (\<forall>st. P st \<longrightarrow> (case m st of (st', Inr x) \<Rightarrow> Q x st' | (st', Inl e) \<Rightarrow> E e st'))"

lemma triple_weaken:
  assumes "triple P m Q E" and "\<And>st. P' st \<Longrightarrow> P st" and "\<And>x st. Q x st \<Longrightarrow> Q' x st" and "\<And>e st. E e st \<Longrightarrow> E' e st"
  shows "triple P' m Q' E'"
  using assms by (fastforce simp: triple_def split: prod.splits sum.splits)

lemma triple_ret: "(\<And>st. P st \<Longrightarrow> Q x st) \<Longrightarrow> triple P (tret x) Q E"
  by (simp add: triple_def tret_def)

lemma triple_raise: "(\<And>st. P st \<Longrightarrow> E (Failure e) st) \<Longrightarrow> triple P (traise e) Q E"
  by (simp add: triple_def traise_def)

lemma triple_bind:
  assumes "triple P m R E" and "\<And>x. triple (R x) (f x) Q E"
  shows "triple P (tbind m f) Q E"
  using assms unfolding triple_def tbind_def by (fastforce split: prod.splits sum.splits)

lemma triple_require:
  "(\<And>st. P st \<Longrightarrow> c \<Longrightarrow> Q () st) \<Longrightarrow> (\<And>st. P st \<Longrightarrow> \<not> c \<Longrightarrow> E (Failure e) st) \<Longrightarrow> triple P (trequire c e) Q E"
  by (simp add: trequire_def triple_def tret_def traise_def)

lemma triple_catch:
  assumes "triple P m Q R" and "\<And>e. triple (R (Failure e)) (h e) Q E" and "\<And>st. R Cancellation st \<Longrightarrow> E Cancellation st"
  shows "triple P (tcatch m h) Q E"
  using assms unfolding triple_def tcatch_def by (fastforce split: prod.splits sum.splits stop.splits)

lemma triple_finally:
  assumes "triple P m Q R" and "\<And>x. triple (Q x) f (\<lambda>_. Q' x) E" and "\<And>e. triple (R e) f (\<lambda>_. E e) E"
  shows "triple P (tfinally m f) Q' E"
  unfolding triple_def
proof (intro allI impI)
  fix st assume p: "P st"
  obtain st' r where m: "m st = (st', r)" by (cases "m st")
  obtain st'' u where f: "f st' = (st'', u)" by (cases "f st'")
  show "case tfinally m f st of (st', Inr x) \<Rightarrow> Q' x st' | (st', Inl e) \<Rightarrow> E e st'"
  proof (cases r)
    case (Inl e)
    then have "R e st'" using assms(1) p m by (auto simp: triple_def)
    then show ?thesis using assms(3) [of e] m f Inl by (cases u) (force simp: triple_def tfinally_def)+
  next
    case (Inr x)
    then have "Q x st'" using assms(1) p m by (auto simp: triple_def)
    then show ?thesis using assms(2) [of x] m f Inr by (cases u) (force simp: triple_def tfinally_def)+
  qed
qed

lemma triple_fold:
  assumes "\<And>s x. x \<in> set xs \<Longrightarrow> triple (I s) (f s x) I E"
  shows "triple (I s) (tfold f s xs) I E"
  using assms
proof (induction xs arbitrary: s)
  case Nil
  then show ?case by (simp add: triple_ret)
next
  case (Cons x xs)
  have "triple (I s) (f s x) I E" using Cons.prems by simp
  then show ?case using Cons by (auto intro: triple_bind)
qed

lemma triple_await:
  assumes "\<And>st. P st \<Longrightarrow> P' (ws_awaits st) (st\<lparr>ws_db := interfere (we_ids env) (ws_db st) (we_others env (ws_awaits st)), ws_awaits := Suc (ws_awaits st)\<rparr>)"
    and "\<And>n st. P' n st \<Longrightarrow> we_cancelled env n \<Longrightarrow> E Cancellation st"
    and "\<And>n st db' x. P' n st \<Longrightarrow> we_cancelled env n \<Longrightarrow> call n (ws_db st) = Inr (db', x) \<Longrightarrow> E Cancellation (st\<lparr>ws_db := db'\<rparr>)"
    and "\<And>n st e. P' n st \<Longrightarrow> \<not> we_cancelled env n \<Longrightarrow> call n (ws_db st) = Inl e \<Longrightarrow> E (Failure e) st"
    and "\<And>n st db' x. P' n st \<Longrightarrow> \<not> we_cancelled env n \<Longrightarrow> call n (ws_db st) = Inr (db', x) \<Longrightarrow> Q x (st\<lparr>ws_db := db'\<rparr>)"
  shows "triple P (await env call) Q E"
  unfolding triple_def await_def Let_def
proof (intro allI impI)
  fix st assume "P st"
  note p = assms(1) [OF this]
  let ?st = "st\<lparr>ws_db := interfere (we_ids env) (ws_db st) (we_others env (ws_awaits st)), ws_awaits := Suc (ws_awaits st)\<rparr>"
  show "case if we_cancelled env (ws_awaits st)
      then (case call (ws_awaits st) (interfere (we_ids env) (ws_db st) (we_others env (ws_awaits st))) of
          Inr (db', _) \<Rightarrow> (if we_committed env (ws_awaits st) then ?st\<lparr>ws_db := db'\<rparr> else ?st) | Inl _ \<Rightarrow> ?st, Inl Cancellation)
      else case call (ws_awaits st) (interfere (we_ids env) (ws_db st) (we_others env (ws_awaits st))) of
        Inl e \<Rightarrow> (?st, Inl (Failure e))
      | Inr (db', x) \<Rightarrow> (?st\<lparr>ws_db := db'\<rparr>, Inr x) of
      (st', Inl e) \<Rightarrow> E e st' | (st', Inr x) \<Rightarrow> Q x st'"
    using assms(2) [OF p] assms(3) [OF p] assms(4) [OF p] assms(5) [OF p]
    by (auto split: sum.splits prod.splits)
qed

end
