(* ===== verification/Text_Pattern.thy ===== *)
theory Text_Pattern
  imports Sage_Prelude
begin

text \<open>
  The part of Python's \<open>re\<close> and \<open>shlex\<close> that the tool gate of the coding agent uses: patterns with
  \<open>IGNORECASE\<close>, whether \<open>re.search\<close> finds one, and the tokens of a command line. The matcher computes
  the ends of all matches from a position; \<open>rx_ends_iff\<close> relates it to the usual relational meaning
  of a pattern, so that facts about what a pattern finds are proved once about the relation.
\<close>

section \<open>Characters\<close>

text \<open>\<open>str.lower\<close> on the code points below 256, and the class \<open>\w\<close>.\<close>

definition lower_char :: "char \<Rightarrow> char" where
  "lower_char c = (let n = of_char c :: nat in
     if 65 \<le> n \<and> n \<le> 90 \<or> 192 \<le> n \<and> n \<le> 222 \<and> n \<noteq> 215 then char_of (n + 32) else c)"

definition lower :: "string \<Rightarrow> string" where
  "lower s = map lower_char s"

definition is_word_char :: "char \<Rightarrow> bool" where
  "is_word_char c = (let n = of_char c :: nat in
     48 \<le> n \<and> n \<le> 57 \<or> 65 \<le> n \<and> n \<le> 90 \<or> n = 95 \<or> 97 \<le> n \<and> n \<le> 122
     \<or> n \<in> {170, 178, 179, 181, 185, 186, 188, 189, 190}
     \<or> 192 \<le> n \<and> n \<le> 255 \<and> n \<noteq> 215 \<and> n \<noteq> 247)"

definition is_digit_char :: "char \<Rightarrow> bool" where
  "is_digit_char c = (48 \<le> (of_char c :: nat) \<and> (of_char c :: nat) \<le> 57)"

text \<open>\<open>x in y\<close> and \<open>y.count(x)\<close> on strings: occurrences are counted left to right without overlap.\<close>

definition occurs_at :: "string \<Rightarrow> nat \<Rightarrow> string \<Rightarrow> bool" where
  "occurs_at x i y = starts_with (drop i y) x"

definition contains :: "string \<Rightarrow> string \<Rightarrow> bool" where
  "contains x y = list_ex (\<lambda>i. occurs_at x i y) [0..<Suc (length y)]"

function count_sub :: "string \<Rightarrow> string \<Rightarrow> nat" where
  "count_sub x y = (if x = [] then Suc (length y) else if y = [] then 0
     else if starts_with y x then Suc (count_sub x (drop (length x) y)) else count_sub x (tl y))"
  by pat_completeness auto
termination
  by (relation "measure (\<lambda>(x, y). length y)") auto

declare count_sub.simps [simp del]

text \<open>\<open>y.replace(x, new, 1)\<close>\<close>

fun replace_first :: "string \<Rightarrow> string \<Rightarrow> string \<Rightarrow> string" where
  "replace_first x new [] = (if x = [] then new else [])"
| "replace_first x new (c # y) =
     (if starts_with (c # y) x then new @ drop (length x) (c # y) else c # replace_first x new y)"

text \<open>A text in which the pattern occurs exactly once is cut at that occurrence.\<close>

lemma count_sub_0: "x \<noteq> [] \<Longrightarrow> count_sub x y = 0 \<Longrightarrow> \<not> starts_with (drop i y) x"
proof (induction x y arbitrary: i rule: count_sub.induct)
  case (1 x y)
  show ?case
  proof (cases i)
    case 0
    with 1(3,4) show ?thesis
      by (cases "y = []") (auto simp: count_sub.simps [of x y] starts_with_def split: if_splits)
  next
    case (Suc k)
    have "y = [] \<or> (\<not> starts_with y x \<and> count_sub x (tl y) = 0)"
      using 1(3,4) by (auto simp: count_sub.simps [of x y] split: if_splits)
    then show ?thesis
      using 1(2) [OF 1(3), of k] 1(3) Suc by (cases y) (auto simp: starts_with_def)
  qed
qed

lemma replace_once:
  assumes "x \<noteq> []" and "count_sub x y = 1"
  shows "\<exists>pre suf. y = pre @ x @ suf \<and> replace_first x new y = pre @ new @ suf \<and> \<not> contains x suf"
  using assms
proof (induction x y rule: count_sub.induct)
  case (1 x y)
  show ?case
  proof (cases "starts_with y x")
    case True
    then have y: "y = x @ drop (length x) y"
      unfolding starts_with_def by (metis append_take_drop_id)
    have "count_sub x (drop (length x) y) = 0"
      using 1(3,4) True by (auto simp: count_sub.simps [of x y] split: if_splits)
    then have "\<not> contains x (drop (length x) y)"
      using count_sub_0 [OF 1(3)] unfolding contains_def list_ex_iff occurs_at_def by blast
    moreover have "replace_first x new y = new @ drop (length x) y"
      using True 1(3) by (cases y) (auto simp: starts_with_def)
    ultimately show ?thesis using y by (metis append_Nil)
  next
    case False
    then have ne: "y \<noteq> []" and c: "count_sub x (tl y) = 1"
      using 1(3,4) by (auto simp: count_sub.simps [of x y] split: if_splits)
    obtain pre suf where "tl y = pre @ x @ suf" "replace_first x new (tl y) = pre @ new @ suf" "\<not> contains x suf"
      using 1(2) [OF 1(3) ne False 1(3) c] by blast
    then show ?thesis
      using ne False by (intro exI [of _ "hd y # pre"] exI [of _ suf]) (cases y; simp)
  qed
qed

section \<open>Patterns\<close>

datatype rx =
    Eps
  | Lit char                 \<comment> \<open>a literal character, in either case\<close>
  | AnyChar                  \<comment> \<open>\<open>.\<close> with \<open>DOTALL\<close>\<close>
  | Space                    \<comment> \<open>\<open>\s\<close>\<close>
  | Digit                    \<comment> \<open>\<open>\d\<close>\<close>
  | OneOf string
  | NoneOf string
  | Start                    \<comment> \<open>\<open>^\<close> without \<open>MULTILINE\<close>\<close>
  | End                      \<comment> \<open>\<open>$\<close> without \<open>MULTILINE\<close>\<close>
  | Boundary                 \<comment> \<open>\<open>\b\<close>\<close>
  | Seq rx rx
  | Alt rx rx
  | Star rx

definition Plus :: "rx \<Rightarrow> rx" where
  "Plus r = Seq r (Star r)"

fun Lits :: "string \<Rightarrow> rx" where
  "Lits [] = Eps"
| "Lits (c # cs) = Seq (Lit c) (Lits cs)"

fun Seqs :: "rx list \<Rightarrow> rx" where
  "Seqs [] = Eps"
| "Seqs [r] = r"
| "Seqs (r # rs) = Seq r (Seqs rs)"

definition word_at :: "string \<Rightarrow> nat \<Rightarrow> bool" where
  "word_at s i = (i < length s \<and> is_word_char (s ! i))"

definition boundary :: "string \<Rightarrow> nat \<Rightarrow> bool" where
  "boundary s i = ((0 < i \<and> word_at s (i - 1)) \<noteq> word_at s i)"

definition at_end :: "string \<Rightarrow> nat \<Rightarrow> bool" where
  "at_end s i = (i = length s \<or> Suc i = length s \<and> s ! i = CHR 0x0A)"

definition step_if :: "string \<Rightarrow> (char \<Rightarrow> bool) \<Rightarrow> nat \<Rightarrow> nat list" where
  "step_if s P i = (if i < length s \<and> P (s ! i) then [Suc i] else [])"

definition stay_if :: "bool \<Rightarrow> nat \<Rightarrow> nat list" where
  "stay_if b i = (if b then [i] else [])"

text \<open>The positions reached by repeating a step that moves forward, at most \<open>n\<close> times.\<close>

fun repeat :: "(nat \<Rightarrow> nat list) \<Rightarrow> nat \<Rightarrow> nat \<Rightarrow> nat list" where
  "repeat f 0 i = [i]"
| "repeat f (Suc n) i = i # concat (map (repeat f n) (filter (\<lambda>k. i < k) (f i)))"

primrec rx_ends :: "string \<Rightarrow> rx \<Rightarrow> nat \<Rightarrow> nat list" where
  "rx_ends s Eps = (\<lambda>i. [i])"
| "rx_ends s (Lit c) = step_if s (\<lambda>x. lower_char x = lower_char c)"
| "rx_ends s AnyChar = step_if s (\<lambda>x. True)"
| "rx_ends s Space = step_if s is_py_space"
| "rx_ends s Digit = step_if s is_digit_char"
| "rx_ends s (OneOf cs) = step_if s (\<lambda>x. x \<in> set cs)"
| "rx_ends s (NoneOf cs) = step_if s (\<lambda>x. x \<notin> set cs)"
| "rx_ends s Start = (\<lambda>i. stay_if (i = 0) i)"
| "rx_ends s End = (\<lambda>i. stay_if (at_end s i) i)"
| "rx_ends s Boundary = (\<lambda>i. stay_if (boundary s i) i)"
| "rx_ends s (Seq r q) = (\<lambda>i. concat (map (rx_ends s q) (rx_ends s r i)))"
| "rx_ends s (Alt r q) = (\<lambda>i. rx_ends s r i @ rx_ends s q i)"
| "rx_ends s (Star r) = (\<lambda>i. repeat (rx_ends s r) (length s - i) i)"

text \<open>\<open>re.search(pattern, s) is not None\<close>\<close>

definition re_search :: "rx \<Rightarrow> string \<Rightarrow> bool" where
  "re_search r s = list_ex (\<lambda>i. rx_ends s r i \<noteq> []) [0..<Suc (length s)]"

section \<open>The meaning of a pattern\<close>

primrec rx_match :: "string \<Rightarrow> rx \<Rightarrow> nat \<Rightarrow> nat \<Rightarrow> bool" where
  "rx_match s Eps = (\<lambda>i j. j = i)"
| "rx_match s (Lit c) = (\<lambda>i j. i < length s \<and> lower_char (s ! i) = lower_char c \<and> j = Suc i)"
| "rx_match s AnyChar = (\<lambda>i j. i < length s \<and> j = Suc i)"
| "rx_match s Space = (\<lambda>i j. i < length s \<and> is_py_space (s ! i) \<and> j = Suc i)"
| "rx_match s Digit = (\<lambda>i j. i < length s \<and> is_digit_char (s ! i) \<and> j = Suc i)"
| "rx_match s (OneOf cs) = (\<lambda>i j. i < length s \<and> s ! i \<in> set cs \<and> j = Suc i)"
| "rx_match s (NoneOf cs) = (\<lambda>i j. i < length s \<and> s ! i \<notin> set cs \<and> j = Suc i)"
| "rx_match s Start = (\<lambda>i j. i = 0 \<and> j = i)"
| "rx_match s End = (\<lambda>i j. at_end s i \<and> j = i)"
| "rx_match s Boundary = (\<lambda>i j. boundary s i \<and> j = i)"
| "rx_match s (Seq r q) = rx_match s r OO rx_match s q"
| "rx_match s (Alt r q) = (\<lambda>i j. rx_match s r i j \<or> rx_match s q i j)"
| "rx_match s (Star r) = (rx_match s r)\<^sup>*\<^sup>*"

lemma rx_match_bounds: "rx_match s r i j \<Longrightarrow> i \<le> length s \<Longrightarrow> i \<le> j \<and> j \<le> length s"
proof (induction r arbitrary: i j)
  case (Seq r q)
  then show ?case by fastforce
next
  case (Star r)
  from Star.prems(1)
  have "(rx_match s r)\<^sup>*\<^sup>* i j" by simp
  then show ?case
  proof (induction rule: rtranclp_induct)
    case (step y z)
    then show ?case using Star.IH [of y z] by linarith
  qed (use Star.prems(2) in simp)
qed auto

lemma repeat_sound:
  assumes "\<And>i j. j \<in> set (f i) \<Longrightarrow> i \<le> N \<Longrightarrow> R i j" and "\<And>i j. R i j \<Longrightarrow> i \<le> N \<Longrightarrow> j \<le> N"
  shows "j \<in> set (repeat f n i) \<Longrightarrow> i \<le> N \<Longrightarrow> R\<^sup>*\<^sup>* i j"
proof (induction n arbitrary: i)
  case (Suc n)
  then consider "j = i" | k where "k \<in> set (f i)" and "j \<in> set (repeat f n k)" by auto
  then show ?case
  proof cases
    case 2
    then have "R i k" and "k \<le> N" using assms Suc.prems(2) by blast+
    then show ?thesis using Suc.IH [OF 2(2)] by (simp add: converse_rtranclp_into_rtranclp)
  qed simp
qed simp

lemma repeat_complete:
  assumes "\<And>i j. R i j \<Longrightarrow> i \<le> N \<Longrightarrow> j \<in> set (f i) \<and> i \<le> j \<and> j \<le> N" and "R\<^sup>*\<^sup>* i j"
  shows "i \<le> N \<Longrightarrow> N - i \<le> n \<Longrightarrow> j \<in> set (repeat f n i)"
  using assms(2)
proof (induction arbitrary: n rule: converse_rtranclp_induct)
  case base
  then show ?case by (cases n) simp_all
next
  case (step i k)
  note k = assms(1) [OF step.hyps(1) step.prems(1)]
  show ?case
  proof (cases "k = i")
    case True
    then show ?thesis using step.IH step.prems by simp
  next
    case False
    then obtain m where n: "n = Suc m" and "N - k \<le> m" using k step.prems by (cases n) auto
    then have "j \<in> set (repeat f m k)" using step.IH k by simp
    then show ?thesis using n k False by auto
  qed
qed

lemma rx_ends_iff: "i \<le> length s \<Longrightarrow> j \<in> set (rx_ends s r i) \<longleftrightarrow> rx_match s r i j"
proof (induction r arbitrary: i j)
  case (Seq r q)
  then show ?case using rx_match_bounds [of s r] by (auto simp: relcompp_apply)
next
  case (Star r)
  have s: "\<And>i j. j \<in> set (rx_ends s r i) \<Longrightarrow> i \<le> length s \<Longrightarrow> rx_match s r i j"
    and c: "\<And>i j. rx_match s r i j \<Longrightarrow> i \<le> length s \<Longrightarrow> j \<in> set (rx_ends s r i) \<and> i \<le> j \<and> j \<le> length s"
    using Star.IH rx_match_bounds [of s r] by auto
  show ?case
    using repeat_sound [of "rx_ends s r" "length s" "rx_match s r", OF s _ _ Star.prems] c
      repeat_complete [of "rx_match s r" "length s" "rx_ends s r", OF c _ Star.prems] by auto
qed (auto simp: step_if_def stay_if_def)

text \<open>The search finds a pattern exactly when it matches between two positions of the string.\<close>

lemma re_search_iff: "re_search r s \<longleftrightarrow> (\<exists>i j. i \<le> length s \<and> rx_match s r i j)"
proof -
  have "rx_ends s r i \<noteq> [] \<longleftrightarrow> (\<exists>j. rx_match s r i j)" if "i \<le> length s" for i
    using rx_ends_iff [OF that, of _ r] by (metis last_in_set list.set(1) empty_iff)
  then show ?thesis
    by (auto simp: re_search_def list_ex_iff less_Suc_eq_le simp del: upt_Suc)
qed

text \<open>A literal, and a run of characters of one class, at a place in a string.\<close>

lemma match_lits: "rx_match (a @ t @ c) (Lits t) (length a) (length a + length t)"
proof (induction t arbitrary: a)
  case (Cons x t)
  then show ?case using Cons [of "a @ [x]"] by (auto simp: relcompp_apply)
qed simp

lemma match_run:
  assumes "\<And>k. k < length s \<Longrightarrow> P (s ! k) \<Longrightarrow> rx_match s r k (Suc k)"
    and "s = a @ b @ c" and "list_all P b"
  shows "rx_match s (Star r) (length a) (length a + length b)"
  using assms(2,3)
proof (induction b arbitrary: c rule: rev_induct)
  case (snoc x b)
  have "(rx_match s r)\<^sup>*\<^sup>* (length a) (length a + length b)"
    using snoc.IH [of "x # c"] snoc.prems by simp
  moreover have "rx_match s r (length a + length b) (Suc (length a + length b))"
    using assms(1) [of "length a + length b"] snoc.prems by (simp add: nth_append)
  ultimately show ?case by (simp add: rtranclp.rtrancl_into_rtrancl)
qed simp

lemma match_spaces:
  assumes "s = a @ b @ c" and "list_all is_py_space b" and "b \<noteq> []"
  shows "rx_match s (Plus Space) (length a) (length a + length b)"
proof -
  obtain x b' where b: "b = x # b'" using assms(3) by (cases b) auto
  have "rx_match s Space (length a) (Suc (length a))" using assms b by simp
  moreover have "rx_match s (Star Space) (length (a @ [x])) (length (a @ [x]) + length b')"
    by (rule match_run [of _ is_py_space _ _ _ c]) (use assms b in auto)
  ultimately show ?thesis using b unfolding Plus_def by (auto simp: relcompp_apply)
qed

lemma match_seq: "rx_match s r i k \<Longrightarrow> rx_match s q k j \<Longrightarrow> rx_match s (Seq r q) i j"
  by auto

section \<open>Command lines\<close>

text \<open>
  \<open>shlex.shlex(s, posix=True, punctuation_chars=";&|")\<close> with \<open>whitespace_split\<close> and no comment
  characters. A state carries what \<open>read_token\<close> keeps between characters; a character that ends a
  token is pushed back and read again from the state between tokens.
\<close>

datatype lex_state = Gap | Word | Punct | Quote char | Escape "char option"

definition is_punct :: "char \<Rightarrow> bool" where
  "is_punct c = (c \<in> set '';&|'')"

definition is_lex_space :: "char \<Rightarrow> bool" where
  "is_lex_space c = (c \<in> {CHR '' '', CHR 0x09, CHR 0x0D, CHR 0x0A})"

definition is_quote :: "char \<Rightarrow> bool" where
  "is_quote c = (c = CHR 0x27 \<or> c = CHR 0x22)"

definition gap_step :: "char \<Rightarrow> lex_state \<times> string" where
  "gap_step c =
     (if is_lex_space c then (Gap, []) else if c = CHR 0x5C then (Escape None, [])
      else if is_punct c then (Punct, [c]) else if is_quote c then (Quote c, []) else (Word, [c]))"

definition emit :: "string \<Rightarrow> bool \<Rightarrow> string list result \<Rightarrow> string list result" where
  "emit token quoted rest = (if token \<noteq> [] \<or> quoted then ebind rest (\<lambda>ts. Inr (token # ts)) else rest)"

fun read_token :: "lex_state \<Rightarrow> string \<Rightarrow> bool \<Rightarrow> string \<Rightarrow> string list result" where
  "read_token Gap token quoted [] = Inr []"
| "read_token Gap token quoted (c # cs) = read_token (fst (gap_step c)) (snd (gap_step c)) False cs"
| "read_token Word token quoted [] = emit token quoted (Inr [])"
| "read_token Word token quoted (c # cs) =
     (if is_lex_space c \<or> is_punct c then emit token quoted (read_token (fst (gap_step c)) (snd (gap_step c)) False cs)
      else if is_quote c then read_token (Quote c) token quoted cs
      else if c = CHR 0x5C then read_token (Escape None) token quoted cs
      else read_token Word (token @ [c]) quoted cs)"
| "read_token Punct token quoted [] = emit token quoted (Inr [])"
| "read_token Punct token quoted (c # cs) =
     (if is_punct c then read_token Punct (token @ [c]) quoted cs
      else emit token quoted (read_token (fst (gap_step c)) (snd (gap_step c)) False cs))"
| "read_token (Quote q) token quoted [] = Inl (ValueError ''No closing quotation'')"
| "read_token (Quote q) token quoted (c # cs) =
     (if c = q then read_token Word token True cs
      else if c = CHR 0x5C \<and> q = CHR 0x22 then read_token (Escape (Some q)) token True cs
      else read_token (Quote q) (token @ [c]) True cs)"
| "read_token (Escape back) token quoted [] = Inl (ValueError ''No escaped character'')"
| "read_token (Escape None) token quoted (c # cs) = read_token Word (token @ [c]) quoted cs"
| "read_token (Escape (Some q)) token quoted (c # cs) =
     read_token (Quote q) (token @ (if c \<noteq> CHR 0x5C \<and> c \<noteq> q then [CHR 0x5C] else []) @ [c]) quoted cs"

definition shlex_tokens :: "string \<Rightarrow> string list result" where
  "shlex_tokens s = read_token Gap [] False s"

end
