(* ===== verification/Document_Dispatch.thy ===== *)
theory Document_Dispatch
  imports Knowledge_Tasks Text_Pattern
begin

text \<open>
  Who parses a document: the registry of local parsers (\<open>core/knowledge/parsing/registry.py\<close>), and the
  coordinator of external parsers with the policy that says which documents may be sent to a third party
  (\<open>core/knowledge/parsing/external.py\<close>). The parsers themselves are arguments: a local parser is a
  function of the number of the call and the request; an external adapter reports progress and replies, or
  fails. A document handed to an external adapter is recorded in \<open>ws_sent\<close>.
\<close>

section \<open>Local parsers\<close>

record document_parser =
  dp_parser_id :: string
  dp_priority :: int
  dp_media_types :: "string list"
  dp_extensions :: "string list"
  dp_parse :: "nat \<Rightarrow> parse_request \<Rightarrow> parsed_document outcome"

definition register_parser :: "document_parser list \<Rightarrow> document_parser \<Rightarrow> document_parser list outcome" where
  "register_parser parsers parser =
     ebind (require (strip (dp_parser_id parser) \<noteq> [] \<and> \<not> list_ex (\<lambda>p. strip (dp_parser_id p) = strip (dp_parser_id parser)) parsers)
       (OtherFailure ''ParserConflictError'')) (\<lambda>_. Inr (parsers @ [parser]))"

text \<open>\<open>PurePosixPath(path).suffix\<close>: from the last dot of the name, unless it starts or ends the name.\<close>

definition path_suffix :: "string \<Rightarrow> string" where
  "path_suffix path =
     (let name = path_name path; tail = rev (takeWhile (\<lambda>c. c \<noteq> CHR ''.'') (rev name)) in
      if CHR ''.'' \<in> set name \<and> tail \<noteq> [] \<and> length tail + 1 < length name then CHR ''.'' # tail else [])"

definition parser_accepts :: "parse_request \<Rightarrow> document_parser \<Rightarrow> bool" where
  "parser_accepts request p = (lower (rq_media_type request) \<in> set (dp_media_types p)
     \<or> lower (path_suffix (rq_relative_path request)) \<in> set (dp_extensions p))"

definition resolve_parser :: "document_parser list \<Rightarrow> parse_request \<Rightarrow> document_parser outcome" where
  "resolve_parser parsers request =
     (case sort_key (\<lambda>p. - dp_priority p) (sort_key dp_parser_id (filter (parser_accepts request) parsers)) of
        [] \<Rightarrow> Inl (ParserNotFound (''no parser for '' @
          (if rq_media_type request = [] then ''unknown media type'' else rq_media_type request)))
      | [p] \<Rightarrow> Inr p
      | p # q # _ \<Rightarrow> if dp_priority p = dp_priority q then Inl (OtherFailure ''ParserConflictError'') else Inr p)"

definition parse_locally :: "document_parser list \<Rightarrow> nat \<Rightarrow> parse_request \<Rightarrow> parsed_document outcome" where
  "parse_locally parsers n request = ebind (resolve_parser parsers request) (\<lambda>p. dp_parse p n request)"

section \<open>The policy for external parsing\<close>

record external_policy =
  xp_enabled :: bool
  xp_allowed_source_ids :: "string list"
  xp_max_payload_bytes :: nat
  xp_timeout :: int               \<comment> \<open>microseconds\<close>

definition opt_rx :: "rx \<Rightarrow> rx" where
  "opt_rx r = Alt r Eps"

fun alts :: "rx list \<Rightarrow> rx" where
  "alts [] = Eps"
| "alts [r] = r"
| "alts (r # rs) = Alt r (alts rs)"

definition SENSITIVE_PATH :: rx where
  "SENSITIVE_PATH =
     (let sep = OneOf ''._-''; dash = opt_rx (OneOf ''-_''); s = opt_rx (Lit (CHR ''s'')) in
      Seqs [Alt Start sep,
        alts [Lits ''secret'', Lits ''secrets'', Lits ''credential'', Lits ''credentials'', Seqs [Lits ''api'', dash, Lits ''key'', s],
          Seqs [Lits ''access'', dash, Lits ''token'', s], Seqs [Lits ''private'', dash, Lits ''key'', s], Lits ''passwd'',
          Seqs [Lits ''password'', s]],
        Alt sep End])"

definition looks_sensitive_path :: "string \<Rightarrow> bool" where
  "looks_sensitive_path path = list_ex (\<lambda>part. starts_with part ''.'' \<or> re_search SENSITIVE_PATH part) (split_slash path)"

definition authorize :: "external_policy \<Rightarrow> string \<Rightarrow> parse_request \<Rightarrow> unit outcome" where
  "authorize policy root_id request =
     ebind (require (xp_enabled policy) (ExternalParsePolicyFailure ''external document parsing is disabled'')) (\<lambda>_.
     ebind (require (root_id \<in> set (xp_allowed_source_ids policy))
       (ExternalParsePolicyFailure ''knowledge source is not allowed for external parsing'')) (\<lambda>_.
     ebind (require (length (rq_payload request) \<le> xp_max_payload_bytes policy)
       (ExternalParsePolicyFailure ''source exceeds external parsing size limit'')) (\<lambda>_.
     require (\<not> looks_sensitive_path (rq_relative_path request))
       (ExternalParsePolicyFailure ''sensitive source path cannot be processed externally''))))"

section \<open>The coordinator\<close>

record parse_progress =
  pp_adapter_id :: string
  pp_adapter_version :: string
  pp_stage :: string
  pp_completed_units :: "int option"
  pp_total_units :: "int option"
  pp_reason_code :: "string option"

record parse_ticket =
  tk_adapter_id :: string
  tk_adapter_version :: string
  tk_task_id :: string

record parse_pending =
  pn_ticket :: parse_ticket
  pn_stage :: string
  pn_retry_after :: int           \<comment> \<open>microseconds\<close>

datatype dispatch_outcome = Pending parse_pending | Completed parsed_document

text \<open>How a call of an adapter ends: a reply, \<open>TimeoutError\<close>, \<open>ExternalAdapterError\<close> or another exception.\<close>

datatype 'a adapter_reply = Replied 'a | TimedOut | AdapterError string bool | Raised job_exception

record external_adapter =
  xa_adapter_id :: string
  xa_adapter_version :: string
  xa_media_types :: "string list"
  xa_resumable :: bool
  xa_submit :: "nat \<Rightarrow> parse_request \<Rightarrow> parse_progress list \<times> parse_pending adapter_reply"
  xa_resume :: "nat \<Rightarrow> parse_request \<Rightarrow> parse_ticket \<Rightarrow> parse_progress list \<times> dispatch_outcome adapter_reply"
  xa_parse :: "nat \<Rightarrow> parse_request \<Rightarrow> parse_progress list \<times> parsed_document adapter_reply"

record parse_coordinator =
  pc_policy :: external_policy
  pc_adapters :: "external_adapter list"

definition supports :: "parse_coordinator \<Rightarrow> string \<Rightarrow> bool" where
  "supports coordinator media_type = list_ex (\<lambda>a. media_type \<in> set (xa_media_types a)) (pc_adapters coordinator)"

fun reply_map :: "('a \<Rightarrow> 'b) \<Rightarrow> 'a adapter_reply \<Rightarrow> 'b adapter_reply" where
  "reply_map f (Replied x) = Replied (f x)"
| "reply_map f TimedOut = TimedOut"
| "reply_map f (AdapterError code retryable) = AdapterError code retryable"
| "reply_map f (Raised e) = Raised e"

text \<open>Hand a request to an adapter: what it reports while it works, then its reply.\<close>

definition hand_over ::
  "worker_env \<Rightarrow> (parse_progress \<Rightarrow> unit task) \<Rightarrow> string \<Rightarrow> parse_request \<Rightarrow>
   (nat \<Rightarrow> parse_progress list \<times> 'a adapter_reply) \<Rightarrow> 'a adapter_reply task" where
  "hand_over env report root_id request call st =
     (let (steps, reply) = call (ws_awaits st) in
      tbind (tfold (\<lambda>_. report) () steps) (\<lambda>_. outside env (\<lambda>_. Inr reply)) (st\<lparr>ws_sent := ws_sent st @ [(root_id, request)]\<rparr>))"

definition call_adapter ::
  "worker_env \<Rightarrow> (parse_progress \<Rightarrow> unit task) \<Rightarrow> string \<Rightarrow> parse_request \<Rightarrow> external_adapter \<Rightarrow> parse_ticket option \<Rightarrow>
   dispatch_outcome adapter_reply task" where
  "call_adapter env report root_id request adapter ticket = (case ticket of
     Some t \<Rightarrow>
       if \<not> xa_resumable adapter then tret (AdapterError ''invalid_ticket'' False)
       else hand_over env report root_id request (\<lambda>n. xa_resume adapter n request t)
   | None \<Rightarrow>
       if xa_resumable adapter
       then tbind (hand_over env report root_id request (\<lambda>n. xa_submit adapter n request)) (\<lambda>r. tret (reply_map Pending r))
       else tbind (hand_over env report root_id request (\<lambda>n. xa_parse adapter n request)) (\<lambda>r. tret (reply_map Completed r)))"

definition stage_progress :: "external_adapter \<Rightarrow> string \<Rightarrow> string option \<Rightarrow> parse_progress" where
  "stage_progress adapter stage reason = \<lparr>pp_adapter_id = xa_adapter_id adapter, pp_adapter_version = xa_adapter_version adapter,
     pp_stage = stage, pp_completed_units = None, pp_total_units = None, pp_reason_code = reason\<rparr>"

fun join_comma :: "string list \<Rightarrow> string" where
  "join_comma [] = []"
| "join_comma [s] = s"
| "join_comma (s # ss) = s @ '','' @ join_comma ss"

definition all_failed :: "(string \<times> bool) list \<Rightarrow> job_exception" where
  "all_failed failures =
     (let codes = join_comma (map fst failures) in
      if list_ex snd failures
      then ExternalParsingTransient (''external document parsing is temporarily unavailable ('' @ codes @ '')'')
      else ExternalParsingFailed (''external document parsing failed ('' @ codes @ '')''))"

text \<open>The loop over the candidates; only the first is asked to resume a ticket.\<close>

fun try_adapters ::
  "worker_env \<Rightarrow> (parse_progress \<Rightarrow> unit task) \<Rightarrow> string \<Rightarrow> parse_request \<Rightarrow> parse_ticket option \<Rightarrow> (string \<times> bool) list \<Rightarrow>
   external_adapter list \<Rightarrow> dispatch_outcome task" where
  "try_adapters env report root_id request ticket failures [] = traise (all_failed failures)"
| "try_adapters env report root_id request ticket failures (adapter # rest) =
     (let failed = (\<lambda>code retryable.
        tbind (if rest \<noteq> [] then report (stage_progress adapter ''fallback'' (Some code)) else tret ()) (\<lambda>_.
        try_adapters env report root_id request None (failures @ [(code, retryable)]) rest)) in
      tbind (report (stage_progress adapter ''selected'' None)) (\<lambda>_.
      tbind (call_adapter env report root_id request adapter ticket) (\<lambda>reply.
      case reply of
        Replied (Pending p) \<Rightarrow> tret (Pending p)
      | Replied (Completed d) \<Rightarrow> tbind (report (stage_progress adapter ''completed'' None)) (\<lambda>_. tret (Completed d))
      | Raised e \<Rightarrow> traise e
      | TimedOut \<Rightarrow> failed ''timeout'' True
      | AdapterError code retryable \<Rightarrow> failed code retryable)))"

definition holds_ticket :: "parse_ticket \<Rightarrow> external_adapter \<Rightarrow> bool" where
  "holds_ticket t a = (xa_adapter_id a = tk_adapter_id t \<and> xa_adapter_version a = tk_adapter_version t)"

definition dispatch ::
  "worker_env \<Rightarrow> (parse_progress \<Rightarrow> unit task) \<Rightarrow> parse_coordinator \<Rightarrow> string \<Rightarrow> parse_request \<Rightarrow> parse_ticket option \<Rightarrow>
   dispatch_outcome task" where
  "dispatch env report coordinator root_id request ticket =
     (case authorize (pc_policy coordinator) root_id request of
        Inl e \<Rightarrow> traise e
      | Inr _ \<Rightarrow>
          let candidates = filter (\<lambda>a. rq_media_type request \<in> set (xa_media_types a)) (pc_adapters coordinator) in
          if candidates = [] then traise (ExternalParsingFailed ''no external parser supports this source format'')
          else case ticket of
              None \<Rightarrow> try_adapters env report root_id request None [] candidates
            | Some t \<Rightarrow>
                let known = dropWhile (\<lambda>a. \<not> holds_ticket t a) candidates in
                if known = [] then traise (ExternalParsingFailed ''external parser ticket is no longer supported'')
                else try_adapters env report root_id request ticket [] known)"

end
