(* ===== verification/Source_Scan.thy ===== *)
theory Source_Scan
  imports Knowledge_Tasks Text_Pattern
begin

text \<open>
  The adapters of knowledge sources: the registry that binds one adapter to each kind of source
  (\<open>core/knowledge/sources/registry.py\<close>, with the contracts of \<open>sources/types.py\<close>), and the loop that
  reads a source page by page (\<open>KnowledgeJobService._scan_adapter\<close>). An adapter is a record of functions
  of the number of the await and its arguments.
\<close>

section \<open>Adapters\<close>

record source_descriptor =
  sd_source_key :: string
  sd_source_revision :: string
  sd_media_type :: string
  sd_size_bytes :: nat
  sd_modified_at :: "int option"

record scan_page =
  sp_items :: "source_descriptor list"
  sp_next_cursor :: "string option"
  sp_target_checkpoint :: string
  sp_complete :: bool

record source_artifact =
  sa_source_key :: string
  sa_source_revision :: string
  sa_media_type :: string
  sa_content :: string
  sa_metadata :: "(string \<times> string) list"

record source_adapter =
  ad_adapter_id :: string
  ad_adapter_version :: string
  ad_supported_kinds :: "string list"
  ad_scan :: "nat \<Rightarrow> source_root \<Rightarrow> string \<Rightarrow> string option \<Rightarrow> string option \<Rightarrow> nat \<Rightarrow> scan_page outcome"
  ad_fetch :: "nat \<Rightarrow> source_root \<Rightarrow> source_descriptor \<Rightarrow> source_artifact outcome"
  ad_acknowledge :: "nat \<Rightarrow> source_root \<Rightarrow> source_descriptor \<Rightarrow> string \<Rightarrow> unit outcome"

record source_registry =
  rg_by_kind :: "(string \<times> source_adapter) list"
  rg_by_id :: "(string \<times> source_adapter) list"

definition normal_kind :: "string \<Rightarrow> string" where
  "normal_kind kind = lower (strip kind)"

fun join_names :: "string list \<Rightarrow> string" where
  "join_names [] = []"
| "join_names [s] = s"
| "join_names (s # ss) = s @ '', '' @ join_names ss"

definition register_adapter :: "source_registry \<Rightarrow> source_adapter \<Rightarrow> source_registry outcome" where
  "register_adapter reg adapter =
     (let adapter_id = strip (ad_adapter_id adapter);
        kinds = remdups (map normal_kind (filter (\<lambda>k. strip k \<noteq> []) (ad_supported_kinds adapter))) in
      ebind (require (adapter_id \<noteq> [] \<and> map_of (rg_by_id reg) adapter_id = None)
        (Py (ValueError ''knowledge source adapter id must be unique''))) (\<lambda>_.
      ebind (require (kinds \<noteq> []) (Py (ValueError ''knowledge source adapter must support at least one kind''))) (\<lambda>_.
      let conflicts = sort (filter (\<lambda>k. map_of (rg_by_kind reg) k \<noteq> None) kinds) in
      ebind (require (conflicts = []) (Py (ValueError (''knowledge source kinds already registered: '' @ join_names conflicts)))) (\<lambda>_.
      Inr \<lparr>rg_by_kind = rg_by_kind reg @ map (\<lambda>k. (k, adapter)) kinds, rg_by_id = rg_by_id reg @ [(adapter_id, adapter)]\<rparr>))))"

definition resolve_adapter :: "source_registry \<Rightarrow> source_root \<Rightarrow> string option \<Rightarrow> source_adapter outcome" where
  "resolve_adapter reg root adapter_id =
     (case map_of (rg_by_kind reg) (normal_kind (sr_kind root)) of
        None \<Rightarrow> Inl (SourceFailure ''knowledge source connector is not available'')
      | Some adapter \<Rightarrow>
          if adapter_id \<noteq> None \<and> Some (ad_adapter_id adapter) \<noteq> adapter_id
          then Inl (SourceFailure ''knowledge source connector is not available'') else Inr adapter)"

section \<open>Reading a source page by page\<close>

text \<open>
  The \<open>while True\<close> loop of \<open>_scan_adapter\<close>. An adapter may return pages for ever, so the loop has
  fuel: \<open>None\<close> says that it has not ended after that many pages.
\<close>

definition conflict :: "string \<Rightarrow> job_exception" where
  "conflict message = Py (JobConflict message)"

fun scan_pages ::
  "worker_env \<Rightarrow> source_adapter \<Rightarrow> source_root \<Rightarrow> string \<Rightarrow> string option \<Rightarrow> string option \<Rightarrow> nat \<Rightarrow>
   source_descriptor list \<Rightarrow> string option \<Rightarrow> string option \<Rightarrow> (source_descriptor list \<times> string) option task" where
  "scan_pages env adapter root scp checkpoint source_id 0 descriptors cursor target = tret None"
| "scan_pages env adapter root scp checkpoint source_id (Suc fuel) descriptors cursor target =
     tbind (outside env (\<lambda>n. ad_scan adapter n root scp checkpoint cursor 500)) (\<lambda>page.
     tbind (trequire (target = None \<or> target = Some (sp_target_checkpoint page)) (conflict ''knowledge source changed during scan'')) (\<lambda>_.
     let descriptors' = descriptors @ sp_items page; cursor' = sp_next_cursor page in
     tbind (case source_id of None \<Rightarrow> tret ()
         | Some sid \<Rightarrow> perform env (\<lambda>now db. record_source_scan_page db sid (ad_adapter_id adapter) (ad_adapter_version adapter) cursor')) (\<lambda>_.
     if sp_complete page
     then tbind (trequire (cursor' = None) (conflict ''completed source scan returned a cursor'')) (\<lambda>_.
       tret (Some (descriptors', sp_target_checkpoint page)))
     else tbind (trequire (cursor' \<noteq> None) (conflict ''incomplete source scan has no cursor'')) (\<lambda>_.
       scan_pages env adapter root scp checkpoint source_id fuel descriptors' cursor' (Some (sp_target_checkpoint page))))))"

definition scan_adapter ::
  "worker_env \<Rightarrow> nat \<Rightarrow> source_adapter \<Rightarrow> source_root \<Rightarrow> string \<Rightarrow> string option \<Rightarrow> string option \<Rightarrow>
   (source_descriptor list \<times> string) option task" where
  "scan_adapter env fuel adapter root scp checkpoint source_id =
     scan_pages env adapter root scp checkpoint source_id fuel [] None None"

text \<open>The errors that the source row shows when a scan failed.\<close>

fun is_source_error :: "job_exception \<Rightarrow> bool" where
  "is_source_error (SourceFailure _) = True"
| "is_source_error _ = False"

fun is_file_not_found :: "job_exception \<Rightarrow> bool" where
  "is_file_not_found (FileNotFound _) = True"
| "is_file_not_found _ = False"

definition safe_source_error :: "job_exception \<Rightarrow> string" where
  "safe_source_error e =
     (if is_file_not_found e then ''knowledge source is not available''
      else if is_source_error e \<or> is_job_conflict e then take 1000 (exception_text e)
      else ''knowledge source scan failed'')"

definition source_error_code :: "job_exception \<Rightarrow> string" where
  "source_error_code e =
     (if is_file_not_found e then ''source_unavailable''
      else if is_job_conflict e then ''source_conflict''
      else if is_source_error e then ''source_invalid''
      else ''source_scan_failed'')"

end
