(* ===== verification/Knowledge_Worker.thy ===== *)
theory Knowledge_Worker
  imports Knowledge_Commit Document_Dispatch Source_Scan
begin

text \<open>
  The service that runs ingestion (\<open>core/knowledge/jobs/service.py\<close>): registering and scanning sources,
  creating batches, publishing ready items to the queue, and processing one message from the claim of its
  item to the acknowledgement.

  The knowledge store, the queue and the adapters are records of functions; a call at the \<open>n\<close>-th await
  may answer differently than the same call at another await. Times are microseconds. The heartbeat
  task appears in two places: its renewals are among the operations of others, and \<open>sv_heartbeat\<close>
  says how it ended when it is awaited. Creating and cancelling the task of the worker (\<open>start\<close>, \<open>stop\<close>)
  is not modelled beyond the points at which a cancellation can reach it.
\<close>

section \<open>Collaborators\<close>

record loaded_source =
  ls_source_root_id :: string
  ls_source_kind :: string
  ls_relative_path :: string
  ls_source_id :: string
  ls_source_revision :: string
  ls_media_type :: string
  ls_payload :: string

definition parse_request_of :: "loaded_source \<Rightarrow> parse_request" where
  "parse_request_of s = \<lparr>rq_source_id = ls_source_id s, rq_relative_path = ls_relative_path s,
     rq_source_revision = ls_source_revision s, rq_media_type = ls_media_type s, rq_payload = ls_payload s\<rparr>"

record prepared_source =
  ps_source_revision :: string
  ps_document :: parsed_document

record knowledge_store =
  st_workspace_name :: string
  st_parsers :: "document_parser list"
  st_validate_root :: "source_root \<Rightarrow> source_root outcome"
  st_load_artifact :: "nat \<Rightarrow> string \<Rightarrow> source_artifact \<Rightarrow> loaded_source outcome"
  st_prepare :: "nat \<Rightarrow> loaded_source \<Rightarrow> parsed_document \<Rightarrow> prepared_source outcome"
  st_ingest :: "nat \<Rightarrow> prepared_source \<Rightarrow> string outcome"
  st_apply_policy :: "nat \<Rightarrow> string \<Rightarrow> string outcome"
  st_retract :: "nat \<Rightarrow> string \<Rightarrow> string \<Rightarrow> string \<Rightarrow> string outcome"

record job_queue =
  jq_initialize :: "nat \<Rightarrow> unit outcome"
  jq_publish :: "nat \<Rightarrow> string \<Rightarrow> bool outcome"
  jq_read :: "nat \<Rightarrow> string \<Rightarrow> queue_message list outcome"
  jq_recover :: "nat \<Rightarrow> string \<Rightarrow> queue_message list outcome"
  jq_acknowledge :: "nat \<Rightarrow> queue_message \<Rightarrow> unit outcome"

record job_service =
  sv_store :: knowledge_store
  sv_queue :: job_queue
  sv_adapters :: source_registry
  sv_external :: "parse_coordinator option"
  sv_workspace_id :: string
  sv_worker_id :: string
  sv_lease :: int
  sv_retry_base :: int
  sv_heartbeat :: "nat \<Rightarrow> unit outcome"

definition PIPELINE_VERSION :: string where
  "PIPELINE_VERSION = ''h2.5b2-async-document-parsing-v1''"

section \<open>Errors and retries\<close>

definition safe_error :: "job_exception \<Rightarrow> string" where
  "safe_error e =
     (if is_value_error e \<or> is_job_conflict e then take 1000 (exception_text e)
      else if is_file_not_found e then ''knowledge source file not found''
      else case e of UnicodeFailure _ \<Rightarrow> ''knowledge source is not valid UTF-8''
        | _ \<Rightarrow> class_name e @ '': knowledge ingestion failed'')"

definition error_code :: "job_exception \<Rightarrow> string" where
  "error_code e = (case e of
       DocumentRequiresOcr _ \<Rightarrow> ''requires_ocr''
     | ExternalParsePolicyFailure _ \<Rightarrow> ''external_parse_forbidden''
     | ExternalParsingFailed _ \<Rightarrow> ''external_parse_failed''
     | ExternalParsingTransient _ \<Rightarrow> ''external_parse_unavailable''
     | ParserNotFound _ \<Rightarrow> ''unsupported_format''
     | _ \<Rightarrow>
         if is_parse_error e then ''parse_failed''
         else if is_job_conflict e then ''source_conflict''
         else if is_file_not_found e then ''source_missing''
         else if is_value_error e then ''invalid_source''
         else ''transient_error'')"

definition is_retryable :: "job_exception \<Rightarrow> bool" where
  "is_retryable e = (\<not> (is_value_error e \<or> is_job_conflict e \<or> is_file_not_found e \<or> (case e of ParserNotFound _ \<Rightarrow> True | _ \<Rightarrow> False)))"

text \<open>\<open>self.retry_base_seconds * (2 ** max(item.attempts - 1, 0))\<close>\<close>

definition retry_delay :: "job_service \<Rightarrow> int \<Rightarrow> int" where
  "retry_delay sv attempts = sv_retry_base sv * 2 ^ nat (max (attempts - 1) 0)"

section \<open>The queue\<close>

definition publish :: "worker_env \<Rightarrow> job_service \<Rightarrow> string \<Rightarrow> bool task" where
  "publish env sv iid =
     tbind (outside env (\<lambda>n. jq_publish (sv_queue sv) n iid)) (\<lambda>published st.
     (if published then st\<lparr>ws_published := ws_published st @ [iid]\<rparr> else st, Inr published))"

definition acknowledge :: "worker_env \<Rightarrow> job_service \<Rightarrow> queue_message \<Rightarrow> unit task" where
  "acknowledge env sv message =
     tbind (outside env (\<lambda>n. jq_acknowledge (sv_queue sv) n message)) (\<lambda>_ st. (st\<lparr>ws_acked := ws_acked st @ [message]\<rparr>, Inr ()))"

definition recover_pending :: "worker_env \<Rightarrow> job_service \<Rightarrow> unit task" where
  "recover_pending env sv =
     tbind (outside env (\<lambda>n. jq_recover (sv_queue sv) n (sv_worker_id sv))) (\<lambda>messages st.
     (st\<lparr>ws_recovered := ws_recovered st @ messages\<rparr>, Inr ()))"

definition recover_leases :: "worker_env \<Rightarrow> string list task" where
  "recover_leases env = transact env (recover_expired_leases (we_ids env))"

definition enqueue_ready :: "worker_env \<Rightarrow> job_service \<Rightarrow> nat task" where
  "enqueue_ready env sv =
     tbind (ask env (\<lambda>now db. Inr (ready_item_ids now db 1000))) (\<lambda>ids.
     tfold (\<lambda>count iid. tbind (publish env sv iid) (\<lambda>published. tret (if published then Suc count else count))) 0 ids)"

definition reconcile :: "worker_env \<Rightarrow> job_service \<Rightarrow> nat task" where
  "reconcile env sv =
     tbind (\<lambda>st. if ws_recovered st = [] then recover_pending env sv st else tret () st) (\<lambda>_.
     tbind (recover_leases env) (\<lambda>_. enqueue_ready env sv))"

section \<open>Sources\<close>

definition now_of :: "worker_env \<Rightarrow> int task" where
  "now_of env st = (st, Inr (we_clock env (ws_awaits st)))"

definition lift_outcome :: "'a outcome \<Rightarrow> 'a task" where
  "lift_outcome r = (case r of Inl e \<Rightarrow> traise e | Inr x \<Rightarrow> tret x)"

text \<open>\<open>mapping[key]\<close> on the sources and on their ids\<close>

definition source_root_of :: "string \<Rightarrow> source_root task" where
  "source_root_of root_id st = (case map_of (ws_source_roots st) root_id of
     None \<Rightarrow> traise (Py (KeyError root_id)) st | Some root \<Rightarrow> tret root st)"

definition source_id_of :: "string \<Rightarrow> string task" where
  "source_id_of root_id st = (case map_of (ws_source_ids st) root_id of
     None \<Rightarrow> traise (Py (KeyError root_id)) st | Some sid \<Rightarrow> tret sid st)"

definition bind_source :: "worker_env \<Rightarrow> job_service \<Rightarrow> string \<Rightarrow> source_root \<Rightarrow> unit task" where
  "bind_source env sv root_id root =
     tbind (lift_outcome (resolve_adapter (sv_adapters sv) root None)) (\<lambda>adapter.
     tbind (transact env (\<lambda>now db. ensure_workspace (we_ids env) db (sv_workspace_id sv)
       (if st_workspace_name (sv_store sv) = [] then ''knowledge'' else st_workspace_name (sv_store sv)) root_id (sr_kind root)
       (sr_label root) (ad_adapter_id adapter) (ad_adapter_version adapter))) (\<lambda>sid st.
     (st\<lparr>ws_source_ids := AList.update root_id sid (ws_source_ids st)\<rparr>, Inr ())))"

definition register_sources :: "worker_env \<Rightarrow> job_service \<Rightarrow> unit task" where
  "register_sources env sv st = tfold (\<lambda>_ (root_id, root). bind_source env sv root_id root) () (ws_source_roots st) st"

text \<open>\<open>KnowledgeStore.register_source_root\<close>, then the binding of its adapter\<close>

definition register_source_root :: "worker_env \<Rightarrow> job_service \<Rightarrow> source_root \<Rightarrow> source_root task" where
  "register_source_root env sv root =
     tbind (lift_outcome (st_validate_root (sv_store sv) root)) (\<lambda>validated.
     tbind (\<lambda>st. if map_of (ws_source_roots st) (sr_root_id validated) \<notin> {None, Some validated}
         then traise (OtherFailure ''KnowledgeConflictError'') st
         else (st\<lparr>ws_source_roots := AList.update (sr_root_id validated) validated (ws_source_roots st)\<rparr>, Inr ())) (\<lambda>_.
     tbind (bind_source env sv (sr_root_id validated) validated) (\<lambda>_. tret validated)))"

definition prepare :: "worker_env \<Rightarrow> job_service \<Rightarrow> unit task" where
  "prepare env sv st =
     (if ws_prepared st then tret () st
      else tbind (outside env (jq_initialize (sv_queue sv))) (\<lambda>_.
        tbind (register_sources env sv) (\<lambda>_.
        tbind (recover_leases env) (\<lambda>_.
        tbind (outside env (\<lambda>n. jq_recover (sv_queue sv) n (sv_worker_id sv))) (\<lambda>messages.
        tbind (\<lambda>st. enqueue_ready env sv (st\<lparr>ws_recovered := messages\<rparr>)) (\<lambda>_ st. (st\<lparr>ws_prepared := True\<rparr>, Inr ())))))) st)"

section \<open>Plans and batches\<close>

definition scanned_file_of :: "worker_env \<Rightarrow> job_service \<Rightarrow> string \<Rightarrow> source_descriptor \<Rightarrow> scanned_file" where
  "scanned_file_of env sv root_id d = \<lparr>sf_relative_path = sd_source_key d, sf_source_revision = sd_source_revision d,
     sf_idempotency_key = sha_text (we_ids env) (join_nul [sv_workspace_id sv, root_id, sd_source_key d, sd_source_revision d, PIPELINE_VERSION]),
     sf_change_kind = ''added''\<rparr>"

definition or_dot :: "string \<Rightarrow> string" where
  "or_dot directory = (if strip directory = [] then ''.'' else strip directory)"

text \<open>The plan of a scan: the diff against the committed manifest, stored with the watermark it starts from.\<close>

definition plan_scan ::
  "worker_env \<Rightarrow> job_service \<Rightarrow> string \<Rightarrow> string \<Rightarrow> string \<Rightarrow> source_adapter \<Rightarrow> string option \<Rightarrow> source_descriptor list \<Rightarrow> string \<Rightarrow>
   plan_view task" where
  "plan_scan env sv root_id directory sid adapter base_checkpoint descriptors target_checkpoint =
     (let scanned = map (scanned_file_of env sv root_id) descriptors; ids = sync_env.truncate (we_ids env);
        scp = \<lparr>sc_workspace_id = sv_workspace_id sv, sc_source_root_id = root_id, sc_relative_directory = directory,
          sc_pipeline_version = PIPELINE_VERSION\<rparr> in
      tbind (ask env (\<lambda>now db. Inr (get_manifest db sid))) (\<lambda>(base_watermark, manifest, _).
      tbind (lift_outcome (failing (build_sync_changes ids scp scanned manifest))) (\<lambda>changes.
      tbind (lift_outcome (failing (build_manifest_hash ids manifest changes))) (\<lambda>hash.
      transact env (\<lambda>now db. create_sync_plan (we_ids env) now db (scp\<lparr>sc_relative_directory := or_dot directory\<rparr>) sid
        (ad_adapter_id adapter) (ad_adapter_version adapter) base_checkpoint target_checkpoint base_watermark hash changes)))))"

text \<open>A failed scan is recorded on the source and raised again.\<close>

definition scan_recorded ::
  "worker_env \<Rightarrow> nat \<Rightarrow> source_adapter \<Rightarrow> source_root \<Rightarrow> string \<Rightarrow> string option \<Rightarrow> string \<Rightarrow> (source_descriptor list \<times> string) option task" where
  "scan_recorded env fuel adapter root directory checkpoint sid =
     tcatch (scan_adapter env fuel adapter root directory checkpoint (Some sid)) (\<lambda>e.
       tbind (perform env (\<lambda>now db. record_source_scan_failure db sid (source_error_code e) (safe_source_error e))) (\<lambda>_. traise e))"

definition preview_sync :: "worker_env \<Rightarrow> job_service \<Rightarrow> nat \<Rightarrow> string \<Rightarrow> string \<Rightarrow> plan_view option task" where
  "preview_sync env sv fuel root_id directory =
     tbind (prepare env sv) (\<lambda>_.
     tbind (\<lambda>st. if map_of (ws_source_ids st) root_id = None then register_sources env sv st else tret () st) (\<lambda>_.
     tbind (source_id_of root_id) (\<lambda>sid.
     tbind (source_root_of root_id) (\<lambda>root.
     tbind (lift_outcome (resolve_adapter (sv_adapters sv) root None)) (\<lambda>adapter.
     tbind (transact env (\<lambda>now db. begin_source_scan now db sid (ad_adapter_id adapter) (ad_adapter_version adapter))) (\<lambda>state.
     tbind (scan_recorded env fuel adapter root directory (sv_adapter_checkpoint state) sid) (\<lambda>scan.
     case scan of
       None \<Rightarrow> tret None
     | Some (descriptors, target) \<Rightarrow>
         tbind (plan_scan env sv root_id directory sid adapter (sv_adapter_checkpoint state) descriptors target)
           (\<lambda>plan. tret (Some plan)))))))))"

definition create_batch :: "worker_env \<Rightarrow> job_service \<Rightarrow> nat \<Rightarrow> string \<Rightarrow> string \<Rightarrow> string option \<Rightarrow> job_view option task" where
  "create_batch env sv fuel root_id directory plan_id =
     tbind (prepare env sv) (\<lambda>_.
     tbind (case plan_id of
         None \<Rightarrow> preview_sync env sv fuel root_id (or_dot directory)
       | Some pid \<Rightarrow>
           tbind (ask env (\<lambda>now db. get_sync_plan db pid)) (\<lambda>plan.
           tbind (trequire (pv_source_root_id plan = root_id \<and> pv_relative_directory plan = or_dot directory)
             (conflict ''knowledge sync plan does not match the requested source scope'')) (\<lambda>_. tret (Some plan)))) (\<lambda>found_plan.
     case found_plan of
       None \<Rightarrow> tret None
     | Some plan \<Rightarrow>
         tbind (source_id_of root_id) (\<lambda>sid.
         tbind (transact env (\<lambda>now db. create_job (we_ids env) now db (sv_workspace_id sv) sid (or_dot directory) PIPELINE_VERSION
           (plan_files (pv_changes plan)) 3 (Some (pv_plan_id plan)))) (\<lambda>job.
         tbind (enqueue_ready env sv) (\<lambda>_. tret (Some job))))))"

definition service_cancel_job :: "worker_env \<Rightarrow> string \<Rightarrow> job_view task" where
  "service_cancel_job env jid = transact env (\<lambda>now db. cancel_job (we_ids env) now db jid)"

definition service_retry_item :: "worker_env \<Rightarrow> job_service \<Rightarrow> string \<Rightarrow> string \<Rightarrow> unit task" where
  "service_retry_item env sv jid iid =
     tbind (perform env (\<lambda>now db. retry_item (we_ids env) now db jid iid)) (\<lambda>_.
     tbind (publish env sv iid) (\<lambda>_. tret ()))"

section \<open>Parsing\<close>

definition mark_terminal :: "worker_env \<Rightarrow> job_service \<Rightarrow> string \<Rightarrow> string \<Rightarrow> string option \<Rightarrow> unit task" where
  "mark_terminal env sv iid state reason =
     perform env (\<lambda>now db. mark_external_parse_terminal (we_ids env) now db iid (sv_worker_id sv) state reason)"

definition report_progress :: "worker_env \<Rightarrow> job_service \<Rightarrow> string \<Rightarrow> parse_progress \<Rightarrow> unit task" where
  "report_progress env sv iid p =
     perform env (\<lambda>now db. record_parser_progress (we_ids env) now db iid (sv_worker_id sv) (pp_adapter_id p) (pp_adapter_version p)
       (pp_stage p) (pp_completed_units p) (pp_total_units p) (pp_reason_code p))"

definition in_flight :: "external_row \<Rightarrow> bool" where
  "in_flight s = (ex_state s = ''queued'' \<or> ex_state s = ''running'')"

definition ticket_of :: "external_row \<Rightarrow> parse_ticket" where
  "ticket_of s = \<lparr>tk_adapter_id = ex_adapter_id s, tk_adapter_version = ex_adapter_version s, tk_task_id = ex_task_id s\<rparr>"

text \<open>What follows the reply of the coordinator: the item waits, or the document is there.\<close>

definition settle_reply ::
  "worker_env \<Rightarrow> job_service \<Rightarrow> string \<Rightarrow> external_row option \<Rightarrow> dispatch_outcome \<Rightarrow> parsed_document option task" where
  "settle_reply env sv iid external_state reply = (case reply of
     Pending p \<Rightarrow>
       tbind (case external_state of
           Some s \<Rightarrow> if pn_ticket p \<noteq> ticket_of s then mark_terminal env sv iid ''failed'' (Some ''adapter_fallback'') else tret ()
         | None \<Rightarrow> tret ()) (\<lambda>_.
       tbind (perform env (\<lambda>now db. defer_external_parse (we_ids env) now db iid (sv_worker_id sv) (tk_adapter_id (pn_ticket p))
         (tk_adapter_version (pn_ticket p)) (tk_task_id (pn_ticket p)) (if pn_stage p = ''running'' then ''running'' else ''queued'')
         (pn_retry_after p))) (\<lambda>_. tret None))
   | Completed d \<Rightarrow>
       tbind (case external_state of
           Some s \<Rightarrow> mark_terminal env sv iid (if pd_parser_id d = ex_adapter_id s then ''completed'' else ''fallback'') None
         | None \<Rightarrow> tret ()) (\<lambda>_. tret (Some d)))"

text \<open>\<open>Settled\<close>: \<open>_parse_document\<close> returns here; otherwise it goes on locally, with the external error if there was one.\<close>

datatype external_step = Settled "parsed_document option" | ParseLocally "job_exception option"

fun is_external_error :: "job_exception \<Rightarrow> bool" where
  "is_external_error (ExternalParsePolicyFailure _) = True"
| "is_external_error (ExternalParsingFailed _) = True"
| "is_external_error (ExternalParsingTransient _) = True"
| "is_external_error _ = False"

definition external_failure :: "worker_env \<Rightarrow> job_service \<Rightarrow> string \<Rightarrow> external_row option \<Rightarrow> job_exception \<Rightarrow> external_step task" where
  "external_failure env sv iid external_state e =
     (if \<not> is_external_error e then traise e
      else tbind (case external_state of
          Some s \<Rightarrow> if in_flight s then mark_terminal env sv iid ''failed'' (Some (error_code e)) else tret ()
        | None \<Rightarrow> tret ()) (\<lambda>_. tret (ParseLocally (Some e))))"

definition parse_externally ::
  "worker_env \<Rightarrow> job_service \<Rightarrow> string \<Rightarrow> string \<Rightarrow> parse_request \<Rightarrow> external_row option \<Rightarrow> external_step task" where
  "parse_externally env sv iid root_id request external_state =
     (case sv_external sv of
        None \<Rightarrow> tret (ParseLocally None)
      | Some coordinator \<Rightarrow>
          if \<not> supports coordinator (rq_media_type request) then tret (ParseLocally None)
          else tbind (now_of env) (\<lambda>now.
            let active = (case external_state of Some s \<Rightarrow> if in_flight s then Some s else None | None \<Rightarrow> None) in
            if (case active of Some s \<Rightarrow> xp_timeout (pc_policy coordinator) \<le> now - ex_submitted_at s | None \<Rightarrow> False)
            then tbind (mark_terminal env sv iid ''timed_out'' (Some ''timeout'')) (\<lambda>_.
              tret (ParseLocally (Some (ExternalParsingTransient ''external document parsing exceeded its total wait limit''))))
            else tcatch
              (tbind (dispatch env (report_progress env sv iid) coordinator root_id request (map_option ticket_of active)) (\<lambda>reply.
               tbind (settle_reply env sv iid external_state reply) (\<lambda>document. tret (Settled document))))
              (external_failure env sv iid external_state)))"

definition parse_document :: "worker_env \<Rightarrow> job_service \<Rightarrow> string \<Rightarrow> string \<Rightarrow> parse_request \<Rightarrow> parsed_document option task" where
  "parse_document env sv iid root_id request =
     tbind (ask env (\<lambda>now db. Inr (get_external_parse_state db iid))) (\<lambda>external_state.
     tbind (parse_externally env sv iid root_id request external_state) (\<lambda>step.
     case step of
       Settled document \<Rightarrow> tret document
     | ParseLocally external_error \<Rightarrow>
         tbind (case external_error of
             Some e \<Rightarrow> report_progress env sv iid \<lparr>pp_adapter_id = ''sage.pdf.text'', pp_adapter_version = ''1.0.0'',
               pp_stage = ''fallback'', pp_completed_units = None, pp_total_units = None, pp_reason_code = Some (error_code e)\<rparr>
           | None \<Rightarrow> tret ()) (\<lambda>_.
         tbind (tcatch (outside env (\<lambda>n. parse_locally (st_parsers (sv_store sv)) n request))
           (\<lambda>e. case (e, external_error) of (DocumentRequiresOcr _, Some x) \<Rightarrow> traise x | _ \<Rightarrow> traise e)) (\<lambda>document.
         tbind (case (external_error, external_state) of
             (Some e, Some _) \<Rightarrow> mark_terminal env sv iid ''fallback'' (Some (error_code e)) | _ \<Rightarrow> tret ()) (\<lambda>_.
         tret (Some document))))))"

section \<open>Processing a message\<close>

definition adapter_for_job :: "worker_env \<Rightarrow> job_service \<Rightarrow> job_view \<Rightarrow> (source_adapter \<times> source_root) task" where
  "adapter_for_job env sv job =
     tbind (source_root_of (jv_source_root_id job)) (\<lambda>root.
     tbind (if truthy (jv_sync_plan_id job)
         then tbind (ask env (\<lambda>now db. get_sync_plan db (the (jv_sync_plan_id job)))) (\<lambda>plan. tret (Some (pv_adapter_id plan, pv_adapter_version plan)))
         else tret None) (\<lambda>bound.
     tbind (lift_outcome (resolve_adapter (sv_adapters sv) root (map_option fst bound))) (\<lambda>adapter.
     tbind (trequire (map_option snd bound \<in> {None, Some (ad_adapter_version adapter)})
       (conflict ''knowledge source adapter version changed'')) (\<lambda>_. tret (adapter, root)))))"

definition acknowledge_source :: "worker_env \<Rightarrow> source_adapter \<Rightarrow> source_root \<Rightarrow> source_descriptor \<Rightarrow> string \<Rightarrow> unit task" where
  "acknowledge_source env adapter root d proposal_id =
     tcatch (outside env (\<lambda>n. ad_acknowledge adapter n root d proposal_id)) (\<lambda>_. tret ())"

definition descriptor_of :: "item_view \<Rightarrow> source_descriptor" where
  "descriptor_of item = \<lparr>sd_source_key = iv_relative_path item, sd_source_revision = iv_source_revision item,
     sd_media_type = ''application/octet-stream'', sd_size_bytes = 0, sd_modified_at = None\<rparr>"

definition complete :: "worker_env \<Rightarrow> job_service \<Rightarrow> item_view \<Rightarrow> string option \<Rightarrow> bool \<Rightarrow> unit task" where
  "complete env sv item proposal_id skipped =
     perform env (\<lambda>now db. complete_item (we_ids env) now db (iv_item_id item) (sv_worker_id sv) proposal_id skipped)"

definition retract_document :: "worker_env \<Rightarrow> job_service \<Rightarrow> item_view \<Rightarrow> job_view \<Rightarrow> unit task" where
  "retract_document env sv item job =
     tbind (adapter_for_job env sv job) (\<lambda>(adapter, root).
     tbind (perform env (\<lambda>now db. start_applying (we_ids env) now db (iv_item_id item) (sv_worker_id sv))) (\<lambda>_.
     tbind (outside env (\<lambda>n. st_retract (sv_store sv) n (jv_source_root_id job) (iv_relative_path item) (iv_source_revision item))) (\<lambda>proposal.
     tbind (complete env sv item (Some proposal) False) (\<lambda>_.
     acknowledge_source env adapter root (descriptor_of item) proposal))))"

definition apply_document ::
  "worker_env \<Rightarrow> job_service \<Rightarrow> item_view \<Rightarrow> source_adapter \<Rightarrow> source_root \<Rightarrow> loaded_source \<Rightarrow> parsed_document \<Rightarrow> unit task" where
  "apply_document env sv item adapter root source document =
     tbind (perform env (\<lambda>now db. start_understanding (we_ids env) now db (iv_item_id item) (sv_worker_id sv))) (\<lambda>_.
     tbind (outside env (\<lambda>n. st_prepare (sv_store sv) n source document)) (\<lambda>prepared.
     tbind (trequire (ps_source_revision prepared = iv_source_revision item) (conflict ''source revision changed; create a new batch'')) (\<lambda>_.
     tbind (ask env (\<lambda>now db. Inr (is_cancel_requested db (iv_item_id item)))) (\<lambda>cancelled.
     tbind (trequire (\<not> cancelled) (conflict ''job cancellation requested'')) (\<lambda>_.
     tbind (perform env (\<lambda>now db. start_applying (we_ids env) now db (iv_item_id item) (sv_worker_id sv))) (\<lambda>_.
     tbind (outside env (\<lambda>n. st_ingest (sv_store sv) n prepared)) (\<lambda>draft.
     tbind (outside env (\<lambda>n. st_apply_policy (sv_store sv) n draft)) (\<lambda>proposal.
     tbind (complete env sv item (Some proposal) False) (\<lambda>_.
     acknowledge_source env adapter root (descriptor_of item) proposal)))))))))"

definition ingest_document :: "worker_env \<Rightarrow> job_service \<Rightarrow> item_view \<Rightarrow> job_view \<Rightarrow> unit task" where
  "ingest_document env sv item job =
     tbind (adapter_for_job env sv job) (\<lambda>(adapter, root).
     tbind (outside env (\<lambda>n. ad_fetch adapter n root (descriptor_of item))) (\<lambda>artifact.
     tbind (perform env (\<lambda>now db. start_parsing (we_ids env) now db (iv_item_id item) (sv_worker_id sv))) (\<lambda>_.
     tbind (outside env (\<lambda>n. st_load_artifact (sv_store sv) n (jv_source_root_id job) artifact)) (\<lambda>source.
     tbind (parse_document env sv (iv_item_id item) (jv_source_root_id job) (parse_request_of source)) (\<lambda>document.
     case document of
       None \<Rightarrow> tret ()
     | Some d \<Rightarrow> apply_document env sv item adapter root source d)))))"

text \<open>The body of the \<open>try\<close> statement of \<open>_process_message\<close>.\<close>

definition work_on :: "worker_env \<Rightarrow> job_service \<Rightarrow> item_view \<Rightarrow> unit task" where
  "work_on env sv item =
     tbind (ask env (\<lambda>now db. Inr (is_cancel_requested db (iv_item_id item)))) (\<lambda>cancelled.
     if cancelled then perform env (\<lambda>now db. cancel_claimed_item (we_ids env) now db (iv_item_id item) (sv_worker_id sv))
     else tbind (transact env (\<lambda>now db. claim_idempotency db (iv_item_id item))) (\<lambda>claim.
       case claim of
         Duplicate proposal_id \<Rightarrow> complete env sv item proposal_id True
       | Busy \<Rightarrow> traise (conflict ''idempotent source revision is busy'')
       | Acquired \<Rightarrow>
           tbind (ask env (\<lambda>now db. get_job db (iv_job_id item))) (\<lambda>job.
           if iv_change_kind item = ''deleted'' then retract_document env sv item job
           else ingest_document env sv item job)))"

definition fail :: "worker_env \<Rightarrow> job_service \<Rightarrow> item_view \<Rightarrow> job_exception \<Rightarrow> unit task" where
  "fail env sv item e =
     perform env (\<lambda>now db. fail_item (we_ids env) now db (iv_item_id item) (sv_worker_id sv) (safe_error e)
       (retry_delay sv (iv_attempts item)) (Some (error_code e)) (is_retryable e))"

definition process_message :: "worker_env \<Rightarrow> job_service \<Rightarrow> queue_message \<Rightarrow> unit task" where
  "process_message env sv message =
     tbind (transact env (\<lambda>now db. claim_item (we_ids env) now db (qm_item_id message) (sv_worker_id sv) (sv_lease sv))) (\<lambda>claimed.
     case claimed of
       None \<Rightarrow> acknowledge env sv message
     | Some item \<Rightarrow>
         tfinally (tcatch (work_on env sv item) (fail env sv item))
           (tbind (outside env (sv_heartbeat sv)) (\<lambda>_. acknowledge env sv message)))"

definition run_once :: "worker_env \<Rightarrow> job_service \<Rightarrow> bool task" where
  "run_once env sv st = (case ws_recovered st of
     message # rest \<Rightarrow> tbind (process_message env sv message) (\<lambda>_. tret True) (st\<lparr>ws_recovered := rest\<rparr>)
   | [] \<Rightarrow>
       tbind (outside env (\<lambda>n. jq_read (sv_queue sv) n (sv_worker_id sv))) (\<lambda>messages.
       case messages of
         [] \<Rightarrow> tret False
       | message # _ \<Rightarrow> tbind (process_message env sv message) (\<lambda>_. tret True)) st)"

text \<open>
  The loop of the worker, one element per iteration: whether the time to reconcile has come. An iteration that
  raises is logged and the loop goes on; only a cancellation leaves it.
\<close>

fun worker_loop :: "worker_env \<Rightarrow> job_service \<Rightarrow> bool list \<Rightarrow> unit task" where
  "worker_loop env sv [] = tret ()"
| "worker_loop env sv (due # iterations) =
     tbind (tcatch (tbind (if due then tbind (reconcile env sv) (\<lambda>_. tret ()) else tret ()) (\<lambda>_. run_once env sv)) (\<lambda>_. tret False)) (\<lambda>_.
     worker_loop env sv iterations)"

end
