(* ===== verification/Knowledge_Ids.thy ===== *)
theory Knowledge_Ids
  imports Knowledge_Guarantees
begin

text \<open>
  Why a failing worker can always give its item back: in every history of the ingestion repository the
  event ids are random ids drawn before, and every plan is for a source with a sync row. When no random id
  is drawn twice so far and the next two are new, \<open>fail_item\<close> of the owner of the lease is never refused.
\<close>

section \<open>Ids are drawn once\<close>

text \<open>
  How the tables grow in an operation: event ids are taken from the random ids drawn in it, a source that
  has a sync row keeps one, and a new plan is for a source with a sync row.
\<close>

definition drawn_id :: "kenv \<Rightarrow> nat \<Rightarrow> string" where
  "drawn_id env n = ''kevt'' @ ''_'' @ take 30 (random_hex env n)"

definition sync_sources :: "kdb \<Rightarrow> string set" where
  "sync_sources db = sy_source_id ` set (kd_syncs db)"

definition plan_sources :: "kdb \<Rightarrow> string set" where
  "plan_sources db = pl_source_id ` set (kd_plans db)"

definition grows :: "kenv \<Rightarrow> kdb \<Rightarrow> kdb \<Rightarrow> bool" where
  "grows env db db' \<longleftrightarrow> kd_drawn db \<le> kd_drawn db' \<and>
     je_id ` set (kd_events db') \<subseteq> je_id ` set (kd_events db) \<union> drawn_id env ` {kd_drawn db..<kd_drawn db'} \<and>
     sync_sources db \<subseteq> sync_sources db' \<and> plan_sources db' \<subseteq> plan_sources db \<union> sync_sources db'"

lemma grows_refl [simp]: "grows env db db"
  by (simp add: grows_def)

lemma grows_trans [trans]: "grows env a b \<Longrightarrow> grows env b c \<Longrightarrow> grows env a c"
  unfolding grows_def by (fastforce simp: subset_iff image_iff)

text \<open>Only the events, the counter and the sources of syncs and plans matter.\<close>

lemma grows_cong:
  assumes "kd_drawn b = kd_drawn a" "kd_events b = kd_events a" "sync_sources b = sync_sources a" "plan_sources b = plan_sources a"
  shows "grows env b c = grows env a c" and "grows env c b = grows env c a"
  using assms by (simp_all add: grows_def)

lemma grows_same:
  "kd_drawn b = kd_drawn a \<Longrightarrow> kd_events b = kd_events a \<Longrightarrow> sync_sources a \<subseteq> sync_sources b \<Longrightarrow> plan_sources b = plan_sources a \<Longrightarrow> grows env a b"
  by (auto simp: grows_def)

lemma drawn_simps [simp]:
  "kd_drawn (upd_item iid f db) = kd_drawn db" "kd_drawn (upd_job jid g db) = kd_drawn db" "kd_drawn (upd_sync sid h db) = kd_drawn db"
  "kd_drawn (upd_plan pid p db) = kd_drawn db" "kd_drawn (set_external_state iid s db) = kd_drawn db"
  "kd_drawn (upd_owned_key item k db) = kd_drawn db" "kd_drawn (mark_plan plan s db) = kd_drawn db"
  by (simp_all add: upd_item_def upd_job_def upd_sync_def upd_plan_def set_external_state_def upd_owned_key_def mark_plan_def)

lemma sync_sources_simps [simp]:
  "sync_sources (upd_item iid f db) = sync_sources db" "sync_sources (upd_job jid g db) = sync_sources db" "sync_sources (upd_plan pid p db) = sync_sources db"
  "sync_sources (set_external_state iid s db) = sync_sources db" "sync_sources (upd_owned_key item k db) = sync_sources db"
  by (simp_all add: sync_sources_def)

lemma plan_sources_simps [simp]:
  "plan_sources (upd_item iid f db) = plan_sources db" "plan_sources (upd_job jid g db) = plan_sources db" "plan_sources (upd_sync sid h db) = plan_sources db"
  "plan_sources (set_external_state iid s db) = plan_sources db" "plan_sources (upd_owned_key item k db) = plan_sources db"
  by (simp_all add: plan_sources_def)

lemma sync_sources_upd_sync [simp]:
  assumes "\<And>s. sy_source_id (h s) = sy_source_id s"
  shows "sync_sources (upd_sync sid h db) = sync_sources db"
  using map_update_where [where k = sy_source_id and f = h] assms unfolding sync_sources_def by (metis list.set_map upd_sync_simps(5))

lemma plan_sources_upd_plan [simp]:
  assumes "\<And>p. pl_source_id (h p) = pl_source_id p"
  shows "plan_sources (upd_plan pid h db) = plan_sources db"
  using map_update_where [where k = pl_source_id and f = h] assms unfolding plan_sources_def by (metis list.set_map upd_plan_simps(5))

lemma mark_plan_grows [simp]: "sync_sources (mark_plan plan s db) = sync_sources db" "plan_sources (mark_plan plan s db) = plan_sources db" "kd_events (mark_plan plan s db) = kd_events db"
  by (simp_all add: mark_plan_def)

lemma append_grows:
  assumes "append_job_event env now db jid k s i d = Inr db'"
  shows "grows env db db'"
proof -
  have "\<exists>e. kd_events db' = kd_events db @ [e] \<and> je_id e = drawn_id env (kd_drawn db) \<and> kd_drawn db' = Suc (kd_drawn db)"
    using assms by (auto simp: append_job_event_def Let_def drawn_id_def random_id_def)
  then obtain e where "kd_events db' = kd_events db @ [e]" "je_id e = drawn_id env (kd_drawn db)" "kd_drawn db' = Suc (kd_drawn db)" by blast
  then show ?thesis using append_frame [OF assms] by (auto simp: grows_def sync_sources_def plan_sources_def)
qed

lemma ensure_sync_grows:
  assumes "ensure_sync db sid = Inr (db', s)"
  shows "grows env db db' \<and> sid \<in> sync_sources db'"
  using assms
  by (auto simp: ensure_sync_def grows_def sync_sources_def plan_sources_def get_sync_def new_sync_def image_iff split: option.splits dest!: fetchone_SomeD)

lemma commits_grow:
  assumes "efold (commit_item env jid) db xs = Inr db'"
  shows "grows e db db'"
proof (rule efold_invariant [OF assms, where P = "grows e db"])
  fix s x s' assume "grows e db s" and c: "commit_item env jid s x = Inr s'"
  moreover have "kd_drawn s' = kd_drawn s" using c by (auto simp: commit_item_def Let_def split: if_splits)
  ultimately show "grows e db s'" using commit_frame [OF c] by (simp add: grows_def sync_sources_def plan_sources_def)
qed simp

lemma advance_source [simp]: "sy_source_id (advance_sync now plan jid s) = sy_source_id s"
  by (simp add: advance_sync_def)

lemma settle_grows: "settle_plan env now db job plan = Inr db' \<Longrightarrow> grows env db db'"
proof (erule settle_cases)
  fix db1 sync
  assume "ensure_sync db (pl_source_id plan) = Inr (db1, sync)"
    and "db' = upd_job (jb_id job) (\<lambda>j. j\<lparr>jb_status := ''completed_with_errors''\<rparr>) (mark_plan plan ''conflict'' db1)"
  then show ?thesis using grows_trans [OF ensure_sync_grows [THEN conjunct1] grows_same] by simp
next
  fix db1 sync db2
  assume "ensure_sync db (pl_source_id plan) = Inr (db1, sync)"
    and "efold (commit_item env (jb_id job)) db1 (finished_items db1 (jb_id job)) = Inr db2"
    and "db' = upd_plan (pl_id plan) (\<lambda>p. p\<lparr>pl_status := ''completed''\<rparr>)
           (upd_sync (pl_source_id plan) (advance_sync now plan (jb_id job)) db2)"
  then show ?thesis
    using grows_trans [OF grows_trans [OF ensure_sync_grows [THEN conjunct1] commits_grow] grows_same] by simp
next
  fix db1 sync status
  assume "ensure_sync db (pl_source_id plan) = Inr (db1, sync)" and "db' = mark_plan plan status db1"
  then show ?thesis using grows_trans [OF ensure_sync_grows [THEN conjunct1] grows_same] by simp
qed

lemma finalize_grows: "finalize_sync_plan env now db job = Inr db' \<Longrightarrow> grows env db db'"
  by (drule finalize_cases) (auto intro: settle_grows)

lemma refresh_grows:
  assumes "refresh_job env now db jid = Inr db'"
  shows "grows env db db'"
  using assms
proof (rule refresh_cases)
  fix job db1 db2
  assume db1: "db1 = upd_job jid (\<lambda>j. settle_status now (recount db j)) db"
    and db2: "db2 = db1 \<or> append_job_event env now db1 jid ''job'' (jb_status (settle_status now (recount db job))) None
       [(''processed_items'', PInt (jb_processed_items (settle_status now (recount db job)))),
        (''total_items'', PInt (jb_total_items (settle_status now (recount db job))))] = Inr db2"
    and fin: "db' = db2 \<or> jb_status (settle_status now (recount db job)) \<in> set TERMINAL_JOB_STATUSES \<and>
       finalize_sync_plan env now db2 (settle_status now (recount db job)) = Inr db'"
  have "grows env db db1" by (simp add: db1 grows_same)
  also have "grows env db1 db2" using db2 append_grows by auto
  also have "grows env db2 db'" using fin finalize_grows by auto
  finally show ?thesis .
qed


lemma move_grows:
  assumes "append_job_event env now db1 jid k s i d = Inr db2" and "refresh_job env now db2 jid' = Inr db'"
    and "kd_drawn db1 = kd_drawn db" "kd_events db1 = kd_events db" "sync_sources db1 = sync_sources db" "plan_sources db1 = plan_sources db"
  shows "grows env db db'"
  using grows_trans [OF append_grows [OF assms(1)] refresh_grows [OF assms(2)]] grows_cong(1) [OF assms(3-6)] by simp

lemma settle_ops_grow:
  "complete_item env now db iid w p sk = Inr db' \<Longrightarrow> grows env db db'"
  "fail_item env now db iid w e d c r = Inr db' \<Longrightarrow> grows env db db'"
  "cancel_claimed_item env now db iid w = Inr db' \<Longrightarrow> grows env db db'"
  by (auto simp: complete_item_def fail_item_def cancel_claimed_item_def Let_def elim!: move_grows split: if_splits)

lemma retry_grows: "retry_item env now db jid iid = Inr db' \<Longrightarrow> grows env db db'"
  by (auto simp: retry_item_def Let_def elim!: move_grows simp: sync_sources_def plan_sources_def)

lemma defer_grows: "defer_external_parse env now db iid w a v t s d = Inr db' \<Longrightarrow> grows env db db'"
proof -
  assume "defer_external_parse env now db iid w a v t s d = Inr db'"
  then obtain db1 db2 jid x where t: "store_ticket now db iid a v t s = Inr db1"
    and m: "append_job_event env now (upd_item iid (deferred_row (now + d)) db1) jid ''item'' ''external_wait'' (Some iid) x = Inr db2"
      "refresh_job env now db2 jid = Inr db'"
    by (auto simp: defer_external_parse_def)
  have "kd_drawn db1 = kd_drawn db"
    using t by (auto simp: store_ticket_def Let_def split: option.splits if_splits)
  then show ?thesis using m store_ticket_frame [OF t] by (elim move_grows) (simp_all add: sync_sources_def plan_sources_def)
qed

lemma recover_grows:
  assumes "recover_expired_leases env now db = Inr (db', rec)"
  shows "grows env db db'"
proof -
  have "grows env db (fst (db', rec))"
  proof (rule efold_invariant [OF assms [unfolded recover_expired_leases_def]])
    fix s x s' assume s: "grows env db (fst s)" and "recover_one env now s x = Inr s'"
    then have "grows env (fst s) (fst s')"
      by (auto simp: recover_one_def Let_def elim!: move_grows split: if_splits prod.splits)
    then show "grows env db (fst s')" using s grows_trans by blast
  qed simp
  then show ?thesis by simp
qed

lemma cancel_job_grows:
  assumes "cancel_job env now db jid = Inr (db', v)"
  shows "grows env db db'"
proof -
  let ?db1 = "upd_job jid (\<lambda>j. j\<lparr>jb_cancel_requested := True, jb_status := ''cancelling''\<rparr>) db"
  obtain xs db2 db3 where f: "efold (cancel_one env now jid) ?db1 xs = Inr db2"
    and a: "append_job_event env now db2 jid ''job'' ''cancelling'' None [] = Inr db3" "refresh_job env now db3 jid = Inr db'"
    using assms by (auto simp: cancel_job_def Let_def)
  have "grows env ?db1 db2"
  proof (rule efold_invariant [OF f])
    fix s x s' assume s: "grows env ?db1 s" and "cancel_one env now jid s x = Inr s'"
    then have "grows env s s'"
      by (auto simp: cancel_one_def grows_cong(1) [of "set_external_state _ _ _" s] dest!: append_grows)
    then show "grows env ?db1 s'" using s grows_trans by blast
  qed simp
  also have "grows env db2 db'" by (rule move_grows [OF a]) simp_all
  finally show ?thesis using grows_cong(1) [of ?db1 db] by simp
qed

lemma small_ops_grow:
  "mark_external_parse_terminal env now db iid w st c = Inr db' \<Longrightarrow> grows env db db'"
  "record_parser_progress env now db iid w a v sg cu tu r = Inr db' \<Longrightarrow> grows env db db'"
  "start_stage sg env now db iid w = Inr db' \<Longrightarrow> grows env db db'"
  "grows env db (fst (heartbeat now db iid w l))"
  "claim_item env now db iid w l = Inr (db', x) \<Longrightarrow> grows env db db'"
  "claim_idempotency db iid = Inr (db', c') \<Longrightarrow> grows env db db'"
  by (auto simp: mark_external_parse_terminal_def record_parser_progress_def start_stage_def heartbeat_def claim_item_def Let_def
      grows_cong(1) [of "set_external_state _ _ _" db] grows_cong(1) [of "upd_item _ _ _" db] grows_cong(1) [of "upd_job _ _ (upd_item _ _ _)" db]
      split: option.splits if_splits dest!: append_grows elim!: claim_idempotency_shape)
    (auto intro!: grows_same simp: sync_sources_def plan_sources_def)


lemma source_ops_grow:
  "ensure_workspace env' db a b c d e f g = Inr (db', x) \<Longrightarrow> grows env db db'"
  "begin_source_scan now db sid ad v = Inr (db', x') \<Longrightarrow> grows env db db'"
  "record_source_scan_page db sid ad v cu = Inr db' \<Longrightarrow> grows env db db'"
  "record_source_scan_failure db sid ad v = Inr db' \<Longrightarrow> grows env db db'"
proof -
  show "ensure_workspace env' db a b c d e f g = Inr (db', x) \<Longrightarrow> grows env db db'"
    unfolding ensure_workspace_def Let_def
    by (auto split: option.splits intro!: grows_same) (auto simp: sync_sources_def plan_sources_def image_iff)
qed (auto simp: begin_source_scan_def record_source_scan_page_def record_source_scan_failure_def Let_def
    split: option.splits intro!: grows_same)

lemma create_plan_grows:
  assumes "create_sync_plan env now db sc sid a v bc tc bw h cs = Inr (db', x)"
  shows "grows env db db'"
  using assms
proof (rule create_sync_plan_shape)
  fix db1 sync and existing :: plan_row
  assume "ensure_sync db sid = Inr (db1, sync)"
    and "db' = upd_sync sid (\<lambda>s. s\<lparr>sy_resume_cursor := None, sy_scan_status := pl_status existing\<rparr>) db1"
  then show ?thesis using grows_trans [OF ensure_sync_grows [THEN conjunct1] grows_same] by simp
next
  fix db1 sync plan
  assume e: "ensure_sync db sid = Inr (db1, sync)" and "pl_source_id plan = sid"
    and db': "db' = upd_sync sid (\<lambda>s. s\<lparr>sy_resume_cursor := None, sy_scan_status := ''planned''\<rparr>) (db1\<lparr>kd_plans := kd_plans db1 @ [plan]\<rparr>)"
  have "kd_drawn db' = kd_drawn db1 \<and> kd_events db' = kd_events db1 \<and> sync_sources db' = sync_sources db1 \<and>
      plan_sources db' = insert sid (plan_sources db1)"
    using \<open>pl_source_id plan = sid\<close> by (simp add: db') (simp add: sync_sources_def plan_sources_def)
  then have "grows env db1 db'" using ensure_sync_grows [OF e] by (auto simp: grows_def)
  then show ?thesis using ensure_sync_grows [OF e] grows_trans by blast
qed

lemma insert_items_grow:
  assumes "efold (insert_item env now jid sid m) db files = Inr db'"
  shows "grows env db db'"
proof (rule efold_invariant [OF assms])
  fix s x s' assume s: "grows env db s" and "insert_item env now jid sid m s x = Inr s'"
  then have "grows env s s'" by (auto simp: insert_item_def Let_def grows_def sync_sources_def plan_sources_def)
  then show "grows env db s'" using s grows_trans by blast
qed simp

lemma insert_job_grows:
  assumes "insert_job env now db jid ws sid pid dir ver files m = Inr db'"
  shows "grows env db db'"
proof -
  let ?db0 = "db\<lparr>kd_jobs := kd_jobs db @ [new_job jid now ws sid pid dir ver (int (length files))]\<rparr>"
  obtain db1 db2 where f: "efold (insert_item env now jid sid m) ?db0 files = Inr db1"
    and a: "append_job_event env now db1 jid ''job'' ''queued'' None [(''total_items'', PInt (int (length files)))] = Inr db2"
    and r: "(if files = [] then refresh_job env now db2 jid else Inr db2) = Inr db'"
    using assms unfolding insert_job_def by auto
  have "grows env db ?db0" by (rule grows_same) (simp_all add: sync_sources_def plan_sources_def)
  also have "grows env ?db0 db1" by (rule insert_items_grow [OF f])
  also have "grows env db1 db2" by (rule append_grows [OF a])
  also have "grows env db2 db'" using r by (auto split: if_splits dest: refresh_grows)
  finally show ?thesis .
qed

lemma create_job_grows:
  assumes "create_job env now db ws sid dir ver files m pid = Inr (db', v)"
  shows "grows env db db'"
proof -
  let ?db0 = "db\<lparr>kd_drawn := Suc (kd_drawn db)\<rparr>"
  have start: "grows env db ?db0" by (auto simp: grows_def sync_sources_def plan_sources_def)
  have plan: "grows env d d'" if "start_plan d p = Inr (Inr d')" for d p d'
  proof -
    from that obtain plan d1 sync where e: "ensure_sync d (pl_source_id plan) = Inr (d1, sync)" and d': "d' = mark_plan plan ''running'' d1"
      by (auto simp: start_plan_def split: option.splits)
    have "grows env d1 d'" by (rule grows_same) (simp_all add: d')
    then show ?thesis using ensure_sync_grows [OF e] grows_trans by blast
  qed
  obtain r where r: "(case pid of None \<Rightarrow> Inr (Inr ?db0) | Some p \<Rightarrow> start_plan ?db0 p) = Inr r"
    using assms unfolding create_job_def Let_def by auto
  show ?thesis
  proof (cases r)
    case (Inl existing)
    then show ?thesis using assms r start by (auto simp: create_job_def Let_def)
  next
    case (Inr db1)
    then have "grows env ?db0 db1" using r plan by (auto split: option.splits)
    moreover have "grows env db1 db'"
      using assms r Inr insert_job_grows by (auto simp: create_job_def Let_def)
    ultimately show ?thesis using start grows_trans by blast
  qed
qed

lemma kexec_grows: "kexec env now db op = Inr db' \<Longrightarrow> grows env db db'"
  by (cases op) (auto intro: settle_ops_grow retry_grows defer_grows recover_grows cancel_job_grows small_ops_grow source_ops_grow
      create_plan_grows create_job_grows simp: start_parsing_def start_applying_def start_understanding_def)

lemma grows_ids:
  assumes g: "grows env db db'" and old: "je_id ` set (kd_events db) \<subseteq> drawn_id env ` {..<kd_drawn db}"
  shows "je_id ` set (kd_events db') \<subseteq> drawn_id env ` {..<kd_drawn db'}"
proof -
  have le: "kd_drawn db \<le> kd_drawn db'"
    and new: "je_id ` set (kd_events db') \<subseteq> je_id ` set (kd_events db) \<union> drawn_id env ` {kd_drawn db..<kd_drawn db'}"
    using g by (simp_all add: grows_def)
  have sub: "drawn_id env ` {..<kd_drawn db} \<subseteq> drawn_id env ` {..<kd_drawn db'}"
    "drawn_id env ` {kd_drawn db..<kd_drawn db'} \<subseteq> drawn_id env ` {..<kd_drawn db'}"
    by (rule image_mono, use le in \<open>simp add: subset_iff\<close>)+
  then show ?thesis by (intro subset_trans [OF new] Un_least subset_trans [OF old sub(1)] sub(2))
qed

text \<open>What every history of the repository guarantees to a worker that has to give an item back.\<close>

definition worker_db :: "kenv \<Rightarrow> kdb \<Rightarrow> bool" where
  "worker_db env db \<longleftrightarrow> kwf db \<and> je_id ` set (kd_events db) \<subseteq> drawn_id env ` {..<kd_drawn db} \<and> plan_sources db \<subseteq> sync_sources db"

lemma kexec_worker_db:
  assumes "worker_db env db" and "kexec env now db op = Inr db'"
  shows "worker_db env db'"
proof -
  have g: "sync_sources db \<subseteq> sync_sources db'" "plan_sources db' \<subseteq> plan_sources db \<union> sync_sources db'"
    using kexec_grows [OF assms(2)] by (simp_all add: grows_def)
  have old: "kwf db" "je_id ` set (kd_events db) \<subseteq> drawn_id env ` {..<kd_drawn db}" "plan_sources db \<subseteq> sync_sources db"
    using assms(1) by (simp_all add: worker_db_def)
  have "je_id ` set (kd_events db') \<subseteq> drawn_id env ` {..<kd_drawn db'}"
    using grows_ids [OF kexec_grows [OF assms(2)] old(2)] .
  moreover have "plan_sources db' \<subseteq> sync_sources db'" using g old(3) by blast
  ultimately show ?thesis using kexec_wf [OF old(1) assms(2)] by (simp add: worker_db_def)
qed

lemma reachable_worker_db: "rtranclp (kstep env) empty_kdb db \<Longrightarrow> worker_db env db"
proof (induction rule: rtranclp_induct)
  case base
  then show ?case using empty_kwf by (simp add: worker_db_def empty_kdb_def plan_sources_def)
qed (auto elim!: kstepE intro: kexec_worker_db)

section \<open>Failing an item is never refused\<close>

text \<open>The ids drawn so far and the next \<open>k\<close> are all different.\<close>

definition ids_fresh :: "kenv \<Rightarrow> nat \<Rightarrow> kdb \<Rightarrow> bool" where
  "ids_fresh env k db \<longleftrightarrow> inj_on (drawn_id env) {..<kd_drawn db + k} \<and> je_id ` set (kd_events db) \<subseteq> drawn_id env ` {..<kd_drawn db}"

lemma append_ids_fresh:
  assumes "ids_fresh env (Suc k) db" and "append_job_event env now db jid kd s i d = Inr db'"
  shows "ids_fresh env k db'"
proof -
  have "kd_drawn db' = Suc (kd_drawn db)" using assms(2) by (auto simp: append_job_event_def Let_def)
  then show ?thesis using assms(1) grows_ids [OF append_grows [OF assms(2)]] by (simp add: ids_fresh_def)
qed

lemma ids_fresh_one: "ids_fresh env (Suc k) db \<Longrightarrow> ids_fresh env 1 db"
  by (auto simp: ids_fresh_def intro: inj_on_subset)

lemma append_total:
  assumes wf: "events_wf db" and fresh: "ids_fresh env 1 db" and job: "find_job db jid = Some job"
  shows "\<exists>db'. append_job_event env now db jid k s i d = Inr db'"
proof -
  note j = find_jobD [OF job]
  have seq: "map je_sequence (job_events db jid) = [1..jb_event_sequence job]" using wf j by (auto simp: events_wf_def)
  have "\<not> (je_id e = drawn_id env (kd_drawn db) \<or> je_job_id e = jid \<and> je_sequence e = jb_event_sequence job + 1)"
    if "e \<in> set (kd_events db)" for e
  proof -
    have "je_id e \<in> drawn_id env ` {..<kd_drawn db}" using fresh that by (auto simp: ids_fresh_def)
    then have "je_id e \<noteq> drawn_id env (kd_drawn db)" using fresh by (fastforce simp: ids_fresh_def dest: inj_onD)
    moreover have "je_sequence e \<le> jb_event_sequence job" if "je_job_id e = jid"
    proof -
      have "je_sequence e \<in> set (map je_sequence (job_events db jid))"
        using that \<open>e \<in> set (kd_events db)\<close> by (auto simp: job_events_def)
      then show ?thesis unfolding seq by simp
    qed
    ultimately show ?thesis by auto
  qed
  then have "\<not> list_ex (\<lambda>e. je_id e = random_id env ''kevt'' db \<or> je_job_id e = jid \<and> je_sequence e = jb_event_sequence job + 1) (kd_events db)"
    by (auto simp: list_ex_iff drawn_id_def random_id_def)
  then show ?thesis using job by (auto simp: append_job_event_def Let_def found_def require_def)
qed

lemma settle_open_total:
  assumes "jb_status job \<noteq> ''completed''" and "plan_sources db \<subseteq> sync_sources db"
  shows "\<exists>db'. finalize_sync_plan env now db job = Inr db'"
proof (cases "get_plan db (the (jb_sync_plan_id job))")
  case (Some plan)
  then have "pl_source_id plan \<in> sync_sources db"
    using assms(2) by (auto simp: get_plan_def plan_sources_def dest: fetchone_SomeD)
  then have "get_sync db (pl_source_id plan) \<noteq> None"
    by (auto simp: get_sync_def sync_sources_def fetchone_def find_None_iff)
  then have "ensure_sync db (pl_source_id plan) = Inr (db, the (get_sync db (pl_source_id plan)))"
    by (auto simp: ensure_sync_def)
  then show ?thesis using Some assms(1) by (auto simp: finalize_sync_plan_def settle_plan_def)
qed (simp add: finalize_sync_plan_def)

lemma job_ids_upd:
  assumes "\<And>j. jb_id (g j) = jb_id j"
  shows "jb_id ` set (kd_jobs (upd_job jid g db)) = jb_id ` set (kd_jobs db)"
  using map_update_where [where k = jb_id and f = g] assms by (metis list.set_map upd_job_simps(1))

lemma find_job_None: "find_job db x = None \<longleftrightarrow> x \<notin> jb_id ` set (kd_jobs db)"
  by (auto simp: find_job_def)

lemma refresh_total:
  assumes wf: "events_wf db" and fresh: "ids_fresh env 1 db" and job: "find_job db jid = Some job"
    and "plan_sources db \<subseteq> sync_sources db" and "jb_status (settle_status now (recount db job)) \<noteq> ''completed''"
  shows "\<exists>db'. refresh_job env now db jid = Inr db'"
proof -
  let ?job = "settle_status now (recount db job)"
  let ?db = "upd_job jid (\<lambda>j. settle_status now (recount db j)) db"
  have ids: "jb_id ` set (kd_jobs ?db) = jb_id ` set (kd_jobs db)" by (rule job_ids_upd) simp
  have "events_wf ?db" using wf ids by (auto simp: events_wf_def job_events_def map_update_where)
  moreover have "ids_fresh env 1 ?db" using fresh by (simp add: ids_fresh_def)
  moreover have "find_job ?db jid \<noteq> None" using job ids find_job_None by (metis option.distinct(1))
  ultimately obtain d where d: "append_job_event env now ?db jid ''job'' (jb_status ?job) None
      [(''processed_items'', PInt (jb_processed_items ?job)), (''total_items'', PInt (jb_total_items ?job))] = Inr d"
    using append_total [of ?db env jid] by blast
  let ?db2 = "if jb_status ?job \<noteq> jb_status job then d else ?db"
  have "plan_sources ?db2 \<subseteq> sync_sources ?db2" using assms(4) append_frame [OF d] by (simp add: plan_sources_def sync_sources_def)
  then obtain d' where "finalize_sync_plan env now ?db2 ?job = Inr d'" using settle_open_total [OF assms(5)] by blast
  then show ?thesis using job d by (auto simp: refresh_job_def Let_def)
qed

text \<open>The owner of the lease of an item can fail it, in any state a history of operations leads to.\<close>

lemma fail_item_total:
  assumes db: "worker_db env db" and inj: "inj_on (drawn_id env) {..<kd_drawn db + 2}" and l: "leased_item db iid w = Inr (item, job)"
  shows "\<exists>db'. fail_item env now db iid w e d c r = Inr db'"
proof -
  note m = leased_itemD [OF l]
  let ?s = "failure_status job item r"
  let ?f = "fail_row ?s e (if ?s = ''retry_wait'' then Some (now + d) else None)"
  let ?db2 = "if ?s = ''retry_wait'' then upd_item iid ?f db else upd_owned_key item (\<lambda>k. k\<lparr>ik_status := ''failed''\<rparr>)
    (set_external_state iid (if ?s = ''cancelled'' then ''cancelled'' else ''failed'') (upd_item iid ?f db))"
  have wf: "kwf db" using db by (simp add: worker_db_def)
  have items: "kd_items ?db2 = update_where (\<lambda>r. it_id r = iid) ?f (kd_items db)" and jobs: "kd_jobs ?db2 = kd_jobs db"
    and events: "kd_events ?db2 = kd_events db" and drawn: "kd_drawn ?db2 = kd_drawn db"
    and srcs: "plan_sources ?db2 = plan_sources db" "sync_sources ?db2 = sync_sources db" by simp_all
  have job: "find_job db (jb_id job) = Some job"
    unfolding find_job_def by (rule fetchone_unique) (use m unique_job [OF wf] in auto)
  then have job2: "find_job ?db2 (jb_id job) = Some job" by (simp add: find_job_def)
  have ewf: "events_wf ?db2" using wf by (simp add: kwf_def events_wf_def job_events_def)
  have fresh: "ids_fresh env (Suc 1) ?db2" using db inj by (simp add: ids_fresh_def worker_db_def numeral_2_eq_2)
  obtain db3 where app: "append_job_event env now ?db2 (jb_id job) ''item'' ?s (Some iid)
       (path_detail item @ [(''attempt'', PInt (it_attempts item)), (''error'', PStr (take 4000 e)),
         (''error_code'', opt_str c), (''retryable'', PBool r)]) = Inr db3"
    using append_total [OF ewf ids_fresh_one [OF fresh] job2] by blast
  note fr = append_frame [OF app]
  obtain n where jobs3: "kd_jobs db3 = update_where (\<lambda>j. jb_id j = jb_id job) (\<lambda>j. j\<lparr>jb_event_sequence := n\<rparr>) (kd_jobs db)"
    using append_shape [OF app] jobs by metis
  then have "job\<lparr>jb_event_sequence := n\<rparr> \<in> set (kd_jobs db3)" using m by force
  moreover have ids3: "map jb_id (kd_jobs db3) = map jb_id (kd_jobs db)" unfolding jobs3 by (rule map_update_where) simp
  ultimately have job3: "find_job db3 (jb_id job) = Some (job\<lparr>jb_event_sequence := n\<rparr>)"
    unfolding find_job_def using wf
    by (intro fetchone_unique) (auto simp: kwf_def events_wf_def intro: map_key_inj [of jb_id "kd_jobs db3"])
  have "jb_status (settle_status now (recount db3 (job\<lparr>jb_event_sequence := n\<rparr>))) \<noteq> ''completed''"
  proof (cases "jb_cancel_requested job \<or> ?s = ''dead_letter''")
    case True
    have "?f item \<in> set (kd_items db3)" using fr items m by force
    then have "status_count db3 (jb_id job) ''dead_letter'' \<noteq> 0" if "?s = ''dead_letter''"
      using that m by (auto simp: status_count_def rowcount_def fail_row_def filter_empty_conv intro!: bexI [of _ "?f item"])
    then show ?thesis using True by (auto simp: settle_status_def recount_def)
  next
    case False
    then have retry: "?s = ''retry_wait''" by (auto simp: failure_status_def split: if_splits)
    have "?f item \<in> set (kd_items db3)" using fr items m by force
    moreover have "total_ok db3 (job\<lparr>jb_event_sequence := n\<rparr>)"
    proof -
      have "rowcount (\<lambda>i. it_job_id i = jb_id job) (kd_items db3) = rowcount (\<lambda>i. it_job_id i = jb_id job) (kd_items db)"
        using fr items by (simp add: rowcount_update fail_row_def)
      then show ?thesis using wf m by (auto simp: kwf_def job_ok_def total_ok_def)
    qed
    ultimately have "jb_processed_items (settle_status now (recount db3 (job\<lparr>jb_event_sequence := n\<rparr>))) \<noteq>
        jb_total_items (settle_status now (recount db3 (job\<lparr>jb_event_sequence := n\<rparr>)))"
      using open_item_open_job(2) [OF settled_ok, of db3 "job\<lparr>jb_event_sequence := n\<rparr>" "?f item" now] retry m
      by (simp add: fail_row_def status_sets)
    then show ?thesis by (simp add: settle_status_def split: if_splits)
  qed
  then have "\<exists>db'. refresh_job env now db3 (jb_id job) = Inr db'"
    using append_events_wf [OF ewf app] append_ids_fresh [OF fresh app] job3 fr db srcs
    by (intro refresh_total) (auto simp: worker_db_def plan_sources_def sync_sources_def)
  then show ?thesis using l app by (auto simp: fail_item_def Let_def)
qed

end
