(* ===== verification/Attempt_Budget.thy ===== *)
theory Attempt_Budget
  imports Knowledge_Guarantees
begin

text \<open>
  How many attempts an item has left, and what each operation of the repository does to that number. A claim
  uses one up; only \<open>recover_expired_leases\<close> and \<open>retry_item\<close> can give some back, the first one at most, the
  second all of them.
\<close>

definition budget :: "item_row \<Rightarrow> nat" where
  "budget i = (if it_status i \<in> set TERMINAL_ITEM_STATUSES then 0
     else if it_status i \<in> set LEASED_STATUSES \<or> it_status i = ''external_wait'' then nat (it_max_attempts i - it_attempts i)
     else max 1 (nat (it_max_attempts i - it_attempts i)))"

text \<open>What an operation can add to the attempts of the item \<open>iid\<close>, whose maximum is \<open>mx\<close>.\<close>

fun renewal :: "string \<Rightarrow> int \<Rightarrow> kop \<Rightarrow> nat" where
  "renewal iid mx KRecover = 1"
| "renewal iid mx (KRetry jid i) = (if i = iid then max 1 (nat mx) else 0)"
| "renewal iid mx _ = 0"

text \<open>The item is still there, with at most \<open>n\<close> attempts left.\<close>

definition left_with :: "nat \<Rightarrow> item_row \<Rightarrow> kdb \<Rightarrow> bool" where
  "left_with n i db \<longleftrightarrow> (\<exists>i' \<in> set (kd_items db). it_id i' = it_id i \<and> it_max_attempts i' = it_max_attempts i \<and> budget i' \<le> n)"

lemma left_with_same: "i \<in> set (kd_items db) \<Longrightarrow> kd_items db' = kd_items db \<Longrightarrow> left_with (budget i + n) i db'"
  by (auto simp: left_with_def)

lemma left_with_mono: "left_with n i db \<Longrightarrow> n \<le> n' \<Longrightarrow> left_with n' i db"
  by (force simp: left_with_def)

lemma left_with_update:
  assumes "i \<in> set (kd_items db)" and "kd_items db' = update_where (\<lambda>r. it_id r = x) f (kd_items db)"
    and "it_id i = x \<Longrightarrow> it_id (f i) = it_id i \<and> it_max_attempts (f i) = it_max_attempts i \<and> budget (f i) \<le> budget i + n"
  shows "left_with (budget i + n) i db'"
proof -
  have "(if it_id i = x then f i else i) \<in> set (kd_items db')" using assms(1,2) by auto
  then show ?thesis unfolding left_with_def by (rule bexI [rotated]) (use assms(3) in auto)
qed

lemma item_update_left:
  assumes wf: "kwf db" and i: "i \<in> set (kd_items db)" and up: "item_update env now db item f db'"
    and "it_id i = it_id item \<Longrightarrow> it_max_attempts (f item) = it_max_attempts item \<and> budget (f item) \<le> budget item + n"
  shows "left_with (budget i + n) i db'"
proof (rule left_with_update [OF i item_update_items [OF up]])
  assume same: "it_id i = it_id item"
  moreover have "item \<in> set (kd_items db)" "it_id (f item) = it_id item" using up by (auto simp: item_update_def)
  ultimately show "it_id (f i) = it_id i \<and> it_max_attempts (f i) = it_max_attempts i \<and> budget (f i) \<le> budget i + n"
    using unique_item [OF wf i] assms(4) by blast
qed

lemma leased_left:
  assumes wf: "kwf db" and i: "i \<in> set (kd_items db)" and up: "item_update env now db item f db'"
    and l: "leased_item db iid w = Inr (item, job)"
    and "it_status item \<in> set LEASED_STATUSES \<Longrightarrow> it_max_attempts (f item) = it_max_attempts item \<and> budget (f item) \<le> budget item"
  shows "left_with (budget i) i db'"
  using item_update_left [OF wf i up, of 0] assms(5) leased_itemD [OF l] by simp

lemma leased_budget: "it_status i \<in> set LEASED_STATUSES \<Longrightarrow> budget i = nat (it_max_attempts i - it_attempts i)"
  by (auto simp: budget_def status_sets)

lemma closed_budget: "it_status i \<in> set TERMINAL_ITEM_STATUSES \<Longrightarrow> budget i = 0"
  by (simp add: budget_def)

lemma settle_ops_left:
  assumes wf: "kwf db" and i: "i \<in> set (kd_items db)"
  shows "defer_external_parse env now db iid w a v t s d = Inr db' \<Longrightarrow> left_with (budget i) i db'"
    and "complete_item env now db iid w p b = Inr db' \<Longrightarrow> left_with (budget i) i db'"
    and "fail_item env now db iid w e d c r = Inr db' \<Longrightarrow> left_with (budget i) i db'"
    and "cancel_claimed_item env now db iid w = Inr db' \<Longrightarrow> left_with (budget i) i db'"
proof -
  show "defer_external_parse env now db iid w a v t s d = Inr db' \<Longrightarrow> left_with (budget i) i db'"
    by (erule defer_update) (erule (1) leased_left [OF wf i], auto simp: leased_budget, auto simp: budget_def row_defs status_sets)
  show "complete_item env now db iid w p b = Inr db' \<Longrightarrow> left_with (budget i) i db'"
    by (erule complete_update) (erule (1) leased_left [OF wf i], auto simp: budget_def row_defs status_sets)
  show "cancel_claimed_item env now db iid w = Inr db' \<Longrightarrow> left_with (budget i) i db'"
    by (erule cancel_claimed_update) (erule (1) leased_left [OF wf i], auto simp: budget_def row_defs status_sets)
  show "fail_item env now db iid w e d c r = Inr db' \<Longrightarrow> left_with (budget i) i db'"
    by (erule fail_update) (erule (1) leased_left [OF wf i], auto simp: leased_budget, auto simp: budget_def row_defs status_sets failure_status_def split: if_splits)
qed

lemma stage_left:
  assumes wf: "kwf db" and i: "i \<in> set (kd_items db)" and "stage \<in> set LEASED_STATUSES"
    and op: "start_stage stage env now db iid w = Inr db'"
  shows "left_with (budget i) i db'"
  using wf assms(3) op
proof (rule start_stage_shape)
  fix item job
  assume l: "leased_item db iid w = Inr (item, job)"
    and items: "kd_items db' = update_where (\<lambda>r. it_id r = iid) (\<lambda>i. i\<lparr>it_status := stage\<rparr>) (kd_items db)"
  have "left_with (budget i + 0) i db'"
  proof (rule left_with_update [OF i items])
    assume "it_id i = iid"
    then have "i = item" using unique_item [OF wf i] leased_itemD [OF l] by simp
    then show "it_id (i\<lparr>it_status := stage\<rparr>) = it_id i \<and> it_max_attempts (i\<lparr>it_status := stage\<rparr>) = it_max_attempts i \<and>
        budget (i\<lparr>it_status := stage\<rparr>) \<le> budget i + 0"
      using leased_itemD [OF l] assms(3) by (simp add: leased_budget)
  qed
  then show ?thesis by simp
qed

lemma cancel_job_left:
  assumes wf: "kwf db" and i: "i \<in> set (kd_items db)" and op: "cancel_job env now db jid = Inr (db', v)"
  shows "left_with (budget i) i db'"
proof -
  have "kd_items db' = map (\<lambda>i. if it_job_id i = jid \<and> it_status i \<in> set READY_STATUSES then cancelled_row i else i) (kd_items db)"
    using cancel_job_shape [OF wf op] by simp
  then have "(if it_job_id i = jid \<and> it_status i \<in> set READY_STATUSES then cancelled_row i else i) \<in> set (kd_items db')"
    using i by auto
  then show ?thesis
    unfolding left_with_def by (rule bexI [rotated]) (simp add: row_defs closed_budget status_sets)
qed

lemma heartbeat_left:
  assumes wf: "kwf db" and i: "i \<in> set (kd_items db)"
  shows "left_with (budget i) i (fst (heartbeat now db iid w l))"
  using heartbeat_shape(3) [OF wf, of now iid w l] left_with_same [OF i, of _ 0] left_with_update [OF i, of _ iid _ 0]
  by (auto simp: budget_def)

text \<open>The claim that counts.\<close>

lemma claim_left:
  assumes wf: "kwf db" and i: "i \<in> set (kd_items db)" and op: "claim_item env now db iid w l = Inr (db', v)"
    and m: "m = (if it_id i = iid \<and> v \<noteq> None \<and> it_status i \<noteq> ''external_wait'' then 1 else 0)"
  shows "\<exists>n. n + m \<le> budget i \<and> left_with n i db'"
  using wf op
proof (rule claim_shape)
  assume "db' = db" "v = None"
  then show ?thesis using left_with_same [OF i, of db 0] m by auto
next
  fix item
  assume f: "find_item db iid = Some item" "ready_at now item"
    and items: "kd_items db' = update_where (\<lambda>r. it_id r = iid) (claim_row now w l) (kd_items db)"
  let ?i = "if it_id i = iid then claim_row now w l i else i"
  have mem: "?i \<in> set (kd_items db')" using i items by auto
  have b: "budget ?i + m \<le> budget i"
  proof (cases "it_id i = iid")
    case True
    then have "i = item" using unique_item [OF wf i] find_itemD [OF f(1)] by simp
    then have "it_status i \<in> set READY_STATUSES" using f(2) by (simp add: ready_at_def)
    then show ?thesis using True m by (auto simp: budget_def row_defs status_sets)
  qed (use m in simp)
  have "left_with (budget ?i) i db'"
    unfolding left_with_def using mem by (rule bexI [rotated]) (simp add: row_defs)
  then show ?thesis using b by blast
qed

text \<open>The recovery gives one attempt back to an item that had used up all of them.\<close>

lemma recover_one_left:
  assumes wf: "kwf db" and i: "i \<in> set (kd_items db)" and "recover_one env now (db, rec) iid = Inr (db', rec')"
  shows "left_with (max 1 (budget i)) i db'"
  using assms(3)
proof (rule recover_one_update)
  assume "db' = db"
  then show ?thesis using left_with_mono [OF left_with_same [OF i, of db' 0]] by simp
next
  fix item job
  assume up: "item_update env now db item (recovered_row now (jb_cancel_requested job)) db'" and e: "lease_expired now item"
  have "budget (recovered_row now (jb_cancel_requested job) item) \<le> max 1 (budget item)"
    using e by (auto simp: lease_expired_def leased_budget) (auto simp: budget_def row_defs status_sets)
  then have "left_with (budget i + (max 1 (budget i) - budget i)) i db'"
  proof (intro item_update_left [OF wf i up])
    assume "it_id i = it_id item" and b: "budget (recovered_row now (jb_cancel_requested job) item) \<le> max 1 (budget item)"
    then have "i = item" using unique_item [OF wf i] up by (simp add: item_update_def)
    then show "it_max_attempts (recovered_row now (jb_cancel_requested job) item) = it_max_attempts item \<and>
        budget (recovered_row now (jb_cancel_requested job) item) \<le> budget item + (max 1 (budget i) - budget i)"
      using b by (simp add: row_defs)
  qed
  then show ?thesis by simp
qed

lemma recover_left:
  assumes wf: "kwf db" and i: "i \<in> set (kd_items db)" and r: "recover_expired_leases env now db = Inr (db', rec)"
  shows "left_with (max 1 (budget i)) i db'"
proof -
  have "kwf (fst (db', rec)) \<and> left_with (max 1 (budget i)) i (fst (db', rec))"
  proof (rule efold_invariant [OF r [unfolded recover_expired_leases_def]])
    show "kwf (fst (db, [] :: string list)) \<and> left_with (max 1 (budget i)) i (fst (db, [] :: string list))"
      using wf left_with_mono [OF left_with_same [OF i, of db 0]] by simp
    fix s x s' assume s: "kwf (fst s) \<and> left_with (max 1 (budget i)) i (fst s)" and "recover_one env now s x = Inr s'"
    then have one: "recover_one env now (fst s, snd s) x = Inr (fst s', snd s')" by simp
    then have "kwf (fst s')" using s by (cases rule: recover_one_update) (auto intro: item_update_wf)
    moreover obtain i' where i': "i' \<in> set (kd_items (fst s))" "it_id i' = it_id i" "it_max_attempts i' = it_max_attempts i" "budget i' \<le> max 1 (budget i)"
      using s by (auto simp: left_with_def)
    have "left_with (max 1 (budget i)) i' (fst s')"
      using left_with_mono [OF recover_one_left [OF _ i'(1) one]] s i'(4) by simp
    ultimately show "kwf (fst s') \<and> left_with (max 1 (budget i)) i (fst s')" using i' by (simp add: left_with_def)
  qed
  then show ?thesis by simp
qed

lemma retry_left:
  assumes wf: "kwf db" and i: "i \<in> set (kd_items db)" and "retry_item env now db jid iid = Inr db'"
  shows "left_with (budget i + renewal (it_id i) (it_max_attempts i) (KRetry jid iid)) i db'"
  using wf assms(3)
proof (rule retry_update)
  fix item job
  assume l: "locked_item_and_job db iid = Inr (item, job)" and up: "item_update env now db item (retried_row now) db'"
  show ?thesis
  proof (rule item_update_left [OF wf i up])
    assume "it_id i = it_id item"
    then have "i = item" "it_id item = iid" using unique_item [OF wf i] up locked_itemD [OF l] by (auto simp: item_update_def)
    then show "it_max_attempts (retried_row now item) = it_max_attempts item \<and>
        budget (retried_row now item) \<le> budget item + renewal (it_id i) (it_max_attempts i) (KRetry jid iid)"
      by (auto simp: budget_def row_defs status_sets)
  qed
qed

lemma event_ops_left:
  assumes i: "i \<in> set (kd_items db)"
  shows "mark_external_parse_terminal env now db iid w s c = Inr db' \<Longrightarrow> left_with (budget i) i db'"
    and "record_parser_progress env now db iid w a v st cu tu r = Inr db' \<Longrightarrow> left_with (budget i) i db'"
  using left_with_same [OF i, of db' 0] by (simp_all add: event_ops_items)

lemma kexec_left:
  assumes wf: "kwf db" and i: "i \<in> set (kd_items db)" and op: "kexec env now db op = Inr db'"
  shows "left_with (budget i + renewal (it_id i) (it_max_attempts i) op) i db'"
proof -
  have core: "left_with (budget i) i d" if "same_core db d" for d
    using left_with_same [OF i, of d 0] that by (simp add: same_core_def)
  have more: "left_with (budget i) i d" if "create_job env now db ws sid dir ver files m pid = Inr (d, v)" for ws sid dir ver files m pid d v
    using create_items [OF that] i by (auto simp: left_with_def)
  have claim: "left_with (budget i) i d" if claimed: "claim_item env now db iid w l = Inr (d, v)" for iid w l d v
  proof -
    obtain n where "n \<le> budget i" "left_with n i d" using claim_left [OF wf i claimed refl] add_leD1 by blast
    then show ?thesis using left_with_mono by blast
  qed
  have recover: "left_with (Suc (budget i)) i d" if "recover_expired_leases env now db = Inr (d, rec)" for d rec
    using left_with_mono [OF recover_left [OF wf i that]] by simp
  note retry = retry_left [OF wf i]
  note same = core [OF ensure_workspace_core] core [OF scan_core(1)] core [OF scan_core(2)] core [OF scan_core(3)]
    core [OF create_sync_plan_core] core [OF claim_idempotency_core]
  note settle = settle_ops_left [OF wf i] cancel_job_left [OF wf i] event_ops_left [OF i]
  have stage: "left_with (budget i) i d" if "start_stage s env now db iid w = Inr d" "s = ''parsing'' \<or> s = ''applying'' \<or> s = ''understanding''"
    for s iid w d
    using stage_left [OF wf i _ that(1)] that(2) by (auto simp: LEASED_STATUSES_def)
  show ?thesis
  proof (cases op)
    case (KHeartbeat iid w l)
    then show ?thesis using op heartbeat_left [OF wf i] by auto
  next
    case (KStartParsing iid w)
    then show ?thesis using op stage [of "''parsing''"] by (simp add: start_parsing_def)
  next
    case (KStartApplying iid w)
    then show ?thesis using op stage [of "''applying''"] by (simp add: start_applying_def)
  next
    case (KStartUnderstanding iid w)
    then show ?thesis using op stage [of "''understanding''"] by (simp add: start_understanding_def)
  next
    case (KRetry jid iid)
    then show ?thesis using op retry by simp
  next
    case KRecover
    then show ?thesis using op recover by auto
  next
    case (KClaim iid w l)
    then show ?thesis using op claim by auto
  next
    case (KCreateJob ws sid dir ver files m pid)
    then show ?thesis using op more by auto
  next
    case (KCreatePlan sc sid a v bc tc bw h cs)
    then show ?thesis using op same by auto
  next
    case (KEnsure w n r k l a v)
    then show ?thesis using op same by auto
  next
    case (KBeginScan sid a v)
    then show ?thesis using op same by auto
  next
    case (KCancelJob jid)
    then show ?thesis using op settle by auto
  next
    case (KClaimKey iid)
    then show ?thesis using op same by auto
  qed (use op same settle in simp_all)
qed

section \<open>The recovery does not look at the attempts\<close>

definition not_cancelling :: "string \<Rightarrow> kdb \<Rightarrow> bool" where
  "not_cancelling jid db \<longleftrightarrow> (\<forall>j \<in> set (kd_jobs db). jb_id j = jid \<longrightarrow> \<not> jb_cancel_requested j)"

lemma not_cancelling_update:
  assumes "not_cancelling jid db" and "kd_jobs db' = update_where P f (kd_jobs db)"
    and "\<And>j. jb_id (f j) = jb_id j \<and> jb_cancel_requested (f j) = jb_cancel_requested j"
  shows "not_cancelling jid db'"
  using assms by (auto simp: not_cancelling_def)

lemma not_cancelling_append:
  "append_job_event env now db x k s i d = Inr db' \<Longrightarrow> not_cancelling jid db \<Longrightarrow> not_cancelling jid db'"
  by (auto simp: append_job_event_def Let_def not_cancelling_def)

lemma not_cancelling_refresh:
  assumes "refresh_job env now db x = Inr db'" and "not_cancelling jid db"
  shows "not_cancelling jid db'"
  using assms(1)
proof (rule refresh_cases)
  fix job db1 db2
  assume db1: "db1 = upd_job x (\<lambda>j. settle_status now (recount db j)) db"
    and db2: "db2 = db1 \<or> append_job_event env now db1 x ''job'' (jb_status (settle_status now (recount db job))) None
       [(''processed_items'', PInt (jb_processed_items (settle_status now (recount db job)))),
        (''total_items'', PInt (jb_total_items (settle_status now (recount db job))))] = Inr db2"
    and fin: "db' = db2 \<or> jb_status (settle_status now (recount db job)) \<in> set TERMINAL_JOB_STATUSES \<and>
       finalize_sync_plan env now db2 (settle_status now (recount db job)) = Inr db'"
  have "not_cancelling jid db1" using assms(2) by (auto simp: not_cancelling_def db1)
  then have two: "not_cancelling jid db2" using db2 not_cancelling_append by blast
  from fin have "db' = db2 \<or> kd_jobs db' = kd_jobs db2 \<or> (\<exists>P. kd_jobs db' = update_where P (\<lambda>j. j\<lparr>jb_status := ''completed_with_errors''\<rparr>) (kd_jobs db2))"
    using finalize_jobs [of env now db2 _ db'] by blast
  then show ?thesis using two by (auto simp: not_cancelling_def)
qed

text \<open>One step of the recovery: the item is put back, or it is left as it is and another one is looked at.\<close>

lemma recover_one_step:
  assumes wf: "kwf db" and i: "i \<in> set (kd_items db)" and nc: "not_cancelling (it_job_id i) db"
    and op: "recover_one env now (db, rec) x = Inr (db', rec')"
  shows "kwf db' \<and> not_cancelling (it_job_id i) db' \<and>
    (if it_id i = x \<and> lease_expired now i then recovered_row now False i else i) \<in> set (kd_items db')"
proof -
  obtain item job where l: "locked_item_and_job db x = Inr (item, job)" using op by (auto simp: recover_one_def)
  note m = locked_itemD [OF l]
  show ?thesis
  proof (cases "lease_expired now item")
    case False
    moreover have "it_id i = x \<longrightarrow> i = item" using unique_item [OF wf i] m by auto
    ultimately show ?thesis using op l wf i nc by (auto simp: recover_one_def)
  next
    case True
    let ?db1 = "upd_item x (recovered_row now (jb_cancel_requested job)) db"
    obtain db2 where app: "append_job_event env now ?db1 (jb_id job) ''recovery''
        (if jb_cancel_requested job then ''cancelled'' else ''retry_wait'') (Some x) (path_detail item) = Inr db2"
      and ref: "refresh_job env now db2 (jb_id job) = Inr db'"
      using op l True by (auto simp: recover_one_def Let_def)
    have "not_cancelling (it_job_id i) ?db1" using nc by (simp add: not_cancelling_def)
    then have nc': "not_cancelling (it_job_id i) db'" using not_cancelling_append [OF app] not_cancelling_refresh [OF ref] by blast
    have "kwf db'"
      using op by (rule recover_one_update) (auto intro: item_update_wf [OF wf] simp: wf)
    moreover have "it_id i = x \<longrightarrow> i = item \<and> \<not> jb_cancel_requested job"
      using unique_item [OF wf i] m nc by (auto simp: not_cancelling_def)
    moreover have "kd_items db' = update_where (\<lambda>r. it_id r = x) (recovered_row now (jb_cancel_requested job)) (kd_items db)"
      using append_frame [OF app] refresh_frame [OF ref] by simp
    ultimately show ?thesis using nc' True i by (auto intro!: image_eqI [of _ _ i])
  qed
qed

lemma recover_keeps:
  assumes "kwf db" and "i \<in> set (kd_items db)" and "not_cancelling (it_job_id i) db" and "it_id i \<notin> set xs \<or> \<not> lease_expired now i"
    and "efold (recover_one env now) (db, rec) xs = Inr (db', rec')"
  shows "i \<in> set (kd_items db') \<and> kwf db' \<and> not_cancelling (it_job_id i) db'"
  using assms
proof (induction xs arbitrary: db rec)
  case (Cons x xs)
  then obtain s where s: "recover_one env now (db, rec) x = Inr s" "efold (recover_one env now) s xs = Inr (db', rec')" by auto
  then show ?case
    using recover_one_step [OF Cons.prems(1-3), of env now rec x "fst s" "snd s"] Cons.prems(4) Cons.IH [of "fst s" "snd s"]
    by (auto split: if_splits)
qed simp

text \<open>
  C39: the recovery of expired leases does not look at the attempts. An item whose lease has expired, in a job that is
  not being cancelled, is ready for another attempt afterwards, with the same number of attempts, however
  many it has had and whatever its maximum is. So an item that makes its worker die is tried without end: only
  \<open>fail_item\<close>, which the dead worker does not reach, ends it as a dead letter.
\<close>

theorem recovery_ignores_attempts:
  assumes "rtranclp (kstep env) empty_kdb db" and "i \<in> set (kd_items db)" and "lease_expired now i"
    and "\<forall>j \<in> set (kd_jobs db). jb_id j = it_job_id i \<longrightarrow> \<not> jb_cancel_requested j"
    and "recover_expired_leases env now db = Inr (db', recovered)"
  shows "\<exists>i' \<in> set (kd_items db'). it_id i' = it_id i \<and> ready_at now i' \<and>
    it_attempts i' = it_attempts i \<and> it_max_attempts i' = it_max_attempts i"
proof -
  let ?r = "recovered_row now False i"
  have wf: "kwf db" by (rule reachable_kwf [OF assms(1) empty_kwf])
  have nc: "not_cancelling (it_job_id i) db" using assms(4) by (simp add: not_cancelling_def)
  have r: "it_id ?r = it_id i" "it_job_id ?r = it_job_id i" "\<not> lease_expired now ?r"
    by (simp_all add: row_defs lease_expired_def)
  have "it_id i \<in> set (map it_id (filter (lease_expired now) (kd_items db)))" using assms(2,3) by auto
  then obtain before after where split: "map it_id (filter (lease_expired now) (kd_items db)) = before @ it_id i # after"
      "it_id i \<notin> set before" by (meson split_list_first)
  obtain d1 rec1 d2 rec2 where run: "efold (recover_one env now) (db, []) before = Inr (d1, rec1)"
      "recover_one env now (d1, rec1) (it_id i) = Inr (d2, rec2)" "efold (recover_one env now) (d2, rec2) after = Inr (db', recovered)"
    using assms(5) unfolding recover_expired_leases_def split by (auto simp: ebind_eq_Inr)
  from recover_keeps [OF wf assms(2) nc disjI1 [OF split(2)] run(1)]
  have 1: "i \<in> set (kd_items d1)" "kwf d1" "not_cancelling (it_job_id i) d1" by auto
  from recover_one_step [OF 1(2,1,3) run(2)] assms(3)
  have 2: "?r \<in> set (kd_items d2)" "kwf d2" "not_cancelling (it_job_id ?r) d2" using r(2) by auto
  from recover_keeps [OF 2(2,1,3) disjI2 [OF r(3)] run(3)] have "?r \<in> set (kd_items db')" by blast
  then show ?thesis by (rule bexI [rotated]) (simp add: row_defs ready_at_def status_sets)
qed

text \<open>The worker that holds the item is gone when its lease expires.\<close>

theorem recovery_ignores_attempts_witness:
  "\<exists>i \<in> set (kd_items started_kdb). \<exists>i' \<in> set (kd_items (after_ops started_kdb [(1000, KRecover)])).
     it_id i' = it_id i \<and> it_attempts i' = 1 \<and> ready_at 1000 i'"
proof -
  have "list_ex (\<lambda>i. lease_expired 1000 i \<and> it_attempts i = 1 \<and>
      list_all (\<lambda>j. jb_id j = it_job_id i \<longrightarrow> \<not> jb_cancel_requested j) (kd_jobs started_kdb)) (kd_items started_kdb)" by code_simp
  then obtain i where i: "i \<in> set (kd_items started_kdb)" "lease_expired 1000 i" "it_attempts i = 1"
      "\<forall>j \<in> set (kd_jobs started_kdb). jb_id j = it_job_id i \<longrightarrow> \<not> jb_cancel_requested j"
    by (auto simp: list_all_iff dest!: in_set_by)
  have "\<not> isl (krun sample_kenv started_kdb [(1000, KRecover)])" by code_simp
  from after_run [OF this] obtain rec where
    "recover_expired_leases sample_kenv 1000 started_kdb = Inr (after_ops started_kdb [(1000, KRecover)], rec)"
    by (auto simp: krun_def)
  from recovery_ignores_attempts [OF started_reach i(1,2,4) this] i show ?thesis by auto
qed

end
