(* ===== verification/Worker_Guarantees.thy ===== *)
theory Worker_Guarantees
  imports Knowledge_Worker Knowledge_Ids Attempt_Budget
begin

text \<open>
  What the ingestion worker guarantees: it gives back every item it claims and acknowledges every message,
  whatever fails; it tries an item no more often than its attempts allow; it sends no document to a third
  party that the policy forbids; and a scan that fails leaves the plans and the manifest as they were.

  The interface \<open>item_work\<close> states what a property of the state needs in order to survive the processing
  of one item: that other tasks do not break it, that every call on the item keeps it, and that the call
  that gives the item back establishes the property that holds afterwards.
\<close>

section \<open>Working on one item\<close>

definition tick :: "worker_env \<Rightarrow> worker_state \<Rightarrow> worker_state" where
  "tick env st = st\<lparr>ws_db := interfere (we_ids env) (ws_db st) (we_others env (ws_awaits st)), ws_awaits := Suc (ws_awaits st)\<rparr>"

text \<open>The calls of a worker that leave the item in its hands, and those that give it back.\<close>

fun mid_op :: "string \<Rightarrow> string \<Rightarrow> kop \<Rightarrow> bool" where
  "mid_op iid w (KMarkExternal i v s c) = (i = iid \<and> v = w)"
| "mid_op iid w (KStartParsing i v) = (i = iid \<and> v = w)"
| "mid_op iid w (KStartApplying i v) = (i = iid \<and> v = w)"
| "mid_op iid w (KStartUnderstanding i v) = (i = iid \<and> v = w)"
| "mid_op iid w (KProgress i v a x s c t r) = (i = iid \<and> v = w)"
| "mid_op iid w (KClaimKey i) = (i = iid)"
| "mid_op iid w _ = False"

fun final_op :: "string \<Rightarrow> string \<Rightarrow> kop \<Rightarrow> bool" where
  "final_op iid w (KDefer i v a x t s d) = (i = iid \<and> v = w)"
| "final_op iid w (KComplete i v p s) = (i = iid \<and> v = w)"
| "final_op iid w (KCancelClaimed i v) = (i = iid \<and> v = w)"
| "final_op iid w (KFail i v e d c r) = (i = iid \<and> v = w)"
| "final_op iid w _ = False"

lemma triple_tick:
  assumes "\<And>st. P st \<Longrightarrow> P' (tick env st)" and "\<And>n st. P' st \<Longrightarrow> we_cancelled env n \<Longrightarrow> E Cancellation st"
    and "\<And>n st db' x. P' st \<Longrightarrow> we_cancelled env n \<Longrightarrow> call n (ws_db st) = Inr (db', x) \<Longrightarrow> E Cancellation (st\<lparr>ws_db := db'\<rparr>)"
    and "\<And>n st e. P' st \<Longrightarrow> call n (ws_db st) = Inl e \<Longrightarrow> E (Failure e) st"
    and "\<And>n st db' x. P' st \<Longrightarrow> call n (ws_db st) = Inr (db', x) \<Longrightarrow> Q x (st\<lparr>ws_db := db'\<rparr>)"
  shows "triple P (await env call) Q E"
  by (rule triple_await [where P' = "\<lambda>_. P'"]) (use assms in \<open>auto simp: tick_def\<close>)

lemma triple_outside:
  assumes "\<And>st. P st \<Longrightarrow> P (tick env st)" and "\<And>n st. P st \<Longrightarrow> we_cancelled env n \<Longrightarrow> E Cancellation st"
    and "\<And>e st. P st \<Longrightarrow> E (Failure e) st"
  shows "triple P (outside env call) (\<lambda>_. P) E"
  unfolding outside_def by (rule triple_tick [where P' = P]) (use assms in \<open>auto split: sum.splits\<close>)

lemma triple_transact:
  assumes "\<And>st. P st \<Longrightarrow> P (tick env st)" and "\<And>n st. P st \<Longrightarrow> we_cancelled env n \<Longrightarrow> E Cancellation st"
    and "\<And>n st now db' x. P st \<Longrightarrow> we_cancelled env n \<Longrightarrow> operation now (ws_db st) = Inr (db', x) \<Longrightarrow> E Cancellation (st\<lparr>ws_db := db'\<rparr>)"
    and "\<And>now e st. P st \<Longrightarrow> operation now (ws_db st) = Inl e \<Longrightarrow> E (Failure (Py e)) st"
    and "\<And>st now db' x. P st \<Longrightarrow> operation now (ws_db st) = Inr (db', x) \<Longrightarrow> Q x (st\<lparr>ws_db := db'\<rparr>)"
  shows "triple P (transact env operation) Q E"
  unfolding transact_def
  by (rule triple_tick [where P' = P]) (use assms in \<open>auto simp: failing_def split: sum.splits\<close>)

lemma triple_perform:
  assumes "\<And>st. P st \<Longrightarrow> P (tick env st)" and "\<And>n st. P st \<Longrightarrow> we_cancelled env n \<Longrightarrow> E Cancellation st"
    and "\<And>n st now db'. P st \<Longrightarrow> we_cancelled env n \<Longrightarrow> operation now (ws_db st) = Inr db' \<Longrightarrow> E Cancellation (st\<lparr>ws_db := db'\<rparr>)"
    and "\<And>now e st. P st \<Longrightarrow> operation now (ws_db st) = Inl e \<Longrightarrow> E (Failure (Py e)) st"
    and "\<And>st now db'. P st \<Longrightarrow> operation now (ws_db st) = Inr db' \<Longrightarrow> Q (st\<lparr>ws_db := db'\<rparr>)"
  shows "triple P (perform env operation) (\<lambda>_. Q) E"
  unfolding perform_def by (rule triple_transact) (use assms in \<open>auto simp: ebind_eq_Inl\<close>)

lemma triple_ask:
  assumes "\<And>st. P st \<Longrightarrow> P (tick env st)" and "\<And>n st. P st \<Longrightarrow> we_cancelled env n \<Longrightarrow> E Cancellation st"
    and "\<And>e st. P st \<Longrightarrow> E (Failure e) st"
  shows "triple P (ask env query) (\<lambda>_. P) E"
  unfolding ask_def by (rule triple_transact) (use assms in auto)

text \<open>Steps that only read the state of the worker.\<close>

definition reads :: "'a task \<Rightarrow> bool" where
  "reads m \<longleftrightarrow> (\<forall>st. fst (m st) = st \<and> snd (m st) \<noteq> Inl Cancellation)"

lemma reads_simps [simp]:
  "reads (now_of env)" "reads (lift_outcome r)" "reads (source_root_of x)" "reads (source_id_of x)"
  "reads (trequire c e)" "reads (tret v)" "reads (traise e)"
  by (auto simp: reads_def now_of_def lift_outcome_def source_root_of_def source_id_of_def trequire_def tret_def traise_def
      split: sum.splits option.splits)

lemma triple_read:
  assumes "reads m" and "\<And>e st. P st \<Longrightarrow> E (Failure e) st"
  shows "triple P m (\<lambda>_. P) E"
  unfolding triple_def
proof (intro allI impI)
  fix st assume "P st"
  moreover have "fst (m st) = st" "snd (m st) \<noteq> Inl Cancellation" using assms(1) by (simp_all add: reads_def)
  ultimately show "case m st of (st', Inl e) \<Rightarrow> E e st' | (st', Inr x) \<Rightarrow> P st'"
    using assms(2) by (cases "m st"; cases "snd (m st)"; cases "projl (snd (m st))") auto
qed

text \<open>A task that runs another one from a state it prepares.\<close>

lemma triple_from:
  assumes "\<And>st. P st \<Longrightarrow> \<exists>m' st'. m st = m' st' \<and> P' st' \<and> triple P' m' Q E"
  shows "triple P m Q E"
  unfolding triple_def using assms unfolding triple_def by metis

fun on_stop :: "(worker_state \<Rightarrow> bool) \<Rightarrow> (worker_state \<Rightarrow> bool) \<Rightarrow> stop \<Rightarrow> worker_state \<Rightarrow> bool" where
  "on_stop C P Cancellation st = C st"
| "on_stop C P (Failure e) st = P st"

lemma on_stop_Failure [simp]: "on_stop C P (Failure e) = P"
  by (rule ext) simp

locale item_work =
  fixes env :: worker_env and sv :: job_service and iid :: string and I F C :: "worker_state \<Rightarrow> bool"
  assumes others: "I st \<Longrightarrow> I (tick env st)"
    and others_after: "F st \<Longrightarrow> F (tick env st)"
    and cancelled: "I st \<or> F st \<Longrightarrow> we_cancelled env n \<Longrightarrow> C st"
    and mid: "I st \<Longrightarrow> mid_op iid (sv_worker_id sv) op \<Longrightarrow> kexec (we_ids env) now (ws_db st) op = Inr db' \<Longrightarrow> I (st\<lparr>ws_db := db'\<rparr>)"
    and final: "I st \<Longrightarrow> final_op iid (sv_worker_id sv) op \<Longrightarrow> kexec (we_ids env) now (ws_db st) op = Inr db' \<Longrightarrow> F (st\<lparr>ws_db := db'\<rparr>)"
    and refused: "I st \<Longrightarrow> kexec (we_ids env) now (ws_db st) (KFail iid (sv_worker_id sv) e d c r) = Inl x \<Longrightarrow> F st"
    and sent: "I st \<Longrightarrow> sv_external sv = Some coordinator \<Longrightarrow> authorize (pc_policy coordinator) root_id request = Inr () \<Longrightarrow>
      I (st\<lparr>ws_sent := ws_sent st @ [(root_id, request)]\<rparr>)"
begin

text \<open>An exception comes before the item is given back; a cancellation may come before or after.\<close>

abbreviation (input) stopped :: "stop \<Rightarrow> worker_state \<Rightarrow> bool" where
  "stopped \<equiv> on_stop C I"

lemma keep_outside: "triple I (outside env call) (\<lambda>_. I) stopped"
  by (rule triple_outside) (auto intro: others cancelled)

lemma keep_ask: "triple I (ask env query) (\<lambda>_. I) stopped"
  by (rule triple_ask) (auto intro: others cancelled)

lemma keep_reads: "reads m \<Longrightarrow> triple I m (\<lambda>_. I) stopped"
  by (rule triple_read) auto

lemma keep_read:
  "triple I (now_of env) (\<lambda>_. I) stopped" "triple I (lift_outcome r) (\<lambda>_. I) stopped"
  "triple I (source_root_of x) (\<lambda>_. I) stopped" "triple I (trequire c e) (\<lambda>_. I) stopped"
  "triple I (tret v) (\<lambda>_. I) stopped" "triple I (traise e) (\<lambda>_. I) stopped"
  by (simp_all add: keep_reads)

lemma keep_mid:
  assumes "mid_op iid (sv_worker_id sv) op" and "\<And>now db. operation now db = kexec (we_ids env) now db op"
  shows "triple I (perform env operation) (\<lambda>_. I) stopped"
  by (rule triple_perform) (use assms others mid cancelled in auto)

lemma give_back:
  assumes "final_op iid (sv_worker_id sv) op" and "\<And>now db. operation now db = kexec (we_ids env) now db op"
  shows "triple I (perform env operation) (\<lambda>_. F) stopped"
  by (rule triple_perform) (use assms others final cancelled in auto)

lemma keep_bind: "triple I m (\<lambda>_. I) stopped \<Longrightarrow> (\<And>x. triple I (f x) Q stopped) \<Longrightarrow> triple I (tbind m f) Q stopped"
  by (rule triple_bind)

lemma keep_catch: "triple I m Q stopped \<Longrightarrow> (\<And>e. triple I (h e) Q stopped) \<Longrightarrow> triple I (tcatch m h) Q stopped"
  by (rule triple_catch [where R = "on_stop C I"]) simp_all

lemma keep_fold:
  assumes "\<And>s x. triple I (f s x) (\<lambda>_. I) stopped"
  shows "triple I (tfold f s xs) (\<lambda>_. I) stopped"
  using triple_fold [of xs "\<lambda>_. I" f stopped s] assms by blast

lemma keep_report: "triple I (report_progress env sv iid p) (\<lambda>_. I) stopped"
  unfolding report_progress_def
  by (rule keep_mid [of "KProgress iid (sv_worker_id sv) (pp_adapter_id p) (pp_adapter_version p) (pp_stage p)
    (pp_completed_units p) (pp_total_units p) (pp_reason_code p)"]) simp_all

lemma keep_mark: "triple I (mark_terminal env sv iid s r) (\<lambda>_. I) stopped"
  unfolding mark_terminal_def by (rule keep_mid [of "KMarkExternal iid (sv_worker_id sv) s r"]) simp_all

lemma keep_start:
  "triple I (perform env (\<lambda>now db. start_parsing (we_ids env) now db iid (sv_worker_id sv))) (\<lambda>_. I) stopped"
  "triple I (perform env (\<lambda>now db. start_applying (we_ids env) now db iid (sv_worker_id sv))) (\<lambda>_. I) stopped"
  "triple I (perform env (\<lambda>now db. start_understanding (we_ids env) now db iid (sv_worker_id sv))) (\<lambda>_. I) stopped"
  by (rule keep_mid [of "KStartParsing iid (sv_worker_id sv)"] keep_mid [of "KStartApplying iid (sv_worker_id sv)"]
    keep_mid [of "KStartUnderstanding iid (sv_worker_id sv)"]; simp)+

lemma keep_claim_key: "triple I (transact env (\<lambda>now db. claim_idempotency db iid)) (\<lambda>_. I) stopped"
proof -
  have kept: "I (st\<lparr>ws_db := db'\<rparr>)" if "I st" and "claim_idempotency (ws_db st) iid = Inr (db', x)" for st db' x
    using that mid [of st "KClaimKey iid"] by simp
  show ?thesis by (rule triple_transact) (auto intro: others cancelled kept)
qed

lemma keep_hand_over:
  assumes "sv_external sv = Some coordinator" and "authorize (pc_policy coordinator) root_id request = Inr ()"
  shows "triple I (hand_over env (report_progress env sv iid) root_id request call) (\<lambda>_. I) stopped"
proof -
  have rest: "triple I (tbind (tfold (\<lambda>_. report_progress env sv iid) () steps) (\<lambda>_. outside env (\<lambda>_. Inr reply))) (\<lambda>_. I) stopped"
    for steps and reply :: "'x adapter_reply"
    by (rule keep_bind [OF keep_fold keep_outside]) (rule keep_report)
  show ?thesis
  proof (rule triple_from)
    fix st assume "I st"
    then have "I (st\<lparr>ws_sent := ws_sent st @ [(root_id, request)]\<rparr>)" by (rule sent [OF _ assms])
    then show "\<exists>m' st'. hand_over env (report_progress env sv iid) root_id request call st = m' st' \<and> I st' \<and> triple I m' (\<lambda>_. I) stopped"
      using rest by (intro exI conjI) (auto simp: hand_over_def split_def Let_def)
  qed
qed

lemma keep_call_adapter:
  assumes "sv_external sv = Some coordinator" and "authorize (pc_policy coordinator) root_id request = Inr ()"
  shows "triple I (call_adapter env (report_progress env sv iid) root_id request adapter ticket) (\<lambda>_. I) stopped"
  unfolding call_adapter_def
  by (auto split: option.splits intro!: keep_bind keep_hand_over [OF assms] keep_read)

lemma keep_try_adapters:
  assumes "sv_external sv = Some coordinator" and "authorize (pc_policy coordinator) root_id request = Inr ()"
  shows "triple I (try_adapters env (report_progress env sv iid) root_id request ticket failures adapters) (\<lambda>_. I) stopped"
proof (induction adapters arbitrary: ticket failures)
  case (Cons adapter rest)
  then show ?case
    by (auto simp: Let_def intro!: keep_bind keep_call_adapter [OF assms] keep_report keep_read split: adapter_reply.splits dispatch_outcome.splits)
qed (simp add: keep_read)

lemma keep_dispatch:
  assumes "sv_external sv = Some coordinator"
  shows "triple I (dispatch env (report_progress env sv iid) coordinator root_id request ticket) (\<lambda>_. I) stopped"
  unfolding dispatch_def Let_def
  by (auto intro!: keep_read keep_try_adapters [OF assms] split: sum.splits option.splits)

end

context item_work
begin

text \<open>A document that is still to come: the item waits for the external parser and has been given back.\<close>

abbreviation parsed :: "parsed_document option \<Rightarrow> worker_state \<Rightarrow> bool" where
  "parsed document \<equiv> (if document = None then F else I)"

abbreviation parsed_step :: "external_step \<Rightarrow> worker_state \<Rightarrow> bool" where
  "parsed_step step \<equiv> (if step = Settled None then F else I)"

lemma keep_settle_reply: "triple I (settle_reply env sv iid s reply) parsed stopped"
proof (cases reply)
  case (Pending p)
  have wait: "triple I (tbind (perform env (\<lambda>now db. defer_external_parse (we_ids env) now db iid (sv_worker_id sv) (tk_adapter_id (pn_ticket p))
         (tk_adapter_version (pn_ticket p)) (tk_task_id (pn_ticket p)) (if pn_stage p = ''running'' then ''running'' else ''queued'')
         (pn_retry_after p))) (\<lambda>_. tret None)) parsed stopped"
    by (rule triple_bind [OF give_back [of "KDefer iid (sv_worker_id sv) (tk_adapter_id (pn_ticket p)) (tk_adapter_version (pn_ticket p))
        (tk_task_id (pn_ticket p)) (if pn_stage p = ''running'' then ''running'' else ''queued'') (pn_retry_after p)"] triple_ret]) simp_all
  show ?thesis
    unfolding settle_reply_def Pending dispatch_outcome.case
    by (rule keep_bind [OF _ wait]) (auto intro: keep_mark keep_read split: option.splits)
next
  case (Completed d)
  show ?thesis
    unfolding settle_reply_def Completed dispatch_outcome.case
    by (rule keep_bind) (auto intro: keep_mark keep_read triple_ret split: option.splits)
qed

lemma keep_external_failure: "triple I (external_failure env sv iid s e) parsed_step stopped"
  unfolding external_failure_def
  by (auto intro!: triple_raise keep_bind keep_mark keep_read triple_ret split: option.splits)

lemma keep_parse_externally: "triple I (parse_externally env sv iid root_id request s) parsed_step stopped"
proof (cases "sv_external sv")
  case None
  then show ?thesis by (simp add: parse_externally_def triple_ret)
next
  case (Some coordinator)
  have body: "triple I (tbind (dispatch env (report_progress env sv iid) coordinator root_id request t) (\<lambda>reply.
      tbind (settle_reply env sv iid s reply) (\<lambda>document. tret (Settled document)))) parsed_step stopped" for t
    by (rule keep_bind [OF keep_dispatch [OF Some]], rule triple_bind [OF keep_settle_reply])
      (auto intro: triple_ret split: if_splits)
  show ?thesis
    unfolding parse_externally_def Some option.case Let_def
    by (auto intro!: triple_ret keep_bind keep_read keep_mark keep_catch [OF body keep_external_failure])
qed

lemma keep_parse_document: "triple I (parse_document env sv iid root_id request) parsed stopped"
proof -
  have locally: "triple I (tcatch (outside env call) (\<lambda>e. case (e, x) of (DocumentRequiresOcr _, Some y) \<Rightarrow> traise y | _ \<Rightarrow> traise e))
      (\<lambda>_. I) stopped" for x and call :: "nat \<Rightarrow> parsed_document outcome"
    by (rule keep_catch [OF keep_outside]) (auto intro: triple_raise split: job_exception.splits option.splits)
  have rest: "triple (parsed_step step) (case step of Settled document \<Rightarrow> tret document | ParseLocally external_error \<Rightarrow>
         tbind (case external_error of
             Some e \<Rightarrow> report_progress env sv iid \<lparr>pp_adapter_id = ''sage.pdf.text'', pp_adapter_version = ''1.0.0'',
               pp_stage = ''fallback'', pp_completed_units = None, pp_total_units = None, pp_reason_code = Some (error_code e)\<rparr>
           | None \<Rightarrow> tret ()) (\<lambda>_.
         tbind (tcatch (outside env (\<lambda>n. parse_locally (st_parsers (sv_store sv)) n request))
           (\<lambda>e. case (e, external_error) of (DocumentRequiresOcr _, Some x) \<Rightarrow> traise x | _ \<Rightarrow> traise e)) (\<lambda>document.
         tbind (case (external_error, s) of
             (Some e, Some _) \<Rightarrow> mark_terminal env sv iid ''fallback'' (Some (error_code e)) | _ \<Rightarrow> tret ()) (\<lambda>_.
         tret (Some document))))) parsed stopped" for step s
  proof (cases step)
    case (Settled document)
    then show ?thesis by (auto intro: triple_ret)
  next
    case (ParseLocally external_error)
    have start: "parsed_step (ParseLocally external_error) = I" by simp
    show ?thesis
      unfolding ParseLocally external_step.case start
    proof (rule keep_bind [OF _ keep_bind [OF locally keep_bind]])
      show "triple I (case external_error of
             Some e \<Rightarrow> report_progress env sv iid \<lparr>pp_adapter_id = ''sage.pdf.text'', pp_adapter_version = ''1.0.0'',
               pp_stage = ''fallback'', pp_completed_units = None, pp_total_units = None, pp_reason_code = Some (error_code e)\<rparr>
           | None \<Rightarrow> tret ()) (\<lambda>_. I) stopped" by (auto intro: keep_report keep_read split: option.splits)
      show "triple I (case (external_error, s) of
             (Some e, Some _) \<Rightarrow> mark_terminal env sv iid ''fallback'' (Some (error_code e)) | _ \<Rightarrow> tret ()) (\<lambda>_. I) stopped"
        by (auto intro: keep_mark keep_read split: option.splits)
      show "triple I (tret (Some d)) parsed stopped" for d :: parsed_document by (simp add: triple_ret)
    qed
  qed
  show ?thesis
    unfolding parse_document_def by (rule keep_bind [OF keep_ask triple_bind [OF keep_parse_externally rest]])
qed

lemma keep_adapter_for_job: "triple I (adapter_for_job env sv job) (\<lambda>_. I) stopped"
  unfolding adapter_for_job_def by (auto intro!: keep_bind keep_read keep_ask)

end

context item_work
begin

lemma keep_complete:
  assumes "iv_item_id item = iid"
  shows "triple I (complete env sv item p s) (\<lambda>_. F) stopped"
  unfolding complete_def assms by (rule give_back [of "KComplete iid (sv_worker_id sv) p s"]) simp_all

lemma keep_acknowledge_source: "triple F (acknowledge_source env adapter root d p) (\<lambda>_. F) stopped"
proof -
  have "triple F (outside env call) (\<lambda>_. F) (on_stop C F)" for call :: "nat \<Rightarrow> unit outcome"
    by (rule triple_outside) (auto intro: others_after cancelled)
  then show ?thesis unfolding acknowledge_source_def by (rule triple_catch) (auto intro: triple_ret)
qed

lemma keep_finish:
  assumes "iv_item_id item = iid"
  shows "triple I (tbind (complete env sv item p s) (\<lambda>_. acknowledge_source env adapter root d q)) (\<lambda>_. F) stopped"
  by (rule triple_bind [OF keep_complete [OF assms] keep_acknowledge_source])

lemma keep_retract:
  assumes "iv_item_id item = iid"
  shows "triple I (retract_document env sv item job) (\<lambda>_. F) stopped"
  unfolding retract_document_def assms split_def
  by (intro keep_bind keep_adapter_for_job keep_start keep_outside keep_finish [OF assms])

lemma keep_apply:
  assumes "iv_item_id item = iid"
  shows "triple I (apply_document env sv item adapter root source document) (\<lambda>_. F) stopped"
  unfolding apply_document_def assms
  by (intro keep_bind keep_start keep_outside keep_ask keep_read keep_finish [OF assms])

lemma keep_ingest:
  assumes "iv_item_id item = iid"
  shows "triple I (ingest_document env sv item job) (\<lambda>_. F) stopped"
proof -
  have parse: "triple I (tbind (parse_document env sv iid root_id request) f) (\<lambda>_. F) stopped"
    if "triple F (f None) (\<lambda>_. F) stopped" and "\<And>d. triple I (f (Some d)) (\<lambda>_. F) stopped" for f and root_id request
  proof (rule triple_bind)
    show "triple I (parse_document env sv iid root_id request) parsed stopped"
      by (rule keep_parse_document)
    fix x show "triple (parsed x) (f x) (\<lambda>_. F) stopped" using that by (cases x) simp_all
  qed
  show ?thesis
    unfolding ingest_document_def assms split_def
    by (intro keep_bind keep_adapter_for_job keep_start keep_outside parse)
      (simp_all add: triple_ret keep_apply [OF assms])
qed

lemma keep_work_on:
  assumes "iv_item_id item = iid"
  shows "triple I (work_on env sv item) (\<lambda>_. F) stopped"
proof -
  have cancel: "triple I (perform env (\<lambda>now db. cancel_claimed_item (we_ids env) now db iid (sv_worker_id sv))) (\<lambda>_. F) stopped"
    by (rule give_back [of "KCancelClaimed iid (sv_worker_id sv)"]) simp_all
  have skip: "triple I (complete env sv item p s) (\<lambda>_. F) stopped" for p s
    by (rule keep_complete [OF assms])
  have claimed: "triple I (case claim of
         Duplicate proposal_id \<Rightarrow> complete env sv item proposal_id True
       | Busy \<Rightarrow> traise (conflict ''idempotent source revision is busy'')
       | Acquired \<Rightarrow>
           tbind (ask env (\<lambda>now db. get_job db (iv_job_id item))) (\<lambda>job.
           if iv_change_kind item = ''deleted'' then retract_document env sv item job
           else ingest_document env sv item job)) (\<lambda>_. F) stopped" for claim
    using skip keep_retract [OF assms] keep_ingest [OF assms]
    by (cases claim) (auto intro!: keep_bind keep_ask triple_raise)
  show ?thesis
    unfolding work_on_def assms
  proof (rule keep_bind [OF keep_ask])
    fix cancelled
    show "triple I (if cancelled then perform env (\<lambda>now db. cancel_claimed_item (we_ids env) now db iid (sv_worker_id sv))
       else tbind (transact env (\<lambda>now db. claim_idempotency db iid)) (\<lambda>claim. case claim of
           Acquired \<Rightarrow> tbind (ask env (\<lambda>now db. get_job db (iv_job_id item))) (\<lambda>job.
             if iv_change_kind item = ''deleted'' then retract_document env sv item job else ingest_document env sv item job)
         | Duplicate proposal_id \<Rightarrow> complete env sv item proposal_id True
         | Busy \<Rightarrow> traise (conflict ''idempotent source revision is busy''))) (\<lambda>_. F) stopped"
      using cancel keep_bind [OF keep_claim_key claimed] by simp
  qed
qed

text \<open>The \<open>try\<close> statement with its handler: after an exception the item is failed, and given back too.\<close>

lemma keep_try:
  assumes "iv_item_id item = iid"
  shows "triple I (tcatch (work_on env sv item) (fail env sv item)) (\<lambda>_. F) (on_stop C F)"
proof (rule triple_catch [OF keep_work_on [OF assms]])
  fix e
  let ?call = "\<lambda>now db. fail_item (we_ids env) now db iid (sv_worker_id sv) (safe_error e)
    (retry_delay sv (iv_attempts item)) (Some (error_code e)) (is_retryable e)"
  have kept: "F (st\<lparr>ws_db := db'\<rparr>)" if "I st" and "?call now (ws_db st) = Inr db'" for now st db'
    using that final [of st "KFail iid (sv_worker_id sv) (safe_error e) (retry_delay sv (iv_attempts item)) (Some (error_code e)) (is_retryable e)"]
    by simp
  have refuse: "F st" if "I st" and "?call now (ws_db st) = Inl x" for now st x
    using that refused by auto
  have "triple I (fail env sv item e) (\<lambda>_. F) (on_stop C F)"
    unfolding fail_def assms perform_def transact_def
    by (rule triple_tick [where P' = I])
      (auto simp: failing_def ebind_def intro: others cancelled kept refuse split: sum.splits)
  then show "triple (on_stop C I (Failure e)) (fail env sv item e) (\<lambda>_. F) (on_stop C F)"
    by simp
qed auto

end

section \<open>What leaves the machine\<close>

definition may_leave :: "external_policy \<Rightarrow> string \<Rightarrow> parse_request \<Rightarrow> bool" where
  "may_leave policy root_id request \<longleftrightarrow> xp_enabled policy \<and> root_id \<in> set (xp_allowed_source_ids policy) \<and>
     length (rq_payload request) \<le> xp_max_payload_bytes policy \<and> \<not> looks_sensitive_path (rq_relative_path request)"

lemma authorize_iff: "authorize policy root_id request = Inr () \<longleftrightarrow> may_leave policy root_id request"
  by (auto simp: authorize_def may_leave_def)

definition only_allowed_sent :: "job_service \<Rightarrow> worker_state \<Rightarrow> bool" where
  "only_allowed_sent sv st \<longleftrightarrow> (\<forall>(root_id, request) \<in> set (ws_sent st).
     \<exists>coordinator. sv_external sv = Some coordinator \<and> may_leave (pc_policy coordinator) root_id request)"

lemma only_allowed_simps [simp]:
  "only_allowed_sent sv (tick env st) = only_allowed_sent sv st"
  "only_allowed_sent sv (st\<lparr>ws_db := db\<rparr>) = only_allowed_sent sv st"
  "only_allowed_sent sv (st\<lparr>ws_recovered := ms\<rparr>) = only_allowed_sent sv st"
  "only_allowed_sent sv (st\<lparr>ws_acked := ms\<rparr>) = only_allowed_sent sv st"
  "only_allowed_sent sv (st\<lparr>ws_published := is\<rparr>) = only_allowed_sent sv st"
  by (simp_all add: only_allowed_sent_def tick_def)

interpretation sending: item_work env sv iid "only_allowed_sent sv" "only_allowed_sent sv" "only_allowed_sent sv"
  for env sv iid
  by unfold_locales (auto simp: only_allowed_sent_def tick_def authorize_iff)

lemma on_stop_same [simp]: "on_stop P P = (\<lambda>_. P)"
proof (intro ext)
  fix e st show "on_stop P P e st = P st" by (cases e) simp_all
qed

lemma triple_same: "triple P m (\<lambda>_. P) (\<lambda>_. P) \<longleftrightarrow> (\<forall>st. P st \<longrightarrow> P (fst (m st)))"
proof -
  have "(case m st of (st', Inl e) \<Rightarrow> P st' | (st', Inr x) \<Rightarrow> P st') = P (fst (m st))" for st
    by (cases "m st"; cases "snd (m st)") auto
  then show ?thesis by (simp add: triple_def)
qed

abbreviation keeps_sent :: "job_service \<Rightarrow> 'a task \<Rightarrow> bool" where
  "keeps_sent sv m \<equiv> triple (only_allowed_sent sv) m (\<lambda>_. only_allowed_sent sv) (\<lambda>_. only_allowed_sent sv)"

lemma sent_transact: "keeps_sent sv (transact env operation)"
  by (rule triple_transact) simp_all

lemma sent_outside: "keeps_sent sv (outside env call)"
  by (rule triple_outside) simp_all

lemma sent_update: "(\<And>st. only_allowed_sent sv (f st) = only_allowed_sent sv st) \<Longrightarrow> keeps_sent sv (\<lambda>st. (f st, Inr x))"
  by (simp add: triple_def)

lemma sent_fold: "(\<And>s x. keeps_sent sv (f s x)) \<Longrightarrow> keeps_sent sv (tfold f s xs)"
  using triple_fold [of xs "\<lambda>_. only_allowed_sent sv" f "\<lambda>_. only_allowed_sent sv" s] by blast

lemma sent_acknowledge: "keeps_sent sv (acknowledge env sv message)"
  unfolding acknowledge_def by (rule triple_bind [OF sent_outside sent_update]) simp

lemma sent_process: "keeps_sent sv (process_message env sv message)"
proof -
  have handled: "keeps_sent sv (tfinally (tcatch (work_on env sv item) (fail env sv item))
      (tbind (outside env (sv_heartbeat sv)) (\<lambda>_. acknowledge env sv message)))" for item
    by (rule triple_finally [OF sending.keep_try [OF refl, simplified] triple_bind [OF sent_outside sent_acknowledge]
      triple_bind [OF sent_outside sent_acknowledge]])
  show ?thesis
    unfolding process_message_def
    by (rule triple_bind [OF sent_transact]) (auto intro: handled sent_acknowledge split: option.splits)
qed

lemma sent_run_once: "keeps_sent sv (run_once env sv)"
proof (rule triple_from)
  fix st assume ok: "only_allowed_sent sv st"
  have handled: "keeps_sent sv (tbind (process_message env sv message) (\<lambda>_. tret b))" for message b
    by (rule triple_bind [OF sent_process triple_ret]) simp
  have fetched: "keeps_sent sv (tbind (outside env call) (\<lambda>messages. case messages of
      [] \<Rightarrow> tret False | message # _ \<Rightarrow> tbind (process_message env sv message) (\<lambda>_. tret True)))" for call
    by (rule triple_bind [OF sent_outside]) (auto intro: handled triple_ret split: list.splits)
  show "\<exists>m' st'. run_once env sv st = m' st' \<and> only_allowed_sent sv st' \<and> keeps_sent sv m'"
  proof (cases "ws_recovered st")
    case Nil
    then have "run_once env sv st = tbind (outside env (\<lambda>n. jq_read (sv_queue sv) n (sv_worker_id sv))) (\<lambda>messages.
       case messages of [] \<Rightarrow> tret False | message # _ \<Rightarrow> tbind (process_message env sv message) (\<lambda>_. tret True)) st"
      by (simp add: run_once_def)
    then show ?thesis by (intro exI conjI) (assumption, rule ok, rule fetched)
  next
    case (Cons message rest)
    then have "run_once env sv st = tbind (process_message env sv message) (\<lambda>_. tret True) (st\<lparr>ws_recovered := rest\<rparr>)"
      by (simp add: run_once_def)
    moreover have "only_allowed_sent sv (st\<lparr>ws_recovered := rest\<rparr>)" using ok by simp
    ultimately show ?thesis by (intro exI conjI) (assumption, assumption, rule handled)
  qed
qed

lemma sent_reconcile: "keeps_sent sv (reconcile env sv)"
proof -
  have publish: "keeps_sent sv (publish env sv iid)" for iid
    unfolding publish_def by (rule triple_bind [OF sent_outside]) (simp add: triple_def)
  have enqueue: "keeps_sent sv (enqueue_ready env sv)"
    unfolding enqueue_ready_def ask_def
    by (rule triple_bind [OF sent_transact sent_fold]) (rule triple_bind [OF publish triple_ret], simp)
  have recover: "keeps_sent sv (recover_pending env sv)"
    unfolding recover_pending_def by (rule triple_bind [OF sent_outside]) (simp add: triple_def)
  have maybe: "keeps_sent sv (\<lambda>st. if ws_recovered st = [] then recover_pending env sv st else tret () st)"
    using recover by (simp add: triple_same tret_def)
  show ?thesis
    unfolding reconcile_def recover_leases_def
    by (rule triple_bind [OF maybe triple_bind [OF sent_transact enqueue]])
qed

lemma sent_worker_loop: "keeps_sent sv (worker_loop env sv iterations)"
proof (induction iterations)
  case Nil
  show ?case by (simp add: triple_ret)
next
  case (Cons due iterations)
  have "keeps_sent sv (if due then tbind (reconcile env sv) (\<lambda>_. tret ()) else tret ())"
    by (simp add: triple_ret triple_bind [OF sent_reconcile])
  then have "keeps_sent sv (tcatch (tbind (if due then tbind (reconcile env sv) (\<lambda>_. tret ()) else tret ()) (\<lambda>_. run_once env sv)) (\<lambda>_. tret False))"
    by (intro triple_catch [OF triple_bind [OF _ sent_run_once]] triple_ret) auto
  then show ?case using Cons by (auto intro: triple_bind)
qed

text \<open>
  C8: no document leaves the machine against the policy. Whatever the worker does in any number of iterations,
  whatever other tasks do meanwhile and wherever it is cancelled, every document it handed to an external
  parser belongs to a source on the allow list while external parsing was enabled, is within the size limit,
  and has no path component that starts with a dot or matches the pattern of secrets.
\<close>

theorem only_allowed_documents_leave:
  assumes "ws_sent st = []" and "(root_id, request) \<in> set (ws_sent (fst (worker_loop env sv iterations st)))"
  shows "\<exists>coordinator. sv_external sv = Some coordinator \<and> xp_enabled (pc_policy coordinator) \<and>
    root_id \<in> set (xp_allowed_source_ids (pc_policy coordinator)) \<and>
    length (rq_payload request) \<le> xp_max_payload_bytes (pc_policy coordinator) \<and>
    (\<forall>part \<in> set (split_slash (rq_relative_path request)).
      \<not> starts_with part ''.'' \<and> \<not> (\<exists>i j. i \<le> length part \<and> rx_match part SENSITIVE_PATH i j))"
proof -
  have "only_allowed_sent sv (fst (worker_loop env sv iterations st))"
    using sent_worker_loop assms(1) by (simp add: triple_same only_allowed_sent_def [of sv st])
  then obtain coordinator where c: "sv_external sv = Some coordinator" and m: "may_leave (pc_policy coordinator) root_id request"
    using assms(2) unfolding only_allowed_sent_def by fastforce
  have "\<not> starts_with part ''.'' \<and> \<not> (\<exists>i j. i \<le> length part \<and> rx_match part SENSITIVE_PATH i j)"
    if "part \<in> set (split_slash (rq_relative_path request))" for part
    using m that re_search_iff [of SENSITIVE_PATH part] by (auto simp: may_leave_def looks_sensitive_path_def list_ex_iff)
  then show ?thesis using c m by (auto simp: may_leave_def)
qed

section \<open>An item is given back\<close>

text \<open>No other task claims the item under the name of this worker.\<close>

definition no_rival :: "worker_env \<Rightarrow> string \<Rightarrow> string \<Rightarrow> bool" where
  "no_rival env iid w \<longleftrightarrow> (\<forall>n. \<forall>(now, op) \<in> set (we_others env n). \<forall>l. op \<noteq> KClaim iid w l)"

text \<open>The first \<open>N\<close> random ids are different.\<close>

definition ids_distinct :: "kenv \<Rightarrow> nat \<Rightarrow> bool" where
  "ids_distinct ids N \<longleftrightarrow> inj_on (\<lambda>n. take 30 (random_hex ids n)) {..<N}"

lemma drawn_id_inj: "ids_distinct ids N \<Longrightarrow> k \<le> N \<Longrightarrow> inj_on (drawn_id ids) {..<k}"
  by (auto simp: ids_distinct_def inj_on_def drawn_id_def)

lemma interfere_drawn: "kd_drawn db \<le> kd_drawn (interfere ids db ops)"
  unfolding interfere_def
proof (induction ops arbitrary: db)
  case (Cons x ops)
  have "kd_drawn db \<le> kd_drawn (other_op ids db x)"
    by (auto simp: other_op_def grows_def split: sum.splits dest!: kexec_grows)
  then show ?case using Cons [of "other_op ids db x"] by simp
qed simp

lemma other_op_worker_db: "worker_db ids db \<Longrightarrow> worker_db ids (other_op ids db x)"
  by (auto simp: other_op_def split: sum.splits intro: kexec_worker_db)

lemma interfere_worker_db: "worker_db ids db \<Longrightarrow> worker_db ids (interfere ids db ops)"
  unfolding interfere_def by (induction ops arbitrary: db) (simp_all add: other_op_worker_db)

lemma other_op_released:
  assumes "worker_db ids db" and "\<not> holds_lease db iid w" and "\<And>l. snd x \<noteq> KClaim iid w l"
  shows "\<not> holds_lease (other_op ids db x) iid w"
  using assms lease_only_by_claim [of db ids "fst x" "snd x"] by (auto simp: other_op_def worker_db_def split: sum.splits)

lemma interfere_released:
  assumes "worker_db ids db" and "\<not> holds_lease db iid w" and "\<forall>(now, op) \<in> set ops. \<forall>l. op \<noteq> KClaim iid w l"
  shows "\<not> holds_lease (interfere ids db ops) iid w"
  using assms unfolding interfere_def
proof (induction ops arbitrary: db)
  case (Cons x ops)
  then show ?case using other_op_released [of ids db iid w x] other_op_worker_db by fastforce
qed simp

lemma find_item_unique: "kwf db \<Longrightarrow> i \<in> set (kd_items db) \<Longrightarrow> find_item db (it_id i) = Some i"
  unfolding find_item_def by (rule fetchone_unique) (auto intro: unique_item)

lemma holder_is_leased:
  assumes wf: "kwf db" and "holds_lease db iid w"
  shows "\<exists>item job. leased_item db iid w = Inr (item, job)"
proof -
  obtain i where i: "i \<in> set (kd_items db)" "it_id i = iid" "it_lease_owner i = Some w" "it_status i \<in> set LEASED_STATUSES"
    using assms(2) by (auto simp: holds_lease_def)
  have "it_job_id i \<in> jb_id ` set (kd_jobs db)" using wf i(1) by (auto simp: kwf_def items_wf_def)
  then obtain job where "find_job db (it_job_id i) = Some job" using find_job_None by fastforce
  then show ?thesis using find_item_unique [OF wf i(1)] i
    by (simp add: leased_item_def locked_item_and_job_def found_def require_lease_def owns_lease_def)
qed

text \<open>After the call that gives an item back its worker does not hold it.\<close>

lemma update_releases:
  assumes wf: "kwf db" and up: "item_update env now db item f db'" and "it_id item = iid" and "it_lease_owner (f item) = None"
  shows "\<not> holds_lease db' iid w"
proof
  assume "holds_lease db' iid w"
  then obtain i' where i': "i' \<in> set (kd_items db')" "it_id i' = iid" "it_lease_owner i' = Some w" by (auto simp: holds_lease_def)
  then obtain i where i: "i \<in> set (kd_items db)" "i' = (if it_id i = it_id item then f i else i)"
    unfolding item_update_items [OF up] by auto
  have mem: "item \<in> set (kd_items db)" and same: "it_id (f item) = it_id item" using up by (auto simp: item_update_def)
  show False
  proof (cases "it_id i = it_id item")
    case True
    then have "i = item" using unique_item [OF wf i(1) mem] by blast
    then show False using i i' True assms(4) by simp
  next
    case False
    then show False using i i' assms(3) by simp
  qed
qed

lemma final_op_releases:
  assumes "worker_db ids db" and "final_op iid w op" and "kexec ids now db op = Inr db'"
  shows "\<not> holds_lease db' iid w"
proof -
  have wf: "kwf db" using assms(1) by (simp add: worker_db_def)
  note unheld = update_releases [OF wf]
  show ?thesis
  proof (cases op)
    case (KDefer i v a x t s d)
    then have "defer_external_parse ids now db iid w a x t s d = Inr db'" using assms(2,3) by simp
    then show ?thesis by (rule defer_update) (rule unheld, assumption, (drule leased_itemD, simp), simp add: row_defs)
  next
    case (KComplete i v p s)
    then have "complete_item ids now db iid w p s = Inr db'" using assms(2,3) by simp
    then show ?thesis by (rule complete_update) (rule unheld, assumption, (drule leased_itemD, simp), simp add: row_defs)
  next
    case (KCancelClaimed i v)
    then have "cancel_claimed_item ids now db iid w = Inr db'" using assms(2,3) by simp
    then show ?thesis by (rule cancel_claimed_update) (rule unheld, assumption, (drule leased_itemD, simp), simp add: row_defs)
  next
    case (KFail i v e d c r)
    then have "fail_item ids now db iid w e d c r = Inr db'" using assms(2,3) by simp
    then show ?thesis by (rule fail_update) (rule unheld, assumption, (drule leased_itemD, simp), simp add: row_defs)
  qed (use assms(2) in simp_all)
qed

lemma refused_fail_released:
  assumes "worker_db ids db" and "ids_distinct ids N" "kd_drawn db + 2 \<le> N" and "kexec ids now db (KFail iid w e d c r) = Inl x"
  shows "\<not> holds_lease db iid w"
proof
  assume "holds_lease db iid w"
  then obtain item job where "leased_item db iid w = Inr (item, job)"
    using holder_is_leased [of db iid w] assms(1) by (auto simp: worker_db_def)
  then obtain db' where "fail_item ids now db iid w e d c r = Inr db'"
    using fail_item_total [OF assms(1) drawn_id_inj [OF assms(2,3)]] by blast
  then show False using assms(4) by simp
qed

text \<open>
  The conditions under which the worker is left to its work; they concern the world, not the state. The first
  \<open>N\<close> random ids are different, and what is promised is promised as long as no more than these are drawn.
\<close>

definition undisturbed :: "worker_env \<Rightarrow> nat \<Rightarrow> string \<Rightarrow> string \<Rightarrow> bool" where
  "undisturbed env N iid w \<longleftrightarrow> no_rival env iid w \<and> ids_distinct (we_ids env) N \<and> (\<forall>n. \<not> we_cancelled env n)"

definition at_work :: "worker_env \<Rightarrow> nat \<Rightarrow> string \<Rightarrow> string \<Rightarrow> worker_state \<Rightarrow> bool" where
  "at_work env N iid w st \<longleftrightarrow> (undisturbed env N iid w \<longrightarrow> worker_db (we_ids env) (ws_db st))"

definition given_back :: "worker_env \<Rightarrow> nat \<Rightarrow> string \<Rightarrow> string \<Rightarrow> worker_state \<Rightarrow> bool" where
  "given_back env N iid w st \<longleftrightarrow> (undisturbed env N iid w \<longrightarrow>
     worker_db (we_ids env) (ws_db st) \<and> (kd_drawn (ws_db st) + 2 \<le> N \<longrightarrow> \<not> holds_lease (ws_db st) iid w))"

definition cut_short :: "worker_env \<Rightarrow> nat \<Rightarrow> string \<Rightarrow> string \<Rightarrow> worker_state \<Rightarrow> bool" where
  "cut_short env N iid w st \<longleftrightarrow> \<not> undisturbed env N iid w"

lemma given_back_tick: "given_back env N iid w st \<Longrightarrow> given_back env N iid w (tick env st)"
  using interfere_drawn [of "ws_db st" "we_ids env" "we_others env (ws_awaits st)"]
  by (auto simp: given_back_def tick_def undisturbed_def no_rival_def interfere_worker_db interfere_released)

interpretation giving_back: item_work env sv iid "at_work env N iid (sv_worker_id sv)" "given_back env N iid (sv_worker_id sv)"
    "cut_short env N iid (sv_worker_id sv)"
  for env N sv iid
proof
  fix st assume "given_back env N iid (sv_worker_id sv) st"
  then show "given_back env N iid (sv_worker_id sv) (tick env st)" by (rule given_back_tick)
next
  fix st op now db'
  assume "at_work env N iid (sv_worker_id sv) st" "final_op iid (sv_worker_id sv) op" "kexec (we_ids env) now (ws_db st) op = Inr db'"
  then show "given_back env N iid (sv_worker_id sv) (st\<lparr>ws_db := db'\<rparr>)"
    by (auto simp: given_back_def at_work_def intro: kexec_worker_db dest: final_op_releases)
next
  fix st now e d c r x
  assume "at_work env N iid (sv_worker_id sv) st" "kexec (we_ids env) now (ws_db st) (KFail iid (sv_worker_id sv) e d c r) = Inl x"
  then show "given_back env N iid (sv_worker_id sv) st"
    using refused_fail_released by (auto simp: given_back_def at_work_def undisturbed_def)
qed (auto simp: at_work_def given_back_def cut_short_def undisturbed_def tick_def interfere_worker_db intro: kexec_worker_db)

lemma claim_item_total:
  assumes db: "worker_db ids db" and inj: "ids_distinct ids N" "kd_drawn db + 2 \<le> N"
  shows "\<exists>r. claim_item ids now db iid w l = Inr r"
proof (cases "find_item db iid")
  case (Some item)
  show ?thesis
  proof (cases "find_job db (it_job_id item)")
    case (Some job)
    let ?d = "upd_job (jb_id job) (\<lambda>j. j\<lparr>jb_started_at := (if jb_started_at j = None then Some now else jb_started_at j),
               jb_status := ''running''\<rparr>) (upd_item iid (claim_row now w l) db)"
    have d: "map jb_id (kd_jobs ?d) = map jb_id (kd_jobs db)" "kd_events ?d = kd_events db" "kd_drawn ?d = kd_drawn db"
      by (simp_all add: map_update_where)
    then have ids: "jb_id ` set (kd_jobs ?d) = jb_id ` set (kd_jobs db)" by (metis list.set_map)
    have ewf: "events_wf ?d" using db d ids by (auto simp: worker_db_def kwf_def events_wf_def job_events_def)
    have fresh: "ids_fresh ids 1 ?d"
      using db drawn_id_inj [OF inj(1), of "kd_drawn db + 1"] inj(2) d by (simp add: ids_fresh_def worker_db_def)
    have "jb_id job \<in> jb_id ` set (kd_jobs ?d)" unfolding ids using find_jobD [OF Some] by blast
    then obtain j where j: "find_job ?d (jb_id job) = Some j" using find_job_None [of ?d "jb_id job"] by auto
    have "\<exists>d'. append_job_event ids now ?d (jb_id job) ''item'' ''claimed'' (Some iid)
        (path_detail item @ [(''attempt'', PInt (it_attempts (claim_row now w l item)))]) = Inr d'"
      by (rule append_total [OF ewf fresh j])
    then show ?thesis using Some \<open>find_item db iid = Some item\<close> by (auto simp: claim_item_def Let_def)
  qed (simp add: claim_item_def Some)
qed (simp add: claim_item_def)

lemma claim_result:
  assumes "claim_item ids now db iid w l = Inr (db', r)"
  shows "case r of None \<Rightarrow> db' = db | Some item \<Rightarrow> iv_item_id item = iid"
  using assms
  by (auto simp: claim_item_def Let_def item_view_of_def claim_row_def split: option.splits if_splits dest: find_itemD)

text \<open>The message is acknowledged once its item has been given back.\<close>

definition message_done :: "worker_env \<Rightarrow> nat \<Rightarrow> job_service \<Rightarrow> queue_message \<Rightarrow> worker_state \<Rightarrow> bool" where
  "message_done env N sv m st \<longleftrightarrow> given_back env N (qm_item_id m) (sv_worker_id sv) st \<and>
     (kd_drawn (ws_db st) + 2 \<le> N \<longrightarrow> m \<in> set (ws_acked st))"

lemma acknowledge_done:
  assumes "\<forall>n. jq_acknowledge (sv_queue sv) n m = Inr ()"
  shows "triple (given_back env N (qm_item_id m) (sv_worker_id sv)) (acknowledge env sv m) (\<lambda>_. message_done env N sv m)
    (on_stop (cut_short env N (qm_item_id m) (sv_worker_id sv)) (message_done env N sv m))"
  unfolding acknowledge_def outside_def
proof (rule triple_bind [OF triple_tick [where P' = "given_back env N (qm_item_id m) (sv_worker_id sv)"
      and Q = "\<lambda>_. given_back env N (qm_item_id m) (sv_worker_id sv)"]])
  show "triple (given_back env N (qm_item_id m) (sv_worker_id sv)) (\<lambda>st. (st\<lparr>ws_acked := ws_acked st @ [m]\<rparr>, Inr ()))
      (\<lambda>_. message_done env N sv m) (on_stop (cut_short env N (qm_item_id m) (sv_worker_id sv)) (message_done env N sv m))"
    by (simp add: triple_def message_done_def given_back_def)
qed (use assms given_back_tick in \<open>auto simp: cut_short_def undisturbed_def\<close>)

lemma process_done:
  assumes quiet: "undisturbed env N (qm_item_id m) (sv_worker_id sv)"
    and ack: "\<forall>n. jq_acknowledge (sv_queue sv) n m = Inr ()" and hb: "\<forall>n. sv_heartbeat sv n = Inr ()"
  shows "triple (given_back env N (qm_item_id m) (sv_worker_id sv)) (process_message env sv m) (\<lambda>_. message_done env N sv m)
    (on_stop (cut_short env N (qm_item_id m) (sv_worker_id sv)) (message_done env N sv m))"
proof -
  let ?iid = "qm_item_id m" and ?w = "sv_worker_id sv"
  let ?C = "cut_short env N ?iid ?w" and ?F = "given_back env N ?iid ?w" and ?I = "at_work env N ?iid ?w"
  have last: "triple ?F (tbind (outside env (sv_heartbeat sv)) (\<lambda>_. acknowledge env sv m)) (\<lambda>_. message_done env N sv m)
      (on_stop ?C (message_done env N sv m))"
  proof (rule triple_bind [OF _ acknowledge_done [OF ack]])
    show "triple ?F (outside env (sv_heartbeat sv)) (\<lambda>_. ?F) (on_stop ?C (message_done env N sv m))"
      unfolding outside_def
      by (rule triple_tick [where P' = ?F]) (use hb given_back_tick in \<open>auto simp: cut_short_def undisturbed_def\<close>)
  qed
  have stopped: "triple (on_stop ?C ?F e) (tbind (outside env (sv_heartbeat sv)) (\<lambda>_. acknowledge env sv m))
      (\<lambda>_. on_stop ?C (message_done env N sv m) e) (on_stop ?C (message_done env N sv m))" for e
  proof (cases e)
    case Cancellation
    then show ?thesis using quiet by (simp add: triple_def cut_short_def)
  next
    case (Failure x)
    then show ?thesis using last by simp
  qed
  have handled: "triple ?I (tfinally (tcatch (work_on env sv item) (fail env sv item))
      (tbind (outside env (sv_heartbeat sv)) (\<lambda>_. acknowledge env sv m))) (\<lambda>_. message_done env N sv m)
      (on_stop ?C (message_done env N sv m))" if "iv_item_id item = ?iid" for item
    by (rule triple_finally [OF giving_back.keep_try [OF that] last stopped])
  show ?thesis
    unfolding process_message_def
  proof (rule triple_bind)
    show "triple ?F (transact env (\<lambda>now db. claim_item (we_ids env) now db ?iid ?w (sv_lease sv)))
        (\<lambda>claimed st. case claimed of None \<Rightarrow> ?F st | Some item \<Rightarrow> iv_item_id item = ?iid \<and> ?I st) (on_stop ?C (message_done env N sv m))"
    proof (rule triple_transact)
      fix now e st
      assume st: "?F st" and bad: "claim_item (we_ids env) now (ws_db st) ?iid ?w (sv_lease sv) = Inl e"
      have "\<not> kd_drawn (ws_db st) + 2 \<le> N"
        using claim_item_total [of "we_ids env" "ws_db st" N now ?iid ?w "sv_lease sv"] st bad quiet
        by (auto simp: given_back_def undisturbed_def)
      then show "on_stop ?C (message_done env N sv m) (Failure (Py e)) st"
        using st by (simp add: message_done_def)
    next
      fix st now db' x
      assume st: "?F st" and c: "claim_item (we_ids env) now (ws_db st) ?iid ?w (sv_lease sv) = Inr (db', x)"
      show "case x of None \<Rightarrow> ?F (st\<lparr>ws_db := db'\<rparr>) | Some item \<Rightarrow> iv_item_id item = ?iid \<and> ?I (st\<lparr>ws_db := db'\<rparr>)"
        using st claim_result [OF c] kexec_worker_db [of "we_ids env" "ws_db st" now "KClaim ?iid ?w (sv_lease sv)" db'] c
        by (auto simp: at_work_def given_back_def split: option.splits)
    qed (use given_back_tick in \<open>auto simp: cut_short_def undisturbed_def\<close>)
    fix claimed
    show "triple (\<lambda>st. case claimed of None \<Rightarrow> ?F st | Some item \<Rightarrow> iv_item_id item = ?iid \<and> ?I st)
       (case claimed of None \<Rightarrow> acknowledge env sv m | Some item \<Rightarrow> tfinally (tcatch (work_on env sv item) (fail env sv item))
           (tbind (outside env (sv_heartbeat sv)) (\<lambda>_. acknowledge env sv m))) (\<lambda>_. message_done env N sv m)
       (on_stop ?C (message_done env N sv m))"
      using handled acknowledge_done [OF ack] by (cases claimed) (auto simp: triple_def)
  qed
qed

text \<open>
  C6: the worker never keeps an item, and never loses a message. It claims the item of a message that it does not hold already; then
  whatever the store, the adapters and the parsers answer or raise, whatever operations other tasks and processes perform
  meanwhile (the recovery of expired leases included), at the end of the processing the worker does not hold the item and
  the message is acknowledged. It is assumed that the task is not cancelled, that its heartbeat and the queue work,
  that nobody claims under its name, and that the random ids drawn up to then and the next two are different.
\<close>

theorem worker_gives_back:
  assumes "rtranclp (kstep (we_ids env)) empty_kdb (ws_db st)"
    and "\<not> holds_lease (ws_db st) (qm_item_id m) (sv_worker_id sv)"
    and "inj_on (\<lambda>n. take 30 (random_hex (we_ids env) n)) {..<kd_drawn (ws_db (fst (process_message env sv m st))) + 2}"
    and "\<forall>n. \<not> we_cancelled env n"
    and "\<forall>n. \<forall>(now, op) \<in> set (we_others env n). \<forall>l. op \<noteq> KClaim (qm_item_id m) (sv_worker_id sv) l"
    and "\<forall>n. sv_heartbeat sv n = Inr ()" and "\<forall>n. jq_acknowledge (sv_queue sv) n m = Inr ()"
  shows "\<not> holds_lease (ws_db (fst (process_message env sv m st))) (qm_item_id m) (sv_worker_id sv) \<and>
    m \<in> set (ws_acked (fst (process_message env sv m st)))"
proof -
  define N where "N = kd_drawn (ws_db (fst (process_message env sv m st))) + 2"
  have quiet: "undisturbed env N (qm_item_id m) (sv_worker_id sv)"
    using assms(3-5) by (simp add: undisturbed_def no_rival_def ids_distinct_def N_def)
  have "given_back env N (qm_item_id m) (sv_worker_id sv) st"
    using assms(1,2) reachable_worker_db by (auto simp: given_back_def)
  then have "case process_message env sv m st of
      (st', Inl e) \<Rightarrow> on_stop (cut_short env N (qm_item_id m) (sv_worker_id sv)) (message_done env N sv m) e st'
    | (st', Inr x) \<Rightarrow> message_done env N sv m st'"
    using process_done [OF quiet assms(7,6)] by (simp add: triple_def)
  moreover have "on_stop (cut_short env N (qm_item_id m) (sv_worker_id sv)) (message_done env N sv m) e st' \<Longrightarrow> message_done env N sv m st'" for e st'
    using quiet by (cases e) (auto simp: cut_short_def)
  ultimately have "message_done env N sv m (fst (process_message env sv m st))"
    by (auto split: prod.splits sum.splits)
  then show ?thesis using quiet by (simp add: message_done_def given_back_def N_def)
qed

section \<open>An item is tried a bounded number of times\<close>

lemma left_with_step:
  assumes "worker_db ids db" and "left_with n i db" and "kexec ids now db op = Inr db'"
  shows "left_with (n + renewal (it_id i) (it_max_attempts i) op) i db'"
proof -
  obtain i' where i': "i' \<in> set (kd_items db)" "it_id i' = it_id i" "it_max_attempts i' = it_max_attempts i" "budget i' \<le> n"
    using assms(2) by (auto simp: left_with_def)
  have "left_with (budget i' + renewal (it_id i') (it_max_attempts i') op) i' db'"
    using assms(1) i'(1) assms(3) by (intro kexec_left) (simp_all add: worker_db_def)
  then have "left_with (n + renewal (it_id i') (it_max_attempts i') op) i' db'"
    by (rule left_with_mono) (use i'(4) in simp)
  then show ?thesis using i' by (simp add: left_with_def)
qed

definition renewed_by :: "string \<Rightarrow> int \<Rightarrow> (int \<times> kop) list \<Rightarrow> nat" where
  "renewed_by iid mx ops = sum_list (map (\<lambda>x. renewal iid mx (snd x)) ops)"

lemma interfere_left:
  assumes "worker_db ids db" and "left_with n i db"
  shows "left_with (n + renewed_by (it_id i) (it_max_attempts i) ops) i (interfere ids db ops)"
  using assms unfolding interfere_def renewed_by_def
proof (induction ops arbitrary: db n)
  case (Cons x ops)
  have "left_with (n + renewal (it_id i) (it_max_attempts i) (snd x)) i (other_op ids db x)"
    using left_with_step [OF Cons.prems, of "fst x" "snd x"] left_with_mono [OF Cons.prems(2)]
    by (auto simp: other_op_def split: sum.splits)
  from Cons.IH [OF other_op_worker_db [OF Cons.prems(1)] this] show ?case by (simp add: add.assoc)
qed simp

text \<open>
  What the other tasks can have added to the attempts of an item between two awaits of the worker: one for
  each run of \<open>recover_expired_leases\<close>, all of them for each \<open>retry_item\<close> on the item.
\<close>

definition renewals :: "worker_env \<Rightarrow> string \<Rightarrow> int \<Rightarrow> nat \<Rightarrow> nat \<Rightarrow> nat" where
  "renewals env iid mx a b = sum_list (map (\<lambda>n. renewed_by iid mx (we_others env n)) [a..<b])"

lemma renewals_Suc: "a \<le> b \<Longrightarrow> renewals env iid mx a (Suc b) = renewals env iid mx a b + renewed_by iid mx (we_others env b)"
  by (simp add: renewals_def)

lemma renewals_split:
  assumes "a \<le> b" and "b \<le> c"
  shows "renewals env iid mx a c = renewals env iid mx a b + renewals env iid mx b c"
  using assms(2,1) by (induction c rule: dec_induct) (simp_all add: renewals_def)

text \<open>
  The account of the attempts since the await \<open>a\<close>: what is left, and the \<open>s\<close> attempts started, are covered by
  the \<open>B\<close> attempts there were and what the others added.
\<close>

definition accounted :: "worker_env \<Rightarrow> item_row \<Rightarrow> nat \<Rightarrow> nat \<Rightarrow> nat \<Rightarrow> worker_state \<Rightarrow> bool" where
  "accounted env i a B s st \<longleftrightarrow> worker_db (we_ids env) (ws_db st) \<and> a \<le> ws_awaits st \<and>
     (\<exists>n. n + s \<le> B + renewals env (it_id i) (it_max_attempts i) a (ws_awaits st) \<and> left_with n i (ws_db st))"

lemma accounted_start:
  "worker_db (we_ids env) (ws_db st) \<Longrightarrow> left_with n i (ws_db st) \<Longrightarrow> accounted env i (ws_awaits st) n 0 st"
  unfolding accounted_def by (intro conjI exI [of _ n]) simp_all

lemma accounted_trans:
  assumes "accounted env i b n s' st" and "a \<le> b" and "n + s \<le> B + renewals env (it_id i) (it_max_attempts i) a b"
  shows "accounted env i a B (s + s') st"
proof -
  obtain k where "k + s' \<le> n + renewals env (it_id i) (it_max_attempts i) b (ws_awaits st)" "left_with k i (ws_db st)"
    using assms(1) by (auto simp: accounted_def)
  then show ?thesis
    using assms renewals_split [of a b "ws_awaits st" env "it_id i" "it_max_attempts i"]
    unfolding accounted_def by (intro conjI exI [of _ k]) simp_all
qed

lemma accounted_tick: "accounted env i a B s st \<Longrightarrow> accounted env i a B s (tick env st)"
proof -
  assume acc: "accounted env i a B s st"
  then obtain n where n: "n + s \<le> B + renewals env (it_id i) (it_max_attempts i) a (ws_awaits st)" "left_with n i (ws_db st)"
    and db: "worker_db (we_ids env) (ws_db st)" "a \<le> ws_awaits st" by (auto simp: accounted_def)
  from interfere_left [OF db(1) n(2), of "we_others env (ws_awaits st)"] n(1) db show ?thesis
    unfolding accounted_def tick_def
    by (intro conjI exI [of _ "n + renewed_by (it_id i) (it_max_attempts i) (we_others env (ws_awaits st))"])
      (simp_all add: renewals_Suc interfere_worker_db)
qed

lemma accounted_step:
  assumes "accounted env i a B s st" and "kexec (we_ids env) now (ws_db st) op = Inr db'" and "mid_op iid w op \<or> final_op iid w op"
  shows "accounted env i a B s (st\<lparr>ws_db := db'\<rparr>)"
proof -
  have "renewal (it_id i) (it_max_attempts i) op = 0" using assms(3) by (cases op) auto
  then show ?thesis
    using assms(1,2) left_with_step [of "we_ids env" "ws_db st" _ i now op db'] kexec_worker_db by (fastforce simp: accounted_def)
qed

lemma accounted_simps [simp]:
  "accounted env i a B s (st\<lparr>ws_sent := x\<rparr>) = accounted env i a B s st"
  "accounted env i a B s (st\<lparr>ws_acked := ms\<rparr>) = accounted env i a B s st"
  by (simp_all add: accounted_def)

interpretation accounting: item_work env sv iid "accounted env i a B s" "accounted env i a B s" "accounted env i a B s"
  for env sv iid i a B s
  by unfold_locales (auto intro: accounted_tick accounted_step)

abbreviation keeps_account :: "worker_env \<Rightarrow> item_row \<Rightarrow> nat \<Rightarrow> nat \<Rightarrow> nat \<Rightarrow> 'a task \<Rightarrow> bool" where
  "keeps_account env i a B s m \<equiv> triple (accounted env i a B s) m (\<lambda>_. accounted env i a B s) (\<lambda>_. accounted env i a B s)"

lemma account_outside: "keeps_account env i a B s (outside env call)"
  by (rule triple_outside) (auto intro: accounted_tick)

lemma account_acknowledge: "keeps_account env i a B s (acknowledge env sv m)"
  unfolding acknowledge_def by (rule triple_bind [OF account_outside]) (simp add: triple_def)

lemma account_work:
  assumes "iv_item_id item = iid"
  shows "keeps_account env i a B s (tfinally (tcatch (work_on env sv item) (fail env sv item))
    (tbind (outside env (sv_heartbeat sv)) (\<lambda>_. acknowledge env sv m)))"
  by (rule triple_finally [OF accounting.keep_try [OF assms, unfolded on_stop_same]];
      rule triple_bind [OF account_outside account_acknowledge])

text \<open>
  Whether the worker, when the message is delivered now, starts another attempt: its claim reaches the database,
  finds the item ready and counts, because the item does not come back from an external parser.
\<close>

definition starts_attempt :: "worker_env \<Rightarrow> job_service \<Rightarrow> string \<Rightarrow> worker_state \<Rightarrow> bool" where
  "starts_attempt env sv iid st \<longleftrightarrow> (\<not> we_cancelled env (ws_awaits st) \<or> we_committed env (ws_awaits st)) \<and>
     (case find_item (ws_db (tick env st)) iid of
       None \<Rightarrow> False
     | Some i \<Rightarrow> it_status i \<noteq> ''external_wait'' \<and>
         (case claim_item (we_ids env) (we_clock env (ws_awaits st)) (ws_db (tick env st)) iid (sv_worker_id sv) (sv_lease sv) of
            Inr (_, Some _) \<Rightarrow> True | _ \<Rightarrow> False))"

lemma transact_run:
  "transact env operation st =
    (let r = operation (we_clock env (ws_awaits st)) (ws_db (tick env st)) in
     if we_cancelled env (ws_awaits st)
     then (case r of Inr (db', x) \<Rightarrow> if we_committed env (ws_awaits st) then (tick env st)\<lparr>ws_db := db'\<rparr> else tick env st
           | Inl e \<Rightarrow> tick env st, Inl Cancellation)
     else case r of Inl e \<Rightarrow> (tick env st, Inl (Failure (Py e))) | Inr (db', x) \<Rightarrow> ((tick env st)\<lparr>ws_db := db'\<rparr>, Inr x))"
  by (simp add: transact_def await_def tick_def Let_def failing_def split: sum.splits)

text \<open>A claim that takes effect: the attempt it starts is paid for.\<close>

lemma claim_accounted:
  assumes acc: "accounted env i a B 0 st" and iid: "it_id i = iid"
    and op: "claim_item (we_ids env) now (ws_db st) iid w l = Inr (db', v)"
    and s: "s = (case find_item (ws_db st) iid of None \<Rightarrow> 0 | Some r \<Rightarrow> if it_status r \<noteq> ''external_wait'' \<and> v \<noteq> None then 1 else 0)"
  shows "accounted env i a B s (st\<lparr>ws_db := db'\<rparr>)"
proof -
  obtain n where n: "n \<le> B + renewals env (it_id i) (it_max_attempts i) a (ws_awaits st)" "left_with n i (ws_db st)"
    and db: "worker_db (we_ids env) (ws_db st)" "a \<le> ws_awaits st" using acc by (auto simp: accounted_def)
  obtain r where r: "r \<in> set (kd_items (ws_db st))" "it_id r = it_id i" "it_max_attempts r = it_max_attempts i" "budget r \<le> n"
    using n(2) by (auto simp: left_with_def)
  have wf: "kwf (ws_db st)" using db(1) by (simp add: worker_db_def)
  have "find_item (ws_db st) iid = Some r" using find_item_unique [OF wf r(1)] r(2) iid by simp
  then have "s = (if it_id r = iid \<and> v \<noteq> None \<and> it_status r \<noteq> ''external_wait'' then 1 else 0)" using s r(2) iid by auto
  from claim_left [OF wf r(1) op this] obtain n' where n': "n' + s \<le> budget r" "left_with n' r db'" by blast
  have "worker_db (we_ids env) db'"
    by (rule kexec_worker_db [OF db(1), of now "KClaim iid w l"]) (simp add: op)
  moreover have "left_with n' i db'" using n'(2) r by (simp add: left_with_def)
  ultimately show ?thesis
    unfolding accounted_def using n(1) n'(1) r(4) db(2) by (intro conjI exI [of _ n']) simp_all
qed

lemma delivery:
  assumes acc: "accounted env i a B 0 st" and iid: "it_id i = qm_item_id m"
  shows "accounted env i a B (if starts_attempt env sv (qm_item_id m) st then 1 else 0) (fst (process_message env sv m st))"
    (is "accounted env i a B ?s _")
proof -
  let ?t = "tick env st" and ?now = "we_clock env (ws_awaits st)"
  let ?claim = "claim_item (we_ids env) ?now (ws_db ?t) (qm_item_id m) (sv_worker_id sv) (sv_lease sv)"
  note run = transact_run [of env "\<lambda>now db. claim_item (we_ids env) now db (qm_item_id m) (sv_worker_id sv) (sv_lease sv)" st]
  have t: "accounted env i a B 0 ?t" by (rule accounted_tick [OF acc])
  show ?thesis
  proof (cases "?claim")
    case (Inl e)
    then show ?thesis using t
      by (auto simp: process_message_def tbind_def run Let_def starts_attempt_def split: option.splits)
  next
    case (Inr p)
    obtain db' v where c: "?claim = Inr (db', v)" using Inr by (cases p) simp
    consider "we_cancelled env (ws_awaits st)" "\<not> we_committed env (ws_awaits st)"
      | "we_cancelled env (ws_awaits st)" "we_committed env (ws_awaits st)" | "\<not> we_cancelled env (ws_awaits st)" by blast
    then show ?thesis
    proof cases
      case 1
      then show ?thesis using t by (simp add: process_message_def tbind_def run Let_def c starts_attempt_def)
    next
      case 2
      have "accounted env i a B ?s (?t\<lparr>ws_db := db'\<rparr>)"
        by (rule claim_accounted [OF t iid c]) (use 2 c in \<open>auto simp: starts_attempt_def split: option.splits\<close>)
      then show ?thesis using 2 by (simp add: process_message_def tbind_def run Let_def c)
    next
      case 3
      have s: "accounted env i a B ?s (?t\<lparr>ws_db := db'\<rparr>)"
        by (rule claim_accounted [OF t iid c]) (use 3 c in \<open>auto simp: starts_attempt_def split: option.splits\<close>)
      show ?thesis
      proof (cases v)
        case None
        then show ?thesis using 3 account_acknowledge s by (simp add: process_message_def tbind_def run Let_def c triple_same)
      next
        case (Some item)
        have "iv_item_id item = qm_item_id m" using claim_result [OF c] Some by simp
        from account_work [OF this] s show ?thesis
          using 3 Some by (simp add: process_message_def tbind_def run Let_def c triple_same)
      qed
    qed
  qed
qed

text \<open>The worker is given the same message again and again; how many of these deliveries start an attempt.\<close>

fun delivered :: "worker_env \<Rightarrow> job_service \<Rightarrow> queue_message \<Rightarrow> nat \<Rightarrow> worker_state \<Rightarrow> worker_state" where
  "delivered env sv m 0 st = st"
| "delivered env sv m (Suc k) st = delivered env sv m k (fst (process_message env sv m st))"

fun attempts_started :: "worker_env \<Rightarrow> job_service \<Rightarrow> queue_message \<Rightarrow> nat \<Rightarrow> worker_state \<Rightarrow> nat" where
  "attempts_started env sv m 0 st = 0"
| "attempts_started env sv m (Suc k) st =
     (if starts_attempt env sv (qm_item_id m) st then 1 else 0) + attempts_started env sv m k (fst (process_message env sv m st))"

lemma deliveries_accounted:
  assumes "accounted env i a B s st" and "it_id i = qm_item_id m"
  shows "accounted env i a B (s + attempts_started env sv m k st) (delivered env sv m k st)"
  using assms(1)
proof (induction k arbitrary: s st)
  case (Suc k)
  let ?st = "fst (process_message env sv m st)" and ?s = "if starts_attempt env sv (qm_item_id m) st then 1 else 0 :: nat"
  obtain n where acc: "accounted env i (ws_awaits st) n 0 st" "a \<le> ws_awaits st"
      "n + s \<le> B + renewals env (it_id i) (it_max_attempts i) a (ws_awaits st)"
    using Suc.prems accounted_start unfolding accounted_def [of env i a B s] by blast
  from accounted_trans [OF delivery [OF acc(1) assms(2)] acc(2,3)]
  have "accounted env i a B (s + ?s) ?st" .
  from Suc.IH [OF this] show ?case unfolding attempts_started.simps delivered.simps add.assoc .
qed simp

text \<open>
  C16: no item is tried for ever. However often its message is delivered, whatever fails, whenever the task is
  cancelled and whatever the other tasks do meanwhile, the worker starts at most as many attempts at an item as
  are left of its maximum (one, if none is left), plus what the other tasks gave back: one attempt for each run of
  \<open>recover_expired_leases\<close>, which puts an expired item back without looking at its attempts, and all of
  them for each retry of the item by hand. Waiting for an external parser does not count as an attempt and
  cannot renew them.
\<close>

theorem attempts_are_bounded:
  assumes "rtranclp (kstep (we_ids env)) empty_kdb (ws_db st)" and "i \<in> set (kd_items (ws_db st))" and "it_id i = qm_item_id m"
  shows "attempts_started env sv m k st \<le> max 1 (nat (it_max_attempts i - it_attempts i)) +
    renewals env (qm_item_id m) (it_max_attempts i) (ws_awaits st) (ws_awaits (delivered env sv m k st))"
proof -
  have "left_with (budget i) i (ws_db st)" using assms(2) by (auto simp: left_with_def)
  then have "accounted env i (ws_awaits st) (budget i) 0 st"
    by (rule accounted_start [OF reachable_worker_db [OF assms(1)]])
  from deliveries_accounted [OF this assms(3), of sv k]
  have "attempts_started env sv m k st \<le> budget i +
      renewals env (qm_item_id m) (it_max_attempts i) (ws_awaits st) (ws_awaits (delivered env sv m k st))"
    using assms(3) by (auto simp: accounted_def)
  moreover have "budget i \<le> max 1 (nat (it_max_attempts i - it_attempts i))" by (simp add: budget_def)
  ultimately show ?thesis by linarith
qed

section \<open>A scan is a snapshot\<close>

text \<open>
  The pages an adapter returned to a sequence of requests, each for the cursor of the page before; only the
  last is complete and has no cursor.
\<close>

fun snapshot :: "(string option \<Rightarrow> scan_page \<Rightarrow> bool) \<Rightarrow> string option \<Rightarrow> scan_page list \<Rightarrow> bool" where
  "snapshot reply cursor [] = False"
| "snapshot reply cursor [page] = (reply cursor page \<and> sp_complete page \<and> sp_next_cursor page = None)"
| "snapshot reply cursor (page # pages) =
     (reply cursor page \<and> \<not> sp_complete page \<and> sp_next_cursor page \<noteq> None \<and> snapshot reply (sp_next_cursor page) pages)"

lemma snapshot_Cons:
  "reply cursor page \<Longrightarrow> \<not> sp_complete page \<Longrightarrow> sp_next_cursor page \<noteq> None \<Longrightarrow> snapshot reply (sp_next_cursor page) pages \<Longrightarrow>
   snapshot reply cursor (page # pages)"
  by (cases pages) simp_all

lemma outside_result: "snd (outside env call st) = Inr x \<Longrightarrow> \<exists>n. call n = Inr x"
  by (auto simp: outside_def await_def Let_def split: if_splits sum.splits)

definition scan_reply :: "source_adapter \<Rightarrow> source_root \<Rightarrow> string \<Rightarrow> string option \<Rightarrow> string option \<Rightarrow> scan_page \<Rightarrow> bool" where
  "scan_reply adapter root scp checkpoint cursor page \<longleftrightarrow> (\<exists>n. ad_scan adapter n root scp checkpoint cursor 500 = Inr page)"

definition scan_result ::
  "(string option \<Rightarrow> scan_page \<Rightarrow> bool) \<Rightarrow> source_descriptor list \<Rightarrow> string option \<Rightarrow> string option \<Rightarrow>
   (stop + (source_descriptor list \<times> string) option) \<Rightarrow> bool" where
  "scan_result reply descriptors cursor target r = (case r of Inl _ \<Rightarrow> True | Inr None \<Rightarrow> False
     | Inr (Some (ds, t)) \<Rightarrow> (\<exists>pages. snapshot reply cursor pages \<and> ds = descriptors @ concat (map sp_items pages) \<and>
         (\<forall>p \<in> set pages. sp_target_checkpoint p = t) \<and> target \<in> {None, Some t}))"

lemma tbind_result:
  "snd (tbind m f st) = (case snd (m st) of Inl e \<Rightarrow> Inl e | Inr x \<Rightarrow> snd (f x (fst (m st))))"
  by (cases "m st"; cases "snd (m st)") (auto simp: tbind_def)

lemma trequire_result: "snd (trequire c e st) = (if c then Inr () else Inl (Failure e))" "fst (trequire c e st) = st"
  by (simp_all add: trequire_def tret_def traise_def)

lemma scan_pages_result:
  fixes rank :: "string option \<Rightarrow> nat"
  assumes progress: "\<And>c page. scan_reply adapter root scp checkpoint c page \<Longrightarrow> sp_next_cursor page \<noteq> None \<Longrightarrow> rank (sp_next_cursor page) < rank c"
    and "rank cursor < fuel"
  shows "scan_result (scan_reply adapter root scp checkpoint) descriptors cursor target
    (snd (scan_pages env adapter root scp checkpoint sid fuel descriptors cursor target st))"
  using assms(2)
proof (induction fuel arbitrary: descriptors cursor target st)
  case (Suc fuel)
  let ?reply = "scan_reply adapter root scp checkpoint"
  let ?fetch = "outside env (\<lambda>n. ad_scan adapter n root scp checkpoint cursor 500)"
  show ?case
  proof (cases "snd (?fetch st)")
    case (Inl e)
    then show ?thesis by (simp add: tbind_result scan_result_def)
  next
    case (Inr page)
    then have reply: "?reply cursor page" using outside_result by (fastforce simp: scan_reply_def)
    let ?ds = "descriptors @ sp_items page" and ?t = "sp_target_checkpoint page"
    define record_page where "record_page = (case sid of None \<Rightarrow> tret ()
         | Some s \<Rightarrow> perform env (\<lambda>now db. record_source_scan_page db s (ad_adapter_id adapter) (ad_adapter_version adapter) (sp_next_cursor page)))"
    obtain st1 r1 where rec: "record_page (fst (?fetch st)) = (st1, r1)" by (cases "record_page (fst (?fetch st))")
    have rest: "scan_result ?reply ?ds (sp_next_cursor page) (Some ?t)
        (snd (scan_pages env adapter root scp checkpoint sid fuel ?ds (sp_next_cursor page) (Some ?t) st1))"
      if "sp_next_cursor page \<noteq> None"
      by (rule Suc.IH) (use progress [OF reply that] Suc.prems in linarith)
    have run: "snd (scan_pages env adapter root scp checkpoint sid (Suc fuel) descriptors cursor target st) =
      (if target = None \<or> target = Some ?t then
        (case r1 of Inl e \<Rightarrow> Inl e | Inr _ \<Rightarrow>
          if sp_complete page then (if sp_next_cursor page = None then Inr (Some (?ds, ?t))
            else Inl (Failure (conflict ''completed source scan returned a cursor'')))
          else if sp_next_cursor page = None then Inl (Failure (conflict ''incomplete source scan has no cursor''))
          else snd (scan_pages env adapter root scp checkpoint sid fuel ?ds (sp_next_cursor page) (Some ?t) st1))
       else Inl (Failure (conflict ''knowledge source changed during scan'')))"
      using Inr rec by (cases "sp_next_cursor page")
        (simp_all add: tbind_result trequire_result Let_def record_page_def [symmetric] tret_def split: sum.splits)
    show ?thesis
      unfolding run
    proof (cases "(target = None \<or> target = Some ?t) \<and> r1 = Inr () ")
      case False
      then show "scan_result ?reply descriptors cursor target (if target = None \<or> target = Some ?t then
        (case r1 of Inl e \<Rightarrow> Inl e | Inr _ \<Rightarrow>
          if sp_complete page then (if sp_next_cursor page = None then Inr (Some (?ds, ?t))
            else Inl (Failure (conflict ''completed source scan returned a cursor'')))
          else if sp_next_cursor page = None then Inl (Failure (conflict ''incomplete source scan has no cursor''))
          else snd (scan_pages env adapter root scp checkpoint sid fuel ?ds (sp_next_cursor page) (Some ?t) st1))
       else Inl (Failure (conflict ''knowledge source changed during scan'')))"
        by (auto simp: scan_result_def split: sum.splits)
    next
      case True
      consider (last) "sp_complete page" "sp_next_cursor page = None" | (bad) "sp_complete page = (sp_next_cursor page \<noteq> None)"
        | (more) "\<not> sp_complete page" "sp_next_cursor page \<noteq> None" by blast
      then show "scan_result ?reply descriptors cursor target (if target = None \<or> target = Some ?t then
        (case r1 of Inl e \<Rightarrow> Inl e | Inr _ \<Rightarrow>
          if sp_complete page then (if sp_next_cursor page = None then Inr (Some (?ds, ?t))
            else Inl (Failure (conflict ''completed source scan returned a cursor'')))
          else if sp_next_cursor page = None then Inl (Failure (conflict ''incomplete source scan has no cursor''))
          else snd (scan_pages env adapter root scp checkpoint sid fuel ?ds (sp_next_cursor page) (Some ?t) st1))
       else Inl (Failure (conflict ''knowledge source changed during scan'')))"
      proof cases
        case last
        then show ?thesis using True reply by (auto simp: scan_result_def intro!: exI [of _ "[page]"])
      next
        case bad
        then show ?thesis using True by (auto simp: scan_result_def)
      next
        case more
        have r: "scan_result ?reply ?ds (sp_next_cursor page) (Some ?t)
          (snd (scan_pages env adapter root scp checkpoint sid fuel ?ds (sp_next_cursor page) (Some ?t) st1))" by (rule rest [OF more(2)])
        have step: "scan_result ?reply descriptors cursor target x" if "scan_result ?reply ?ds (sp_next_cursor page) (Some ?t) x" for x
          using that True snapshot_Cons [of ?reply cursor page, OF reply more]
          unfolding scan_result_def
          by (auto split: sum.splits option.splits) (metis (no_types, lifting) append.assoc concat.simps(2) list.simps(9) set_ConsD)+
        show ?thesis using step [OF r] True more by (cases "sp_next_cursor page") simp_all
      qed
    qed
  qed
qed simp

text \<open>
  C17: a scan is a snapshot of its source. When the pages of an adapter come to an end (every page with a cursor is
  followed by one that is nearer to the end), the loop that reads them ends too, within as many pages; it is
  stopped by an exception or a cancellation, or it returns the concatenation of exactly the pages from the
  first, all taken at the same checkpoint and each requested with the cursor of the one before, of which the
  last alone is complete. Pages of different checkpoints are never mixed.
\<close>

theorem scan_is_snapshot:
  fixes rank :: "string option \<Rightarrow> nat"
  assumes "\<And>n c page. ad_scan adapter n root scp checkpoint c 500 = Inr page \<Longrightarrow> sp_next_cursor page \<noteq> None \<Longrightarrow> rank (sp_next_cursor page) < rank c"
    and "rank None < fuel"
  shows "case snd (scan_adapter env fuel adapter root scp checkpoint sid st) of
      Inl _ \<Rightarrow> True
    | Inr None \<Rightarrow> False
    | Inr (Some (descriptors, target)) \<Rightarrow>
        (\<exists>pages. snapshot (\<lambda>cursor page. \<exists>n. ad_scan adapter n root scp checkpoint cursor 500 = Inr page) None pages \<and>
          descriptors = concat (map sp_items pages) \<and> (\<forall>page \<in> set pages. sp_target_checkpoint page = target))"
proof -
  have reply: "(\<lambda>cursor page. \<exists>n. ad_scan adapter n root scp checkpoint cursor 500 = Inr page) = scan_reply adapter root scp checkpoint"
    by (intro ext) (simp add: scan_reply_def)
  have "scan_result (scan_reply adapter root scp checkpoint) [] None None
      (snd (scan_adapter env fuel adapter root scp checkpoint sid st))"
    unfolding scan_adapter_def
    by (rule scan_pages_result [of adapter root scp checkpoint rank]) (use assms in \<open>auto simp: scan_reply_def\<close>)
  then show ?thesis unfolding reply scan_result_def by (auto split: sum.splits option.splits)
qed

section \<open>A sample worker\<close>

text \<open>
  A worker with one local parser and one external parser that is never available: the document is sent, the
  adapter fails, and the document is parsed locally. Another task renews the lease meanwhile.
\<close>

definition queued_kdb :: kdb where
  "queued_kdb = after_ops empty_kdb (take 2 started_ops)"

lemma queued_reach: "rtranclp (kstep sample_kenv) empty_kdb queued_kdb"
proof -
  have "\<not> isl (krun sample_kenv empty_kdb (take 2 started_ops))" by code_simp
  then show ?thesis unfolding queued_kdb_def by (rule after_run [THEN krun_reach])
qed

definition sample_adapter :: source_adapter where
  "sample_adapter = \<lparr>ad_adapter_id = ''fs'', ad_adapter_version = ''1'', ad_supported_kinds = [''local''],
     ad_scan = (\<lambda>_ _ _ _ cursor _. case cursor of
       None \<Rightarrow> Inr \<lparr>sp_items = [\<lparr>sd_source_key = ''a'', sd_source_revision = ''1'', sd_media_type = ''t'', sd_size_bytes = 1, sd_modified_at = None\<rparr>],
         sp_next_cursor = Some ''2'', sp_target_checkpoint = ''cp'', sp_complete = False\<rparr>
     | Some _ \<Rightarrow> Inr \<lparr>sp_items = [\<lparr>sd_source_key = ''b'', sd_source_revision = ''1'', sd_media_type = ''t'', sd_size_bytes = 1, sd_modified_at = None\<rparr>],
         sp_next_cursor = None, sp_target_checkpoint = ''cp'', sp_complete = True\<rparr>),
     ad_fetch = (\<lambda>_ _ d. Inr \<lparr>sa_source_key = sd_source_key d, sa_source_revision = sd_source_revision d, sa_media_type = ''t'', sa_content = ''x'', sa_metadata = []\<rparr>),
     ad_acknowledge = (\<lambda>_ _ _ _. Inl (OtherFailure ''ConnectionError''))\<rparr>"

definition sample_root :: source_root where
  "sample_root = \<lparr>sr_root_id = ''r'', sr_kind = ''local'', sr_label = ''Notes'', sr_path = ''p''\<rparr>"

definition sample_coordinator :: parse_coordinator where
  "sample_coordinator = \<lparr>pc_policy = \<lparr>xp_enabled = True, xp_allowed_source_ids = [''r''], xp_max_payload_bytes = 5, xp_timeout = 1000\<rparr>,
     pc_adapters = [\<lparr>xa_adapter_id = ''ocr'', xa_adapter_version = ''1'', xa_media_types = [''t''], xa_resumable = False,
       xa_submit = (\<lambda>_ _. ([], TimedOut)), xa_resume = (\<lambda>_ _ _. ([], TimedOut)),
       xa_parse = (\<lambda>_ _. ([], AdapterError ''unavailable'' True))\<rparr>]\<rparr>"

definition sample_service :: job_service where
  "sample_service = \<lparr>
     sv_store = \<lparr>st_workspace_name = ''W'',
       st_parsers = [\<lparr>dp_parser_id = ''text'', dp_priority = 1, dp_media_types = [''t''], dp_extensions = [],
         dp_parse = (\<lambda>_ q. Inr \<lparr>pd_parser_id = ''text'', pd_markdown = rq_payload q\<rparr>)\<rparr>],
       st_validate_root = Inr,
       st_load_artifact = (\<lambda>_ r a. Inr \<lparr>ls_source_root_id = r, ls_source_kind = ''local'', ls_relative_path = sa_source_key a,
         ls_source_id = ''s'', ls_source_revision = sa_source_revision a, ls_media_type = sa_media_type a, ls_payload = sa_content a\<rparr>),
       st_prepare = (\<lambda>_ s d. Inr \<lparr>ps_source_revision = ls_source_revision s, ps_document = d\<rparr>),
       st_ingest = (\<lambda>_ _. Inr ''draft''), st_apply_policy = (\<lambda>_ _. Inr ''proposal''), st_retract = (\<lambda>_ _ _ _. Inr ''proposal'')\<rparr>,
     sv_queue = \<lparr>jq_initialize = (\<lambda>_. Inr ()), jq_publish = (\<lambda>_ _. Inr True),
       jq_read = (\<lambda>_ _. Inr [\<lparr>qm_message_id = ''1'', qm_item_id = ''kitem_x''\<rparr>]), jq_recover = (\<lambda>_ _. Inr []),
       jq_acknowledge = (\<lambda>_ _. Inr ())\<rparr>,
     sv_adapters = \<lparr>rg_by_kind = [(''local'', sample_adapter)], rg_by_id = [(''fs'', sample_adapter)]\<rparr>,
     sv_external = Some sample_coordinator, sv_workspace_id = ''w'', sv_worker_id = ''worker'', sv_lease = 60, sv_retry_base = 5,
     sv_heartbeat = (\<lambda>_. Inr ())\<rparr>"

definition sample_world :: worker_env where
  "sample_world = \<lparr>we_ids = sample_kenv, we_clock = (\<lambda>n. 10 + int n),
     we_others = (\<lambda>n. if n = 2 then [(12, KHeartbeat ''kitem_x'' ''worker'' 60)] else []), we_cancelled = (\<lambda>_. False), we_committed = (\<lambda>_. False)\<rparr>"

definition sample_state :: worker_state where
  "sample_state = \<lparr>ws_db = queued_kdb, ws_awaits = 0, ws_source_roots = [(''r'', sample_root)],
     ws_source_ids = [(''r'', sample_source)], ws_recovered = [], ws_prepared = True, ws_sent = [], ws_published = [], ws_acked = []\<rparr>"

definition sample_message :: queue_message where
  "sample_message = \<lparr>qm_message_id = ''1'', qm_item_id = ''kitem_x''\<rparr>"

text \<open>The same worker when the source cannot be reached; the delay between two attempts is short.\<close>

definition stubborn_service :: job_service where
  "stubborn_service = sample_service\<lparr>sv_retry_base := 2,
     sv_adapters := \<lparr>rg_by_kind = [(''local'', sample_adapter\<lparr>ad_fetch := \<lambda>_ _ _. Inl (OtherFailure ''ConnectionError'')\<rparr>)], rg_by_id = []\<rparr>\<rparr>"

theorem only_allowed_documents_leave_witness:
  "map (\<lambda>(r, q). (r, rq_relative_path q)) (ws_sent (fst (worker_loop sample_world sample_service [False] sample_state))) = [(''r'', ''a'')] \<and>
   ''r'' \<in> set (xp_allowed_source_ids (pc_policy sample_coordinator))"
proof -
  let ?sent = "ws_sent (fst (worker_loop sample_world sample_service [False] sample_state))"
  have run: "map (\<lambda>(r, q). (r, rq_relative_path q)) ?sent = [(''r'', ''a'')]" by code_simp
  then obtain q where "(''r'', q) \<in> set ?sent" by (cases ?sent) auto
  moreover have "ws_sent sample_state = []" "sv_external sample_service = Some sample_coordinator"
    by (simp_all add: sample_state_def sample_service_def)
  ultimately show ?thesis using run only_allowed_documents_leave [of sample_state "''r''" q sample_world sample_service "[False]"] by auto
qed

lemma sample_ids: "N \<le> 31 \<Longrightarrow> inj_on (\<lambda>n. take 30 (random_hex sample_kenv n)) {..<N}"
  by (auto simp: inj_on_def sample_kenv_def)

text \<open>Another task cancels the job while the worker holds the item.\<close>

definition busy_world :: worker_env where
  "busy_world = sample_world\<lparr>we_others := (\<lambda>n. if n = 1 then [(11, KCancelJob ''kjob_'')] else [])\<rparr>"


theorem worker_gives_back_witness:
  "map it_status (kd_items (ws_db (fst (process_message busy_world sample_service sample_message sample_state)))) = [''cancelled'', ''cancelled''] \<and>
   sample_message \<in> set (ws_acked (fst (process_message busy_world sample_service sample_message sample_state)))"
proof -
  let ?done_db = "ws_db (fst (process_message busy_world sample_service sample_message sample_state))"
  have "(\<lambda>db. (kd_drawn db, map it_status (kd_items db))) ?done_db = (9, [''cancelled'', ''cancelled''])" by code_simp
  then have drawn: "kd_drawn ?done_db = 9" and run: "map it_status (kd_items ?done_db) = [''cancelled'', ''cancelled'']" by simp_all
  have ids: "inj_on (\<lambda>n. take 30 (random_hex (we_ids busy_world) n)) {..<kd_drawn ?done_db + 2}"
    unfolding drawn using sample_ids [of 11] by (simp add: busy_world_def sample_world_def)
  have free: "\<not> holds_lease (ws_db sample_state) (qm_item_id sample_message) (sv_worker_id sample_service)" by code_simp
  have reach: "rtranclp (kstep (we_ids busy_world)) empty_kdb (ws_db sample_state)"
    using queued_reach by (simp add: busy_world_def sample_world_def sample_state_def)
  have world: "\<forall>n. \<not> we_cancelled busy_world n" "\<forall>n. sv_heartbeat sample_service n = Inr ()"
    "\<forall>n. jq_acknowledge (sv_queue sample_service) n sample_message = Inr ()"
    "\<forall>n. \<forall>(now, op) \<in> set (we_others busy_world n). \<forall>l. op \<noteq> KClaim (qm_item_id sample_message) (sv_worker_id sample_service) l"
    by (simp_all add: busy_world_def sample_world_def sample_service_def)
  from worker_gives_back [OF reach free ids world(1,4,2,3)] run show ?thesis by blast
qed

theorem attempts_are_bounded_witness:
  "starts_attempt sample_world stubborn_service ''kitem_x'' sample_state \<and>
   attempts_started sample_world stubborn_service sample_message 20 sample_state \<le> 3"
proof -
  have start: "starts_attempt sample_world stubborn_service ''kitem_x'' sample_state" by code_simp
  let ?i = "hd (kd_items queued_kdb)"
  have row: "map it_id (kd_items queued_kdb) = [''kitem_x'', ''kitem_xx'']" "it_max_attempts ?i = 3" "it_attempts ?i = 0" by code_simp+
  then have "?i \<in> set (kd_items queued_kdb)" "it_id ?i = ''kitem_x''" by (cases "kd_items queued_kdb"; simp)+
  then have item: "?i \<in> set (kd_items (ws_db sample_state))" "it_id ?i = qm_item_id sample_message"
    by (simp_all add: sample_state_def sample_message_def)
  have "rtranclp (kstep (we_ids sample_world)) empty_kdb (ws_db sample_state)"
    using queued_reach by (simp add: sample_world_def sample_state_def)
  moreover have "renewals sample_world iid mx a b = 0" for iid mx a b
    by (simp add: renewals_def renewed_by_def sample_world_def)
  ultimately show ?thesis
    using start attempts_are_bounded [OF _ item, of sample_world stubborn_service 20] unfolding row by simp
qed

theorem scan_is_snapshot_witness:
  "\<exists>ds (pages :: scan_page list). snd (scan_adapter sample_world 3 sample_adapter sample_root ''.'' None None sample_state) = Inr (Some (ds, ''cp'')) \<and>
     map sd_source_key ds = [''a'', ''b''] \<and> ds = concat (map sp_items pages)"
proof -
  let ?rank = "\<lambda>c :: string option. if c = None then 1 else 0 :: nat"
  let ?r = "snd (scan_adapter sample_world 3 sample_adapter sample_root ''.'' None None sample_state)"
  have run: "map_option (\<lambda>(ds, t). (map sd_source_key ds, t)) (projr ?r) = Some ([''a'', ''b''], ''cp'')" "\<not> isl ?r" by code_simp+
  then obtain ds where r: "?r = Inr (Some (ds, ''cp''))" and keys: "map sd_source_key ds = [''a'', ''b'']"
    by (cases ?r) (auto split: prod.splits)
  have near: "?rank (sp_next_cursor page) < ?rank c"
    if "ad_scan sample_adapter n sample_root ''.'' None c 500 = Inr page" "sp_next_cursor page \<noteq> None" for n c page
    using that by (cases c) (auto simp: sample_adapter_def)
  have "case ?r of Inl _ \<Rightarrow> True | Inr None \<Rightarrow> False
    | Inr (Some (descriptors, target)) \<Rightarrow>
        (\<exists>pages. snapshot (\<lambda>cursor page. \<exists>n. ad_scan sample_adapter n sample_root ''.'' None cursor 500 = Inr page) None pages \<and>
          descriptors = concat (map sp_items pages) \<and> (\<forall>page \<in> set pages. sp_target_checkpoint page = target))"
    by (rule scan_is_snapshot [where rank = ?rank]) (use near in simp_all)
  then obtain pages :: "scan_page list" where "ds = concat (map sp_items pages)" unfolding r by auto
  then show ?thesis using r keys by (intro exI [of _ ds] exI [of _ pages] conjI)
qed

section \<open>What a failure says\<close>

text \<open>
  The code stored with a failure tells whether the item will be tried again: the worker counts a failure as
  worth another attempt exactly when it stores \<open>transient_error\<close> or \<open>external_parse_unavailable\<close>.
\<close>

theorem error_codes_tell_retry:
  "is_retryable e \<longleftrightarrow> error_code e \<in> {''transient_error'', ''external_parse_unavailable''}"
  by (cases e) (auto simp: is_retryable_def error_code_def)

text \<open>
  A decoding error is a \<open>ValueError\<close>, so the branch of \<open>_safe_error\<close> for it is never taken: the text of the decoder
  is stored instead of the message written for that case.
\<close>

lemma decoder_text_is_stored: "safe_error (UnicodeFailure m) = take 1000 m"
  by (simp add: safe_error_def)

end
