(* ===== verification/Tool_Workspace.thy ===== *)
theory Tool_Workspace
  imports Json_Payload Posix_Path Text_Pattern
begin

text \<open>
  The workspace of the coding agent and its file tools: resolving a requested path inside the
  workspace root, the protected names, the fingerprints of the files the agent has read or written
  (\<open>core/coding/context/workspace.py\<close>), and the tools that read, write and patch a file
  (\<open>core/coding/tools/file_tools.py\<close>).

  A path is the list of its components below \<open>/\<close>. How the operating system resolves symbolic links is
  an argument of the model, the field \<open>fs_resolve\<close>; nothing is assumed about it, so what is shown
  about containment holds whatever links the workspace holds. A file carries its text as decoded with
  \<open>errors="replace"\<close> and whether it is valid UTF-8. Device files and the permission errors of the
  operating system are not modelled.
\<close>

type_synonym path = "string list"
type_synonym fingerprint = "bool \<times> int \<times> int"

datatype node_kind = IsDirectory | IsFile

record fnode =
  n_kind :: node_kind
  n_text :: string
  n_utf8 :: bool
  n_mtime_ns :: int
  n_size :: int

record world =
  ws_root :: path
  fs_resolve :: "path \<Rightarrow> path result"
  fs_node :: "path \<Rightarrow> fnode option"
  read_fingerprints :: "path \<Rightarrow> fingerprint option"
  self_authored_fingerprints :: "path \<Rightarrow> fingerprint option"

section \<open>Paths\<close>

definition MAX_TOOL_OUTPUT :: nat where
  "MAX_TOOL_OUTPUT = 4000"

definition HIDDEN_CONTROL_DIR_NAMES :: "string list" where
  "HIDDEN_CONTROL_DIR_NAMES = [''.aws'', ''.cc-connect'', ''.claude'', ''.coding'', ''.codex'', ''.git'', ''.gnupg'', ''.idea'',
     ''.local'', ''.pico'', ''.playwright-cli'', ''.sage'', ''.ssh'', ''.superpowers'', ''.ustht'', ''.vscode'', ''.zcode'']"

definition PROTECTED_PATH_NAMES :: "string list" where
  "PROTECTED_PATH_NAMES = HIDDEN_CONTROL_DIR_NAMES @ [''.netrc'', ''.npmrc'', ''.pypirc'', ''credentials'', ''credentials.json'',
     ''id_ed25519'', ''id_rsa'']"

definition SAFE_ENV_SUFFIXES :: "string list" where
  "SAFE_ENV_SUFFIXES = [''.example'', ''.sample'', ''.template'']"

definition clip :: "string \<Rightarrow> nat \<Rightarrow> string" where
  "clip value limit =
     (if length value \<le> limit then value
      else take limit value @ [CHR 0x0A] @ ''...[truncated '' @ show_nat (length value - limit) @ '' chars]'')"

text \<open>\<open>resolved.relative_to(root)\<close>; the error is a \<open>ValueError\<close>.\<close>

definition relative_to :: "path \<Rightarrow> path \<Rightarrow> path result" where
  "relative_to p base =
     (if take (length base) p = base then Inr (drop (length base) p) else Inl (ValueError ''not in the subpath''))"

text \<open>\<open>Path(raw)\<close> of a string: whether it is absolute, and its components.\<close>

definition py_path :: "string \<Rightarrow> bool \<times> path" where
  "py_path raw = (is_absolute raw, path_parts raw)"

definition path_text :: "path \<Rightarrow> string" where
  "path_text p = ''/'' @ join_slash p"

definition internal_path :: "world \<Rightarrow> bool \<times> path \<Rightarrow> string \<Rightarrow> path result" where
  "internal_path w raw shown =
     (let candidate = (if fst raw then snd raw else ws_root w @ snd raw) in
      ebind (fs_resolve w candidate) (\<lambda>resolved.
      case relative_to resolved (ws_root w) of
        Inl _ \<Rightarrow> Inl (ValueError (''path escapes workspace root: '' @ shown))
      | Inr _ \<Rightarrow> Inr resolved))"

definition protected_parts :: "path \<Rightarrow> bool" where
  "protected_parts raw =
     (let parts = map lower (filter (\<lambda>p. p \<noteq> [] \<and> p \<noteq> ''.'') raw) in
      parts \<noteq> [] \<and> (list_ex (\<lambda>p. p \<in> set PROTECTED_PATH_NAMES) parts
        \<or> starts_with (last parts) ''.env'' \<and> \<not> list_ex (ends_with (last parts)) SAFE_ENV_SUFFIXES))"

definition is_protected :: "world \<Rightarrow> bool \<times> path \<Rightarrow> bool result" where
  "is_protected w raw =
     (if fst raw then ebind (fs_resolve w (snd raw)) (\<lambda>resolved. case relative_to resolved (ws_root w) of
          Inl _ \<Rightarrow> Inr True
        | Inr rel \<Rightarrow> Inr (protected_parts rel))
      else Inr (protected_parts (snd raw)))"

definition resolve_path :: "world \<Rightarrow> bool \<times> path \<Rightarrow> string \<Rightarrow> path result" where
  "resolve_path w raw shown =
     ebind (internal_path w raw shown) (\<lambda>resolved.
     ebind (relative_to resolved (ws_root w)) (\<lambda>relative.
     ebind (is_protected w (False, relative)) (\<lambda>protected.
     if protected then Inl (ValueError (''path is protected by workspace policy: '' @ shown)) else Inr resolved)))"

text \<open>\<open>workspace.path\<close> of a string, and of a path that was resolved before.\<close>

definition ws_path :: "world \<Rightarrow> string \<Rightarrow> path result" where
  "ws_path w raw = resolve_path w (py_path raw) raw"

definition ws_path_again :: "world \<Rightarrow> path \<Rightarrow> path result" where
  "ws_path_again w p = resolve_path w (True, p) (path_text p)"

definition ws_relative :: "world \<Rightarrow> path \<Rightarrow> string" where
  "ws_relative w p = (let rel = drop (length (ws_root w)) p in if rel = [] then ''.'' else join_slash rel)"

section \<open>Freshness\<close>

definition path_exists :: "world \<Rightarrow> path \<Rightarrow> bool" where
  "path_exists w p = (fs_node w p \<noteq> None)"

definition is_file :: "world \<Rightarrow> path \<Rightarrow> bool" where
  "is_file w p = (case fs_node w p of None \<Rightarrow> False | Some n \<Rightarrow> n_kind n = IsFile)"

definition is_dir :: "world \<Rightarrow> path \<Rightarrow> bool" where
  "is_dir w p = (case fs_node w p of None \<Rightarrow> False | Some n \<Rightarrow> n_kind n = IsDirectory)"

definition fingerprint :: "world \<Rightarrow> path \<Rightarrow> fingerprint" where
  "fingerprint w p = (case fs_node w p of None \<Rightarrow> (False, 0, 0) | Some n \<Rightarrow> (True, n_mtime_ns n, n_size n))"

definition mark_read :: "world \<Rightarrow> path \<Rightarrow> world result" where
  "mark_read w raw = ebind (ws_path_again w raw) (\<lambda>p.
     Inr (w\<lparr>read_fingerprints := (read_fingerprints w)(p \<mapsto> fingerprint w p)\<rparr>))"

definition mark_self_authored :: "world \<Rightarrow> path \<Rightarrow> world result" where
  "mark_self_authored w raw = ebind (ws_path_again w raw) (\<lambda>p.
     Inr (w\<lparr>self_authored_fingerprints := (self_authored_fingerprints w)(p \<mapsto> fingerprint w p)\<rparr>))"

definition has_fresh_read :: "world \<Rightarrow> path result \<Rightarrow> bool result" where
  "has_fresh_read w path = ebind path (\<lambda>p. Inr (read_fingerprints w p = Some (fingerprint w p)))"

definition has_self_authored_freshness :: "world \<Rightarrow> path result \<Rightarrow> bool result" where
  "has_self_authored_freshness w path = ebind path (\<lambda>p. Inr (self_authored_fingerprints w p = Some (fingerprint w p)))"

section \<open>Reading and writing text\<close>

text \<open>\<open>read_text\<close> opens the file with universal newlines; \<open>write_text\<close> encodes as UTF-8.\<close>

fun newlines :: "bool \<Rightarrow> string \<Rightarrow> string" where
  "newlines after_cr [] = []"
| "newlines after_cr (c # cs) =
     (if c = CHR 0x0A \<and> after_cr then newlines False cs
      else if c = CHR 0x0D then CHR 0x0A # newlines True cs else c # newlines False cs)"

definition universal_newlines :: "string \<Rightarrow> string" where
  "universal_newlines s = newlines False s"

definition utf8_size :: "string \<Rightarrow> int" where
  "utf8_size s = sum_list (map (\<lambda>c. if (of_char c :: nat) < 128 then 1 else 2) s)"

definition read_text :: "world \<Rightarrow> path \<Rightarrow> string result" where
  "read_text w p = (case fs_node w p of
     None \<Rightarrow> Inl (OSError ''No such file or directory'')
   | Some n \<Rightarrow> if n_kind n = IsDirectory then Inl (OSError ''Is a directory'') else Inr (universal_newlines (n_text n)))"

definition read_text_strict :: "world \<Rightarrow> path \<Rightarrow> string result" where
  "read_text_strict w p = ebind (read_text w p) (\<lambda>text.
     case fs_node w p of Some n \<Rightarrow> if n_utf8 n then Inr text else Inl (ValueError ''invalid utf-8'') | None \<Rightarrow> Inr text)"

definition make_dirs :: "int \<Rightarrow> path \<Rightarrow> world \<Rightarrow> world result" where
  "make_dirs now p w =
     (if list_ex (\<lambda>k. path_exists w (take k p) \<and> \<not> is_dir w (take k p)) [0..<Suc (length p)]
      then Inl (OSError ''Not a directory'')
      else Inr (w\<lparr>fs_node := (\<lambda>q. if fs_node w q = None \<and> take (length q) p = q
        then Some \<lparr>n_kind = IsDirectory, n_text = [], n_utf8 = True, n_mtime_ns = now, n_size = 0\<rparr> else fs_node w q)\<rparr>))"

definition write_text :: "int \<Rightarrow> path \<Rightarrow> string \<Rightarrow> world \<Rightarrow> world result" where
  "write_text now p text w =
     (if is_dir w p then Inl (OSError ''Is a directory'')
      else if \<not> is_dir w (butlast p) then Inl (OSError ''No such file or directory'')
      else Inr (w\<lparr>fs_node := (fs_node w)(p \<mapsto> \<lparr>n_kind = IsFile, n_text = text, n_utf8 = True, n_mtime_ns = now, n_size = utf8_size text\<rparr>)\<rparr>))"

section \<open>The file tools\<close>

record tool_result =
  tr_content :: string
  tr_is_error :: bool
  tr_error_code :: "string option"
  tr_retryable :: "bool option"

definition ok_result :: "string \<Rightarrow> tool_result" where
  "ok_result content = \<lparr>tr_content = content, tr_is_error = False, tr_error_code = None, tr_retryable = None\<rparr>"

definition error_result :: "string \<Rightarrow> tool_result" where
  "error_result content = \<lparr>tr_content = content, tr_is_error = True, tr_error_code = None, tr_retryable = None\<rparr>"

type_synonym handler = "int \<Rightarrow> world \<Rightarrow> pydict \<Rightarrow> world \<times> tool_result result"

definition arg :: "pydict \<Rightarrow> string \<Rightarrow> string" where
  "arg args key = py_str (dict_get args key)"

definition int_arg :: "pydict \<Rightarrow> string \<Rightarrow> int \<Rightarrow> int" where
  "int_arg args key fallback = (case dict_get args key of PInt n \<Rightarrow> n | _ \<Rightarrow> fallback)"

text \<open>\<open>str.splitlines\<close> on the code points below 256.\<close>

definition is_line_end :: "char \<Rightarrow> bool" where
  "is_line_end c = ((of_char c :: nat) \<in> {10, 11, 12, 13, 28, 29, 30, 133})"

fun split_lines :: "bool \<Rightarrow> string \<Rightarrow> string list" where
  "split_lines after_cr [] = []"
| "split_lines after_cr (c # cs) =
     (if c = CHR 0x0A \<and> after_cr then split_lines False cs
      else if is_line_end c then [] # split_lines (c = CHR 0x0D) cs
      else (case cs of [] \<Rightarrow> [[c]]
        | d # _ \<Rightarrow> if is_line_end d then [c] # tl (split_lines False cs)
            else (case split_lines False cs of [] \<Rightarrow> [[c]] | l # ls \<Rightarrow> (c # l) # ls)))"

fun join_lines :: "string list \<Rightarrow> string" where
  "join_lines [] = []"
| "join_lines [l] = l"
| "join_lines (l # ls) = l @ [CHR 0x0A] @ join_lines ls"

definition numbered_line :: "int \<Rightarrow> string \<Rightarrow> string" where
  "numbered_line number line =
     (let n = show_int number in replicate (4 - length n) (CHR '' '') @ n @ '': '' @ line)"

definition line_range :: "int \<Rightarrow> int \<Rightarrow> string list \<Rightarrow> string list" where
  "line_range start stop ls = take (nat (stop - (start - 1))) (drop (nat (start - 1)) ls)"

definition read_file :: handler where
  "read_file now w args =
     (case ebind (ws_path w (arg args ''path'')) (\<lambda>p.
        ebind (read_text w p) (\<lambda>text.
        let start = int_arg args ''start'' 1; stop = int_arg args ''end'' 200;
          ls = line_range start stop (split_lines False text);
          body = join_lines (map (\<lambda>(k, line). numbered_line (start + int k) line) (enumerate 0 ls)) in
        ebind (mark_read w p) (\<lambda>w'.
        Inr (w', ok_result (clip (''# '' @ ws_relative w p @ [CHR 0x0A] @ body) MAX_TOOL_OUTPUT))))) of
        Inl e \<Rightarrow> (w, Inl e)
      | Inr (w', r) \<Rightarrow> (w', Inr r))"

text \<open>
  The two writing tools change the file system before they record the fingerprint; an error between
  the two leaves the written file.
\<close>

definition written :: "world \<Rightarrow> path \<Rightarrow> string \<Rightarrow> world \<times> tool_result result" where
  "written w p content = (case mark_self_authored w p of
     Inl e \<Rightarrow> (w, Inl e)
   | Inr w' \<Rightarrow> (w', Inr (ok_result content)))"

definition write_file :: handler where
  "write_file now w args = (case ws_path w (arg args ''path'') of
     Inl e \<Rightarrow> (w, Inl e)
   | Inr p \<Rightarrow> (case make_dirs now (butlast p) w of
       Inl e \<Rightarrow> (w, Inl e)
     | Inr w1 \<Rightarrow> (case write_text now p (arg args ''content'') w1 of
         Inl e \<Rightarrow> (w1, Inl e)
       | Inr w2 \<Rightarrow> written w2 p (''wrote '' @ ws_relative w p @ '' ('' @ show_nat (length (arg args ''content'')) @ '' chars)''))))"

definition patch_file :: handler where
  "patch_file now w args = (case ws_path w (arg args ''path'') of
     Inl e \<Rightarrow> (w, Inl e)
   | Inr p \<Rightarrow> (case read_text_strict w p of
       Inl e \<Rightarrow> (w, Inl e)
     | Inr text \<Rightarrow> (case write_text now p (replace_first (arg args ''old_text'') (arg args ''new_text'') text) w of
         Inl e \<Rightarrow> (w, Inl e)
       | Inr w1 \<Rightarrow> written w1 p (''patched '' @ ws_relative w p))))"

end
