(* ===== verification/Tool_Registry.thy ===== *)
theory Tool_Registry
  imports Tool_Workspace
begin

text \<open>
  The coding tools: their argument schemas (\<open>core/coding/tools/schemas.py\<close> and the schemas of
  \<open>travel_tools.py\<close>), the table of tool definitions, the validation of a call against the workspace
  (\<open>core/coding/tools/registry.py\<close>) and the execution of one tool (\<open>core/coding/tools/base.py\<close>).

  pydantic is not part of the repository. Its conversion of one value to a field type is the argument
  \<open>lax\<close>; the fields, their order, defaults and validators are those of the schema classes. The
  handlers of the tools that do not work on files are arguments too.
\<close>

section \<open>Schemas\<close>

datatype field_type = TStr | TInt | TOptStr | TStrs | TOptStrOrStrs | TStrOrStrs | TStrOrStrDict | TOptIntOrStr | TRouteMode

type_synonym lax = "field_type \<Rightarrow> pyval \<Rightarrow> string + pyval"

record field_spec =
  f_name :: string
  f_type :: field_type
  f_default :: "pyval option"
  f_check :: "pyval \<Rightarrow> string option"

definition plain :: "string \<Rightarrow> field_type \<Rightarrow> pyval option \<Rightarrow> field_spec" where
  "plain name type value = \<lparr>f_name = name, f_type = type, f_default = value, f_check = (\<lambda>_. None)\<rparr>"

definition checked :: "string \<Rightarrow> field_type \<Rightarrow> pyval option \<Rightarrow> (pyval \<Rightarrow> string option) \<Rightarrow> field_spec" where
  "checked name type value check = \<lparr>f_name = name, f_type = type, f_default = value, f_check = check\<rparr>"

definition not_blank :: "string \<Rightarrow> pyval \<Rightarrow> string option" where
  "not_blank name v = (if strip (py_str v) = [] then Some (name @ '' must not be empty'') else None)"

definition not_empty :: "string \<Rightarrow> pyval \<Rightarrow> string option" where
  "not_empty name v = (if py_str v = [] then Some (name @ '' must not be empty'') else None)"

definition at_most :: "string \<Rightarrow> nat \<Rightarrow> pyval \<Rightarrow> string option" where
  "at_most name n v = (if n < length (py_str v) then Some (name @ '' must not exceed '' @ show_nat n @ '' characters'') else None)"

definition one_of :: "string list \<Rightarrow> string \<Rightarrow> pyval \<Rightarrow> string option" where
  "one_of allowed message v = (case v of PStr s \<Rightarrow> if s \<in> set allowed then None else Some message | _ \<Rightarrow> None)"

fun both :: "(pyval \<Rightarrow> string option) list \<Rightarrow> pyval \<Rightarrow> string option" where
  "both [] v = None"
| "both (c # cs) v = (case c v of Some m \<Rightarrow> Some m | None \<Rightarrow> both cs v)"

definition int_in :: "int \<Rightarrow> int \<Rightarrow> string \<Rightarrow> string \<Rightarrow> pyval \<Rightarrow> string option" where
  "int_in low high too_low too_high v = (case v of
     PInt n \<Rightarrow> if n < low then Some too_low else if high < n then Some too_high else None | _ \<Rightarrow> None)"

definition ge_le :: "int \<Rightarrow> int \<Rightarrow> pyval \<Rightarrow> string option" where
  "ge_le low high = int_in low high (''Input should be greater than or equal to '' @ show_int low)
     (''Input should be less than or equal to '' @ show_int high)"

definition start_ge_one :: "pyval \<Rightarrow> string option" where
  "start_ge_one v = (case v of PInt n \<Rightarrow> if n < 1 then Some ''start must be >= 1'' else None | _ \<Rightarrow> None)"

definition timeout_in_range :: "pyval \<Rightarrow> string option" where
  "timeout_in_range = int_in 1 120 ''timeout must be in [1, 120]'' ''timeout must be in [1, 120]''"

definition items_between :: "nat \<Rightarrow> nat \<Rightarrow> pyval \<Rightarrow> string option" where
  "items_between low high v = (case v of
     PList xs \<Rightarrow>
       if length xs < low then Some (''List should have at least '' @ show_nat low @ '' item after validation'')
       else if high < length xs then Some (''List should have at most '' @ show_nat high @ '' items after validation'')
       else None
   | _ \<Rightarrow> None)"

definition memory_topic :: "pyval \<Rightarrow> string option" where
  "memory_topic = one_of [''project-conventions'', ''decisions''] ''topic must be project-conventions or decisions''"

definition ListFilesArgs :: "field_spec list" where
  "ListFilesArgs = [plain ''path'' TStr (Some (PStr ''.''))]"

definition ReadFileArgs :: "field_spec list" where
  "ReadFileArgs = [plain ''path'' TStr None, checked ''start'' TInt (Some (PInt 1)) start_ge_one,
     plain ''end'' TInt (Some (PInt 200))]"

definition end_ge_start :: "pydict \<Rightarrow> string option" where
  "end_ge_start d = (if int_arg d ''end'' 200 < int_arg d ''start'' 1 then Some ''invalid line range'' else None)"

definition SearchArgs :: "field_spec list" where
  "SearchArgs = [checked ''pattern'' TStr None (not_blank ''pattern''), plain ''path'' TStr (Some (PStr ''.''))]"

definition RunShellArgs :: "field_spec list" where
  "RunShellArgs = [checked ''command'' TStr None (not_blank ''command''),
     checked ''timeout'' TInt (Some (PInt 20)) timeout_in_range]"

definition WriteFileArgs :: "field_spec list" where
  "WriteFileArgs = [plain ''path'' TStr None, plain ''content'' TStr None]"

definition PatchFileArgs :: "field_spec list" where
  "PatchFileArgs = [plain ''path'' TStr None, checked ''old_text'' TStr None (not_empty ''old_text''), plain ''new_text'' TStr None]"

definition TodoAddArgs :: "field_spec list" where
  "TodoAddArgs = [checked ''content'' TStr None (not_blank ''content''), plain ''status'' TStr (Some (PStr ''pending'')),
     plain ''priority'' TStr (Some (PStr ''normal'')), plain ''note'' TStr (Some (PStr ''''))]"

definition TodoUpdateArgs :: "field_spec list" where
  "TodoUpdateArgs = [checked ''todo_id'' TStr None (not_blank ''todo_id''), plain ''status'' TOptStr (Some PNone),
     plain ''content'' TOptStr (Some PNone), plain ''priority'' TOptStr (Some PNone), plain ''note'' TOptStr (Some PNone)]"

definition EnterPlanModeArgs :: "field_spec list" where
  "EnterPlanModeArgs = [checked ''topic'' TStr None (not_blank ''topic''), plain ''path'' TOptStr (Some PNone)]"

definition AgentArgs :: "field_spec list" where
  "AgentArgs = [checked ''description'' TStr None (not_blank ''description''), checked ''prompt'' TStr None (not_blank ''prompt''),
     checked ''subagent_type'' TStr (Some (PStr ''worker'')) (one_of [''worker'', ''Explore''] ''subagent_type must be worker or Explore''),
     plain ''write_scope'' TOptStrOrStrs (Some PNone)]"

definition SendMessageArgs :: "field_spec list" where
  "SendMessageArgs = [checked ''to'' TStr None (not_blank ''to''), checked ''message'' TStr None (not_blank ''message'')]"

definition TaskStopArgs :: "field_spec list" where
  "TaskStopArgs = [checked ''task_id'' TStr None (not_blank ''task_id'')]"

definition ToolSearchArgs :: "field_spec list" where
  "ToolSearchArgs = [checked ''query'' TStr None (not_blank ''query'')]"

definition KnowledgeSearchArgs :: "field_spec list" where
  "KnowledgeSearchArgs = [checked ''query'' TStr None (both [not_blank ''query'', at_most ''query'' 2000]),
     checked ''top_k'' TInt (Some (PInt 8)) (ge_le 1 20), checked ''token_budget'' TInt (Some (PInt 3000)) (ge_le 256 20000)]"

definition KnowledgeLearnArgs :: "field_spec list" where
  "KnowledgeLearnArgs = [checked ''topic'' TStr None (both [not_blank ''topic'', at_most ''topic'' 160]),
     checked ''citation_ids'' TStrs None (items_between 1 8)]"

definition RememberArgs :: "field_spec list" where
  "RememberArgs = [checked ''fact'' TStr None (not_blank ''fact''),
     checked ''topic'' TStr (Some (PStr ''project-conventions'')) memory_topic]"

definition DreamArgs :: "field_spec list" where
  "DreamArgs = [checked ''topic'' TOptStr (Some PNone) memory_topic]"

definition GenerateItineraryArgs :: "field_spec list" where
  "GenerateItineraryArgs = [checked ''destination'' TStr None (not_blank ''destination''), plain ''budget_total'' TInt (Some (PInt 500)),
     plain ''preferences'' TStrOrStrs (Some (PStr '''')), plain ''dates'' TStrOrStrDict (Some (PStr '''')),
     plain ''duration_days'' TOptIntOrStr (Some PNone)]"

definition SearchAttractionsArgs :: "field_spec list" where
  "SearchAttractionsArgs = [plain ''city'' TStr None, plain ''keywords'' TStr (Some (PStr '''')), plain ''category'' TStr (Some (PStr '''')),
     checked ''limit'' TInt (Some (PInt 20)) (ge_le 1 50)]"

definition WeatherArgs :: "field_spec list" where
  "WeatherArgs = [plain ''city'' TStr None]"

definition ForecastArgs :: "field_spec list" where
  "ForecastArgs = [plain ''city'' TStr None, checked ''days'' TInt (Some (PInt 7)) (ge_le 1 7)]"

definition GeocodeArgs :: "field_spec list" where
  "GeocodeArgs = [plain ''address'' TStr None, plain ''city'' TStr (Some (PStr ''''))]"

definition SearchNearbyArgs :: "field_spec list" where
  "SearchNearbyArgs = [plain ''location'' TStr None, checked ''radius'' TInt (Some (PInt 1000)) (ge_le 1 50000),
     plain ''keywords'' TStr (Some (PStr '''')), plain ''types'' TStr (Some (PStr '''')), checked ''limit'' TInt (Some (PInt 20)) (ge_le 1 50)]"

definition RouteArgs :: "field_spec list" where
  "RouteArgs = [plain ''origin'' TStr None, plain ''destination'' TStr None, plain ''mode'' TRouteMode (Some (PStr ''walking''))]"

section \<open>Validating arguments\<close>

text \<open>
  \<open>model_validate\<close> reports the first failing field; a missing field without a default shows its
  quoted name. Defaults are taken as they are. \<open>model_dump\<close> lists the fields in their order.
\<close>

definition field_value :: "lax \<Rightarrow> pydict \<Rightarrow> field_spec \<Rightarrow> string + (pyval \<times> pyval)" where
  "field_value lax args f = (case map_of args (PStr (f_name f)) of
     None \<Rightarrow> (case f_default f of
         None \<Rightarrow> Inl ([CHR 0x27] @ f_name f @ [CHR 0x27])
       | Some v \<Rightarrow> Inr (PStr (f_name f), v))
   | Some raw \<Rightarrow> ebind (lax (f_type f) raw) (\<lambda>v. case f_check f v of
         Some message \<Rightarrow> Inl message
       | None \<Rightarrow> Inr (PStr (f_name f), v)))"

record tool_def =
  td_name :: string
  td_risky :: bool
  td_fields :: "field_spec list"
  td_model_check :: "pydict \<Rightarrow> string option"
  td_category :: string
  td_requires_approval :: "bool option"
  td_timeout :: int
  td_deferred :: bool

definition model_validate :: "lax \<Rightarrow> tool_def \<Rightarrow> pydict \<Rightarrow> pydict result" where
  "model_validate lax d args = (case emap (field_value lax args) (td_fields d) of
     Inl message \<Rightarrow> Inl (ValueError message)
   | Inr dumped \<Rightarrow> (case td_model_check d dumped of
         Some message \<Rightarrow> Inl (ValueError message)
       | None \<Rightarrow> Inr dumped))"

definition define_tool :: "string \<Rightarrow> bool \<Rightarrow> field_spec list \<Rightarrow> string \<Rightarrow> bool \<Rightarrow> tool_def" where
  "define_tool name risky schema category deferred = \<lparr>td_name = name, td_risky = risky, td_fields = schema,
     td_model_check = (\<lambda>_. None), td_category = category, td_requires_approval = None, td_timeout = 30, td_deferred = deferred\<rparr>"

text \<open>The tool definitions in the order in which their modules are imported.\<close>

definition file_tool_defs :: "tool_def list" where
  "file_tool_defs = [define_tool ''list_files'' False ListFilesArgs ''file'' False,
     (define_tool ''read_file'' False ReadFileArgs ''file'' False)\<lparr>td_model_check := end_ge_start\<rparr>,
     define_tool ''search'' False SearchArgs ''file'' False,
     define_tool ''write_file'' True WriteFileArgs ''file'' False,
     define_tool ''patch_file'' True PatchFileArgs ''file'' False]"

definition shell_tool_def :: tool_def where
  "shell_tool_def = (define_tool ''run_shell'' True RunShellArgs ''shell'' False)\<lparr>td_timeout := 130\<rparr>"

definition todo_tool_defs :: "tool_def list" where
  "todo_tool_defs = [define_tool ''todo_add'' False TodoAddArgs ''todo'' True,
     define_tool ''todo_update'' False TodoUpdateArgs ''todo'' True, define_tool ''todo_list'' False [] ''todo'' True]"

definition plan_tool_defs :: "tool_def list" where
  "plan_tool_defs = [define_tool ''enter_plan_mode'' False EnterPlanModeArgs ''plan'' True,
     define_tool ''exit_plan_mode'' False [] ''plan'' True]"

definition agent_tool_defs :: "tool_def list" where
  "agent_tool_defs = [define_tool ''agent'' False AgentArgs ''agent'' True,
     define_tool ''send_message'' False SendMessageArgs ''agent'' True, define_tool ''task_stop'' False TaskStopArgs ''agent'' True]"

definition travel_tool_defs :: "tool_def list" where
  "travel_tool_defs = [(define_tool ''generate_itinerary'' False GenerateItineraryArgs ''travel'' True)\<lparr>td_timeout := 90\<rparr>,
     define_tool ''search_attractions'' False SearchAttractionsArgs ''travel'' True,
     define_tool ''get_weather'' False WeatherArgs ''travel'' True, define_tool ''get_forecast'' False ForecastArgs ''travel'' True,
     define_tool ''geocode'' False GeocodeArgs ''travel'' True, define_tool ''search_nearby'' False SearchNearbyArgs ''travel'' True,
     define_tool ''get_route'' False RouteArgs ''travel'' True]"

definition memory_tool_defs :: "tool_def list" where
  "memory_tool_defs = [(define_tool ''remember'' True RememberArgs ''memory'' True)\<lparr>td_requires_approval := Some True\<rparr>,
     define_tool ''dream'' False DreamArgs ''memory'' True]"

definition knowledge_tool_defs :: "tool_def list" where
  "knowledge_tool_defs = [(define_tool ''knowledge_search'' False KnowledgeSearchArgs ''knowledge'' False)\<lparr>td_requires_approval := Some False\<rparr>,
     (define_tool ''knowledge_learn'' True KnowledgeLearnArgs ''knowledge'' False)\<lparr>td_requires_approval := Some True\<rparr>]"

definition tool_search_definition :: tool_def where
  "tool_search_definition = define_tool ''tool_search'' False ToolSearchArgs ''meta'' False"

definition TOOL_DEFINITIONS :: "tool_def list" where
  "TOOL_DEFINITIONS = file_tool_defs @ [shell_tool_def] @ todo_tool_defs @ plan_tool_defs @ agent_tool_defs @ travel_tool_defs
     @ memory_tool_defs @ knowledge_tool_defs"

definition find_definition :: "string \<Rightarrow> tool_def option" where
  "find_definition name = fetchone (\<lambda>d. td_name d = name) TOOL_DEFINITIONS"

definition validate_tool_arguments :: "lax \<Rightarrow> string \<Rightarrow> pydict \<Rightarrow> pydict result" where
  "validate_tool_arguments lax name args =
     (case (if find_definition name = None \<and> name = ''tool_search'' then Some tool_search_definition else find_definition name) of
        None \<Rightarrow> Inl (ValueError (''unknown tool: '' @ name))
      | Some d \<Rightarrow> model_validate lax d args)"

definition WORKSPACE_PATH_TOOLS :: "string list" where
  "WORKSPACE_PATH_TOOLS = [''list_files'', ''read_file'', ''search'', ''write_file'', ''patch_file'']"

definition validate_tool_preflight :: "lax \<Rightarrow> world \<Rightarrow> string \<Rightarrow> pydict \<Rightarrow> pydict result" where
  "validate_tool_preflight lax w name args =
     ebind (validate_tool_arguments lax name args) (\<lambda>validated.
     if name \<notin> set WORKSPACE_PATH_TOOLS then Inr validated
     else ebind (ws_path w (arg validated ''path'')) (\<lambda>_. Inr validated))"

text \<open>The constraints that depend on the workspace.\<close>

definition check_workspace :: "world \<Rightarrow> string \<Rightarrow> pydict \<Rightarrow> unit result" where
  "check_workspace w name validated =
     (let path = ws_path w (arg validated ''path'') in
      if name = ''list_files'' then ebind path (\<lambda>p. require (is_dir w p) (ValueError ''path is not a directory''))
      else if name = ''read_file'' then ebind path (\<lambda>p. require (is_file w p) (ValueError ''path is not a file''))
      else if name = ''search'' then ebind path (\<lambda>_. Inr ())
      else if name = ''write_file'' then
        ebind path (\<lambda>p. require (\<not> (path_exists w p \<and> is_dir w p)) (ValueError ''path is a directory''))
      else if name = ''patch_file'' then
        ebind path (\<lambda>p. ebind (require (is_file w p) (ValueError ''path is not a file'')) (\<lambda>_.
        ebind (read_text w p) (\<lambda>text. let count = count_sub (arg validated ''old_text'') text in
        require (count = 1) (ValueError (''old_text must occur exactly once, found '' @ show_nat count)))))
      else Inr ())"

definition validate_tool :: "lax \<Rightarrow> world \<Rightarrow> string \<Rightarrow> pydict \<Rightarrow> pydict result" where
  "validate_tool lax w name args =
     ebind (validate_tool_preflight lax w name args) (\<lambda>validated.
     ebind (check_workspace w name validated) (\<lambda>_. Inr validated))"

section \<open>Running a tool\<close>

text \<open>
  \<open>requires_approval\<close> defaults to \<open>risky\<close>. A tool has its own argument validator only when it is
  adapted from outside, an MCP tool for instance.
\<close>

record registered_tool =
  rt_name :: string
  rt_risky :: bool
  rt_requires_approval :: bool
  rt_runner :: handler
  rt_timeout :: int
  rt_deferred :: bool
  rt_argument_validator :: "(pydict \<Rightarrow> pydict result) option"

definition rt_read_only :: "registered_tool \<Rightarrow> bool" where
  "rt_read_only t = (\<not> rt_risky t)"

definition validate_arguments :: "registered_tool \<Rightarrow> pydict \<Rightarrow> pydict result" where
  "validate_arguments t args = (case rt_argument_validator t of Some v \<Rightarrow> v args | None \<Rightarrow> Inr args)"

fun error_text :: "py_error \<Rightarrow> string" where
  "error_text (ValueError m) = m"
| "error_text (RuntimeError m) = m"
| "error_text (OSError m) = m"
| "error_text (TypeError m) = m"
| "error_text (KeyError m) = [CHR 0x27] @ m @ [CHR 0x27]"
| "error_text _ = []"

text \<open>
  \<open>future.result(timeout)\<close> on the pool of threads. A run that exceeds its time is reported as timed out; its
  thread goes on, so its effect on the workspace is that of the run. A call that is still waiting for a
  thread when its time is over is cancelled and has no effect.
\<close>

datatype timing = InTime | TimesOut | StillQueued

definition run_tool :: "registered_tool \<Rightarrow> timing \<Rightarrow> int \<Rightarrow> world \<Rightarrow> pydict \<Rightarrow> world \<times> tool_result" where
  "run_tool t timing now w args = (case validate_arguments t args of
     Inl e \<Rightarrow> (w, \<lparr>tr_content = error_text e, tr_is_error = True, tr_error_code = Some ''invalid_arguments'', tr_retryable = Some False\<rparr>)
   | Inr validated \<Rightarrow> (case rt_runner t now w validated of (w', r) \<Rightarrow>
       (if timing = StillQueued then w else w', if timing \<noteq> InTime
          then \<lparr>tr_content = ''tool timed out after '' @ show_int (rt_timeout t) @ ''s'', tr_is_error = True,
                 tr_error_code = Some ''tool_timeout'', tr_retryable = Some True\<rparr>
          else (case r of
              Inl e \<Rightarrow> \<lparr>tr_content = error_text e, tr_is_error = True, tr_error_code = Some ''tool_runtime_error'', tr_retryable = Some False\<rparr>
            | Inr result \<Rightarrow> result))))"

text \<open>The handlers: the file tools of the model, the others from outside it.\<close>

definition handler_of :: "(string \<Rightarrow> handler) \<Rightarrow> string \<Rightarrow> handler" where
  "handler_of others name = (if name = ''read_file'' then read_file else if name = ''write_file'' then write_file
     else if name = ''patch_file'' then patch_file else others name)"

definition make_runner :: "lax \<Rightarrow> (string \<Rightarrow> handler) \<Rightarrow> string \<Rightarrow> handler" where
  "make_runner lax others name now w args = (case validate_tool lax w name args of
     Inl e \<Rightarrow> (w, Inl e)
   | Inr validated \<Rightarrow> handler_of others name now w validated)"

definition register :: "lax \<Rightarrow> (string \<Rightarrow> handler) \<Rightarrow> tool_def \<Rightarrow> registered_tool" where
  "register lax others d = \<lparr>rt_name = td_name d, rt_risky = td_risky d,
     rt_requires_approval = (case td_requires_approval d of None \<Rightarrow> td_risky d | Some b \<Rightarrow> b),
     rt_runner = make_runner lax others (td_name d), rt_timeout = td_timeout d, rt_deferred = td_deferred d,
     rt_argument_validator = None\<rparr>"

definition build_tool_registry :: "lax \<Rightarrow> (string \<Rightarrow> handler) \<Rightarrow> (string \<times> registered_tool) list" where
  "build_tool_registry lax others = map (\<lambda>d. (td_name d, register lax others d)) (TOOL_DEFINITIONS @ [tool_search_definition])"

definition get_active_tools :: "(string \<times> registered_tool) list \<Rightarrow> string list \<Rightarrow> (string \<times> registered_tool) list" where
  "get_active_tools tools activated = filter (\<lambda>(name, t). \<not> rt_deferred t \<or> name \<in> set activated) tools"

text \<open>
  \<open>tool_search\<close> activates every deferred tool whose name, description or category contains the query;
  the descriptions are texts outside the model.
\<close>

definition search_matches :: "(string \<Rightarrow> string) \<Rightarrow> string list \<Rightarrow> string \<Rightarrow> tool_def list" where
  "search_matches describe activated query =
     (let q = lower (strip query) in
      filter (\<lambda>d. td_deferred d \<and> td_name d \<notin> set activated
        \<and> (contains q (lower (td_name d)) \<or> contains q (lower (describe (td_name d))) \<or> contains q (lower (td_category d))))
        TOOL_DEFINITIONS)"

definition tool_search :: "(string \<Rightarrow> string) \<Rightarrow> string list \<Rightarrow> string \<Rightarrow> string list" where
  "tool_search describe activated query = activated @ map td_name (search_matches describe activated query)"

section \<open>Validated arguments\<close>

definition is_pyint :: "pyval \<Rightarrow> bool" where
  "is_pyint v = (case v of PInt _ \<Rightarrow> True | _ \<Rightarrow> False)"

definition is_strs :: "pyval \<Rightarrow> bool" where
  "is_strs v = (case v of PList xs \<Rightarrow> list_all is_pystr xs | _ \<Rightarrow> False)"

text \<open>\<open>dict[str, str]\<close>: keys and values are strings.\<close>

definition is_str_dict :: "pyval \<Rightarrow> bool" where
  "is_str_dict v = (case v of PDict kvs \<Rightarrow> list_all (\<lambda>(k, x). is_pystr k \<and> is_pystr x) kvs | _ \<Rightarrow> False)"

fun has_type :: "field_type \<Rightarrow> pyval \<Rightarrow> bool" where
  "has_type TStr v = is_pystr v"
| "has_type TInt v = is_pyint v"
| "has_type TOptStr v = (v = PNone \<or> is_pystr v)"
| "has_type TStrs v = is_strs v"
| "has_type TOptStrOrStrs v = (v = PNone \<or> is_pystr v \<or> is_strs v)"
| "has_type TStrOrStrs v = (is_pystr v \<or> is_strs v)"
| "has_type TStrOrStrDict v = (is_pystr v \<or> is_str_dict v)"
| "has_type TOptIntOrStr v = (v = PNone \<or> is_pyint v \<or> is_pystr v)"
| "has_type TRouteMode v = (v \<in> {PStr ''walking'', PStr ''driving'', PStr ''transit''})"

lemma is_pystrE: "is_pystr v \<Longrightarrow> (\<And>s. v = PStr s \<Longrightarrow> P) \<Longrightarrow> P"
  by (cases v) simp_all

text \<open>
  What the code relies on of pydantic's conversion: its results have the field's type, and a value that
  has the type already is taken as it is.
\<close>

definition lax_ok :: "lax \<Rightarrow> bool" where
  "lax_ok lax \<longleftrightarrow> (\<forall>t v v'. lax t v = Inr v' \<longrightarrow> has_type t v') \<and> (\<forall>t v. has_type t v \<longrightarrow> lax t v = Inr v)"

definition field_ok :: "field_spec \<Rightarrow> pyval \<Rightarrow> bool" where
  "field_ok f v \<longleftrightarrow> has_type (f_type f) v \<and> f_check f v = None"

definition schema_ok :: "field_spec list \<Rightarrow> bool" where
  "schema_ok fs \<longleftrightarrow> distinct (map f_name fs) \<and> (\<forall>f \<in> set fs. \<forall>v. f_default f = Some v \<longrightarrow> field_ok f v)"

text \<open>
  Where the value of a field comes from: the converted value of an argument, accepted by the validator, or the
  default, which pydantic takes unchecked.
\<close>

definition field_got :: "lax \<Rightarrow> pydict \<Rightarrow> field_spec \<Rightarrow> pyval \<Rightarrow> bool" where
  "field_got lax args f x \<longleftrightarrow> (case map_of args (PStr (f_name f)) of
     Some raw \<Rightarrow> lax (f_type f) raw = Inr x \<and> f_check f x = None
   | None \<Rightarrow> f_default f = Some x)"

lemma field_value_got: "field_value lax args f = Inr kv \<longleftrightarrow> fst kv = PStr (f_name f) \<and> field_got lax args f (snd kv)"
  by (cases kv) (auto simp: field_value_def field_got_def split: option.splits)

text \<open>Conversion is stable: what it returns is converted to itself, and so is every value of the declared type.\<close>

definition lax_stable :: "lax \<Rightarrow> bool" where
  "lax_stable lax \<longleftrightarrow> (\<forall>t v v'. lax t v = Inr v' \<longrightarrow> lax t v' = Inr v') \<and> (\<forall>t v. has_type t v \<longrightarrow> lax t v = Inr v)"

lemma lax_ok_stable: "lax_ok lax \<Longrightarrow> lax_stable lax"
  by (auto simp: lax_ok_def lax_stable_def)

lemma field_value_again:
  assumes "lax_stable lax" and "\<And>v. f_default f = Some v \<Longrightarrow> field_ok f v" and "field_got lax args f v"
    and "map_of d (PStr (f_name f)) = Some v"
  shows "field_value lax d f = Inr (PStr (f_name f), v)"
proof -
  have "lax (f_type f) v = Inr v \<and> f_check f v = None"
    using assms(1-3) by (auto simp: field_got_def lax_stable_def field_ok_def split: option.splits)
  then show ?thesis using assms(4) by (simp add: field_value_def)
qed

lemma fields_dumped:
  assumes "schema_ok fs" and "emap (field_value lax args) fs = Inr d"
  shows "map fst d = map (PStr \<circ> f_name) fs"
    and "f \<in> set fs \<Longrightarrow> \<exists>v. map_of d (PStr (f_name f)) = Some v \<and> field_got lax args f v"
proof -
  have len: "length d = length fs" and nth: "\<And>i. i < length fs \<Longrightarrow> field_value lax args (fs ! i) = Inr (d ! i)"
    using assms(2) by (auto simp: emap_Inr_iff)
  have ok: "fst (d ! i) = PStr (f_name (fs ! i)) \<and> field_got lax args (fs ! i) (snd (d ! i))" if "i < length fs" for i
    using nth [OF that] by (simp add: field_value_got)
  then show names: "map fst d = map (PStr \<circ> f_name) fs"
    using len by (intro nth_equalityI) auto
  assume "f \<in> set fs"
  then obtain i where i: "i < length fs" "f = fs ! i" by (metis in_set_conv_nth)
  have "distinct (map fst d)"
    using assms(1) unfolding names schema_ok_def by (simp add: distinct_map inj_on_def)
  moreover have "(PStr (f_name f), snd (d ! i)) \<in> set d"
    using ok [OF i(1)] i len by (metis nth_mem prod.collapse)
  ultimately show "\<exists>v. map_of d (PStr (f_name f)) = Some v \<and> field_got lax args f v"
    using ok [OF i(1)] i by (auto intro!: map_of_is_SomeI)
qed

lemma fields_again:
  assumes "lax_stable lax" and "schema_ok fs" and "emap (field_value lax args) fs = Inr d"
  shows "emap (field_value lax d) fs = Inr d"
proof -
  have "length d = length fs" using assms(3) by (simp add: emap_Inr_iff)
  moreover have "field_value lax d (fs ! i) = Inr (d ! i)" if i: "i < length fs" for i
  proof -
    obtain v where v: "map_of d (PStr (f_name (fs ! i))) = Some v" "field_got lax args (fs ! i) v"
      using fields_dumped(2) [OF assms(2,3) nth_mem [OF i]] by blast
    have "distinct (map fst d)"
      using assms(2) unfolding fields_dumped(1) [OF assms(2,3)] schema_ok_def by (simp add: distinct_map inj_on_def)
    moreover have key: "fst (d ! i) = PStr (f_name (fs ! i))"
      using fields_dumped(1) [OF assms(2,3)] i by (metis (no_types, lifting) length_map nth_map o_apply)
    ultimately have "map_of d (PStr (f_name (fs ! i))) = Some (snd (d ! i))"
      using i \<open>length d = length fs\<close> by (metis map_of_is_SomeI nth_mem prod.collapse)
    moreover have "f_default (fs ! i) = Some x \<Longrightarrow> field_ok (fs ! i) x" for x
      using assms(2) i by (auto simp: schema_ok_def)
    ultimately show ?thesis using field_value_again [OF assms(1) _ v(2,1)] v(1) key by (simp add: prod_eq_iff)
  qed
  ultimately show ?thesis by (simp add: emap_Inr_iff)
qed

lemmas schema_defs = ListFilesArgs_def ReadFileArgs_def SearchArgs_def RunShellArgs_def WriteFileArgs_def PatchFileArgs_def
  TodoAddArgs_def TodoUpdateArgs_def EnterPlanModeArgs_def AgentArgs_def SendMessageArgs_def TaskStopArgs_def ToolSearchArgs_def
  KnowledgeSearchArgs_def KnowledgeLearnArgs_def RememberArgs_def DreamArgs_def GenerateItineraryArgs_def SearchAttractionsArgs_def
  WeatherArgs_def ForecastArgs_def GeocodeArgs_def SearchNearbyArgs_def RouteArgs_def

lemmas tool_table_defs = TOOL_DEFINITIONS_def file_tool_defs_def shell_tool_def_def todo_tool_defs_def plan_tool_defs_def
  agent_tool_defs_def travel_tool_defs_def memory_tool_defs_def knowledge_tool_defs_def

lemmas check_defs = start_ge_one_def timeout_in_range_def int_in_def ge_le_def one_of_def memory_topic_def

lemma schemas_ok: "\<forall>d \<in> set TOOL_DEFINITIONS. schema_ok (td_fields d)" "schema_ok (td_fields tool_search_definition)"
  by (simp_all add: tool_table_defs tool_search_definition_def define_tool_def schema_defs plain_def checked_def schema_ok_def field_ok_def
      check_defs is_pyint_def)

lemma definition_ok: "find_definition name = Some d \<Longrightarrow> schema_ok (td_fields d)"
  unfolding find_definition_def using schemas_ok(1) fetchone_SomeD by fast

lemma got_ok:
  assumes "lax_ok lax" and "schema_ok fs" and "f \<in> set fs" and "field_got lax args f v"
  shows "field_ok f v"
  using assms by (auto simp: field_got_def lax_ok_def field_ok_def schema_ok_def split: option.splits)

text \<open>What a validation that succeeds has found.\<close>

lemma arguments_got:
  assumes "find_definition name = Some d" and "validate_tool_arguments lax name args = Inr v"
  shows "map fst v = map (PStr \<circ> f_name) (td_fields d)"
    and "f \<in> set (td_fields d) \<Longrightarrow> \<exists>x. map_of v (PStr (f_name f)) = Some x \<and> field_got lax args f x"
    and "td_model_check d v = None"
    and "lax_stable lax \<Longrightarrow> validate_tool_arguments lax name v = Inr v"
proof -
  have e: "emap (field_value lax args) (td_fields d) = Inr v" and c: "td_model_check d v = None"
    using assms by (auto simp: validate_tool_arguments_def model_validate_def split: sum.splits option.splits)
  note ok = definition_ok [OF assms(1)]
  show "map fst v = map (PStr \<circ> f_name) (td_fields d)" by (rule fields_dumped(1) [OF ok e])
  show "f \<in> set (td_fields d) \<Longrightarrow> \<exists>x. map_of v (PStr (f_name f)) = Some x \<and> field_got lax args f x"
    by (rule fields_dumped(2) [OF ok e])
  show "td_model_check d v = None" by (rule c)
  assume "lax_stable lax"
  from fields_again [OF this ok e] show "validate_tool_arguments lax name v = Inr v"
    using c assms(1) by (simp add: validate_tool_arguments_def model_validate_def)
qed

lemma arguments_validated:
  assumes "lax_ok lax" and "find_definition name = Some d" and "validate_tool_arguments lax name args = Inr v"
  shows "map fst v = map (PStr \<circ> f_name) (td_fields d)"
    and "f \<in> set (td_fields d) \<Longrightarrow> \<exists>x. map_of v (PStr (f_name f)) = Some x \<and> field_ok f x"
    and "validate_tool_arguments lax name v = Inr v"
  using arguments_got [OF assms(2,3)] got_ok [OF assms(1) definition_ok [OF assms(2)]] lax_ok_stable [OF assms(1)] by blast+

lemma tool_arguments: "validate_tool lax w name args = Inr v \<Longrightarrow> validate_tool_arguments lax name args = Inr v"
  by (auto simp: validate_tool_def validate_tool_preflight_def split: if_splits)

lemma validate_tool_again:
  assumes "validate_tool_arguments lax name v = Inr v" and "validate_tool lax w name args = Inr v"
  shows "validate_tool lax w name v = Inr v"
  using assms by (auto simp: validate_tool_def validate_tool_preflight_def split: if_splits)

text \<open>
  C21: what a handler receives. The validated arguments are the fields of the tool's schema in their order,
  and nothing else of what the model sent. A field that was sent has the value pydantic converts it to, and its
  validator accepts that value; a field that was not sent has its default, and although pydantic takes defaults
  unchecked, every default in the schemas has the declared type and passes the validator. The check across
  fields holds, and validating the result a second time, as the runner of a tool does, changes nothing. The conversion
  of one value is pydantic's: it is only assumed that a value it returned, and a value that has the
  declared type, converts to itself.
\<close>

theorem validated_arguments_typed:
  assumes "lax_stable lax" and "find_definition name = Some d" and "validate_tool lax w name args = Inr v"
  shows "map fst v = map (PStr \<circ> f_name) (td_fields d)
    \<and> (\<forall>f \<in> set (td_fields d). \<exists>x. map_of v (PStr (f_name f)) = Some x \<and>
        (case map_of args (PStr (f_name f)) of
           Some raw \<Rightarrow> lax (f_type f) raw = Inr x \<and> f_check f x = None
         | None \<Rightarrow> f_default f = Some x \<and> field_ok f x))
    \<and> td_model_check d v = None \<and> validate_tool lax w name v = Inr v"
proof -
  note got = arguments_got [OF assms(2) tool_arguments [OF assms(3)]]
  have defaults: "field_ok f x" if "f \<in> set (td_fields d)" "f_default f = Some x" for f x
    using definition_ok [OF assms(2)] that by (simp add: schema_ok_def)
  have "\<exists>x. map_of v (PStr (f_name f)) = Some x \<and> (case map_of args (PStr (f_name f)) of
      Some raw \<Rightarrow> lax (f_type f) raw = Inr x \<and> f_check f x = None | None \<Rightarrow> f_default f = Some x \<and> field_ok f x)"
    if "f \<in> set (td_fields d)" for f
    using got(2) [OF that] defaults [OF that] by (auto simp: field_got_def split: option.splits)
  then show ?thesis using got(1,3) validate_tool_again [OF got(4) [OF assms(1)] assms(3)] by blast
qed

end
