(* ===== verification/Tool_Approval.thy ===== *)
theory Tool_Approval
  imports Json_Payload Text_Pattern Interfaces
begin

text \<open>
  The approval queue of the coding agent and the detection of dangerous shell commands
  (\<open>core/coding/tool_executor/approval.py\<close>).

  A waiting tool call keeps a reference to its entry while other requests resolve it, so the entries
  are a store and the queues hold references into it. An entry's \<open>threading.Event\<close> is its flag
  \<open>ap_event\<close>. The dictionaries with list or set values are total functions whose default is empty, as
  every access of the source goes through \<open>get\<close> or \<open>setdefault\<close>.
\<close>

section \<open>Dangerous commands\<close>

definition not_separator :: rx where
  "not_separator = NoneOf [CHR 0x0A, CHR '';'', CHR ''|'', CHR ''&'']"

definition start_or_space :: rx where
  "start_or_space = Alt Start Space"

definition shell_word :: rx where
  "shell_word = Seq (Alt (Lits ''sh'') (Lits ''bash'')) Boundary"

definition DANGEROUS_PATTERNS :: "(rx \<times> string \<times> string) list" where
  "DANGEROUS_PATTERNS =
    [(Seqs [Boundary, Lits ''rm'', Plus Space, Lit (CHR ''-''), Star not_separator, Lit (CHR ''r'')],
        ''Recursive delete command requires approval.'', ''rm_recursive''),
     (Seqs [Boundary, Lits ''git'', Plus Space, Lits ''reset'', Plus Space, Lits ''--hard'', Boundary],
        ''Hard git reset can discard work.'', ''git_reset_hard''),
     (Seqs [Boundary, Lits ''git'', Plus Space, Lits ''push'', Boundary, Star not_separator, Lits ''--force''],
        ''Force push can overwrite remote history.'', ''git_force_push''),
     (Seqs [Boundary, Lits ''chmod'', Plus Space, Lits ''777'', Boundary],
        ''World-writable permission change requires approval.'', ''chmod_777''),
     (Seqs [Boundary, Lits ''curl'', Boundary, Star AnyChar, Lit (CHR ''|''), Star Space, shell_word],
        ''Piping remote curl output to shell requires approval.'', ''curl_pipe_shell''),
     (Seqs [Boundary, Lits ''wget'', Boundary, Star AnyChar, Lit (CHR ''|''), Star Space, shell_word],
        ''Piping remote wget output to shell requires approval.'', ''wget_pipe_shell''),
     (Seqs [start_or_space, Lits ''sudo'', Alt Space End], ''sudo command requires approval.'', ''sudo''),
     (Seqs [start_or_space, Plus (Lit (CHR ''>'')), Star Space, Lits ''/etc/''],
        ''Writing into /etc requires approval.'', ''write_etc''),
     (Seqs [start_or_space, Plus (Lit (CHR ''>'')), Star Space, Lits ''~/'', AnyChar, Lits ''ssh/''],
        ''Writing into ~/.ssh requires approval.'', ''write_ssh''),
     (Seqs [Boundary, Lits ''docker'', Plus Space, Lits ''compose'', Plus Space, Lits ''down'', Boundary],
        ''Stopping compose services requires approval.'', ''docker_compose_down''),
     (Seqs [Boundary, Lits ''kill'', Plus Space, Lits ''-9'', Boundary],
        ''Force-killing processes requires approval.'', ''kill_9'')]"

fun first_pattern :: "(rx \<times> string \<times> string) list \<Rightarrow> string \<Rightarrow> (string \<times> string) option" where
  "first_pattern [] command = None"
| "first_pattern ((r, description, key) # ps) command =
     (if re_search r command then Some (description, key) else first_pattern ps command)"

text \<open>\<open>None\<close> stands for the result \<open>(False, "", "")\<close>.\<close>

definition check_dangerous_command :: "string \<Rightarrow> (string \<times> string) option" where
  "check_dangerous_command command = first_pattern DANGEROUS_PATTERNS command"

section \<open>The approval manager\<close>

datatype approval_choice = Once | ForSession | Always | Deny

record approval_entry =
  ap_id :: string
  ap_session_id :: string
  ap_tool :: string
  ap_args :: pydict
  ap_description :: string
  ap_pattern_key :: string
  ap_event :: bool
  ap_result :: "approval_choice option"

record approvals =
  am_entries :: "approval_entry list"
  am_queues :: "string \<Rightarrow> nat list"
  am_session_approved :: "string \<Rightarrow> string list"
  am_graph_approval_ids :: "(string \<times> string) list"
  am_resolved :: "string \<times> string \<Rightarrow> approval_choice option"
  am_run_ids :: "string \<times> string \<Rightarrow> string option"

definition new_approvals :: approvals where
  "new_approvals = \<lparr>am_entries = [], am_queues = (\<lambda>_. []), am_session_approved = (\<lambda>_. []), am_graph_approval_ids = [],
     am_resolved = (\<lambda>_. None), am_run_ids = (\<lambda>_. None)\<rparr>"

definition find_entry_locked :: "approvals \<Rightarrow> string \<Rightarrow> string \<Rightarrow> nat option" where
  "find_entry_locked m session approval_id = fetchone (\<lambda>r. ap_id (am_entries m ! r) = approval_id) (am_queues m session)"

definition new_entry :: "string \<Rightarrow> string \<Rightarrow> string \<Rightarrow> pydict \<Rightarrow> string \<Rightarrow> string \<Rightarrow> approval_choice option \<Rightarrow> approval_entry" where
  "new_entry approval_id session tool args description pattern_key result =
     \<lparr>ap_id = approval_id, ap_session_id = session, ap_tool = tool, ap_args = args, ap_description = description,
      ap_pattern_key = pattern_key, ap_event = (result \<noteq> None), ap_result = result\<rparr>"

text \<open>A submission returns the reference of its entry; \<open>uuid\<close> is the drawn \<open>uuid4().hex[:12]\<close>.\<close>

definition enqueue :: "approvals \<Rightarrow> approval_entry \<Rightarrow> approvals \<times> nat" where
  "enqueue m e = (m\<lparr>am_entries := am_entries m @ [e],
     am_queues := (am_queues m)(ap_session_id e := am_queues m (ap_session_id e) @ [length (am_entries m)])\<rparr>, length (am_entries m))"

definition submit ::
  "approvals \<Rightarrow> string \<Rightarrow> string \<Rightarrow> string \<Rightarrow> pydict \<Rightarrow> string \<Rightarrow> string \<Rightarrow> string option \<Rightarrow> string option \<Rightarrow> approvals \<times> nat" where
  "submit m uuid session tool args description pattern_key approval_id run_id =
     (if truthy approval_id then
        (let aid = the approval_id; key = (session, aid) in
         case find_entry_locked m session aid of
           Some r \<Rightarrow> (m, r)
         | None \<Rightarrow> (case am_resolved m key of
             Some choice \<Rightarrow> (m\<lparr>am_entries := am_entries m @ [new_entry aid session tool args description pattern_key (Some choice)]\<rparr>,
               length (am_entries m))
           | None \<Rightarrow> enqueue (m\<lparr>am_graph_approval_ids := key # am_graph_approval_ids m,
                 am_run_ids := (if truthy run_id then (am_run_ids m)(key := run_id) else am_run_ids m)\<rparr>)
               (new_entry aid session tool args description pattern_key None)))
      else enqueue m (new_entry (''appr_'' @ uuid) session tool args description pattern_key None))"

definition restore_pending :: "approvals \<Rightarrow> string \<Rightarrow> pydict \<Rightarrow> (approvals \<times> nat) result" where
  "restore_pending m uuid payload =
     ebind (require (\<not> list_ex (\<lambda>k. strip (get_str payload k) = [])
         [''session_id'', ''approval_id'', ''tool'', ''description'', ''pattern_key''])
       (ValueError ''durable approval payload is incomplete'')) (\<lambda>_.
     Inr (submit m uuid (get_str payload ''session_id'') (get_str payload ''tool'')
       (case dict_get payload ''args'' of PDict d \<Rightarrow> d | _ \<Rightarrow> []) (get_str payload ''description'')
       (get_str payload ''pattern_key'') (Some (get_str payload ''approval_id''))
       (if get_str payload ''run_id'' = [] then None else Some (get_str payload ''run_id''))))"

definition run_id_for :: "approvals \<Rightarrow> string \<Rightarrow> string \<Rightarrow> string option" where
  "run_id_for m session approval_id = am_run_ids m (session, approval_id)"

definition decide :: "approval_choice \<Rightarrow> approval_entry \<Rightarrow> approval_entry" where
  "decide choice e = e\<lparr>ap_result := Some choice, ap_event := True\<rparr>"

text \<open>A decision on a tool that changes what the agent remembers holds for one call only.\<close>

definition narrowed :: "approval_entry \<Rightarrow> approval_choice \<Rightarrow> approval_choice" where
  "narrowed e choice = (if ap_tool e \<in> {''knowledge_learn'', ''remember''} \<and> choice \<in> {ForSession, Always} then Once else choice)"

definition resolve :: "approvals \<Rightarrow> string \<Rightarrow> string \<Rightarrow> approval_choice \<Rightarrow> approvals \<times> bool" where
  "resolve m session approval_id choice0 = (case find_entry_locked m session approval_id of
     None \<Rightarrow> (m, False)
   | Some r \<Rightarrow>
       (let e = am_entries m ! r; choice = narrowed e choice0; key = (session, approval_id) in
        (m\<lparr>am_entries := (am_entries m)[r := decide choice e],
           am_session_approved := (if choice \<in> {ForSession, Always}
             then (am_session_approved m)(session := ap_pattern_key e # am_session_approved m session) else am_session_approved m),
           am_resolved := (if key \<in> set (am_graph_approval_ids m) then (am_resolved m)(key \<mapsto> choice) else am_resolved m),
           am_queues := (am_queues m)(session := filter (\<lambda>q. ap_id (am_entries m ! q) \<noteq> approval_id) (am_queues m session))\<rparr>,
         True)))"

definition pending :: "approvals \<Rightarrow> string \<Rightarrow> approval_entry option" where
  "pending m session = (case am_queues m session of [] \<Rightarrow> None | r # _ \<Rightarrow> Some (am_entries m ! r))"

definition consume_resolution :: "approvals \<Rightarrow> string \<Rightarrow> string \<Rightarrow> approvals \<times> approval_choice option" where
  "consume_resolution m session approval_id =
     (let key = (session, approval_id) in
      (m\<lparr>am_resolved := (am_resolved m)(key := None), am_graph_approval_ids := removeAll key (am_graph_approval_ids m),
         am_run_ids := (am_run_ids m)(key := None)\<rparr>, am_resolved m key))"

definition cancel_session :: "approvals \<Rightarrow> string \<Rightarrow> approvals" where
  "cancel_session m session =
     (let queue = am_queues m session; denied = (\<lambda>r. (session, ap_id (am_entries m ! r))) in
      m\<lparr>am_queues := (am_queues m)(session := []),
        am_entries := map (\<lambda>r. if r \<in> set queue then decide Deny (am_entries m ! r) else am_entries m ! r)
          [0..<length (am_entries m)],
        am_resolved := (\<lambda>key. if list_ex (\<lambda>r. denied r = key) queue \<and> key \<in> set (am_graph_approval_ids m)
          then Some Deny else am_resolved m key)\<rparr>)"

definition is_session_approved :: "approvals \<Rightarrow> string \<Rightarrow> string \<Rightarrow> bool" where
  "is_session_approved m session pattern_key = (pattern_key \<in> set (am_session_approved m session))"

text \<open>\<open>wait_for\<close>: the look at the queue, and the decision read after the wait.\<close>

definition wait_target :: "approvals \<Rightarrow> string \<Rightarrow> string \<Rightarrow> nat + approval_choice option" where
  "wait_target m session approval_id = (case find_entry_locked m session approval_id of
     None \<Rightarrow> Inr (am_resolved m (session, approval_id))
   | Some r \<Rightarrow> Inl r)"

definition wait_result :: "approvals \<Rightarrow> nat \<Rightarrow> approval_choice option" where
  "wait_result m r = (if ap_event (am_entries m ! r) then ap_result (am_entries m ! r) else None)"

section \<open>The operations other requests perform\<close>

datatype approval_op =
    ASubmit string string string pydict string string "string option" "string option"
  | ARestore string pydict
  | AResolve string string approval_choice
  | AConsume string string
  | ACancel string

fun approval_exec :: "approvals \<Rightarrow> approval_op \<Rightarrow> approvals" where
  "approval_exec m (ASubmit uuid session tool args description pattern_key approval_id run_id) =
     fst (submit m uuid session tool args description pattern_key approval_id run_id)"
| "approval_exec m (ARestore uuid payload) = (case restore_pending m uuid payload of Inl _ \<Rightarrow> m | Inr r \<Rightarrow> fst r)"
| "approval_exec m (AResolve session approval_id choice) = fst (resolve m session approval_id choice)"
| "approval_exec m (AConsume session approval_id) = fst (consume_resolution m session approval_id)"
| "approval_exec m (ACancel session) = cancel_session m session"

definition approval_run :: "approvals \<Rightarrow> approval_op list \<Rightarrow> approvals" where
  "approval_run m ops = foldl approval_exec m ops"

section \<open>The queue as a decision board\<close>

text \<open>Every queued reference is an undecided entry of its session, and a decided entry is the one that woke its waiter.\<close>

definition approvals_wf :: "approvals \<Rightarrow> bool" where
  "approvals_wf m \<longleftrightarrow>
     (\<forall>s r. r \<in> set (am_queues m s) \<longrightarrow> r < length (am_entries m) \<and> \<not> ap_event (am_entries m ! r)
        \<and> ap_session_id (am_entries m ! r) = s)
     \<and> (\<forall>e \<in> set (am_entries m). ap_event e \<longleftrightarrow> ap_result e \<noteq> None)"

definition entry_decision :: "approvals \<Rightarrow> nat \<Rightarrow> approval_choice option" where
  "entry_decision m r = (if r < length (am_entries m) then ap_result (am_entries m ! r) else None)"

text \<open>
  What was asked, which no later operation changes, and what a lasting decision on the entry covers:
  the pattern in its session, and nothing for the tools whose decisions are narrowed.
\<close>

definition asked :: "approval_entry \<Rightarrow> string \<times> string \<times> string \<times> pydict \<times> string" where
  "asked e = (ap_id e, ap_session_id e, ap_tool e, ap_args e, ap_pattern_key e)"

definition MEMORY_TOOLS :: "string list" where
  "MEMORY_TOOLS = [''knowledge_learn'', ''remember'']"

definition approval_subject :: "approvals \<Rightarrow> nat \<Rightarrow> (string \<times> string) option" where
  "approval_subject m r = (if r < length (am_entries m) \<and> ap_tool (am_entries m ! r) \<notin> set MEMORY_TOOLS
     then Some (ap_session_id (am_entries m ! r), ap_pattern_key (am_entries m ! r)) else None)"

definition approved_pattern :: "approvals \<Rightarrow> string \<times> string \<Rightarrow> bool" where
  "approved_pattern m = (\<lambda>(session, pattern_key). is_session_approved m session pattern_key)"

definition lasting :: "approval_choice \<Rightarrow> bool" where
  "lasting c = (c = ForSession \<or> c = Always)"

lemma find_entry_SomeD:
  "find_entry_locked m session aid = Some r \<Longrightarrow> r \<in> set (am_queues m session) \<and> ap_id (am_entries m ! r) = aid"
  unfolding find_entry_locked_def by (drule fetchone_SomeD) simp

lemma approvals_wf_queueD:
  "approvals_wf m \<Longrightarrow> r \<in> set (am_queues m s) \<Longrightarrow>
     r < length (am_entries m) \<and> ap_event (am_entries m ! r) = False \<and> ap_session_id (am_entries m ! r) = s
     \<and> ap_result (am_entries m ! r) = None"
  unfolding approvals_wf_def by (metis nth_mem)

lemma approvals_wfI:
  assumes "\<And>s r. r \<in> set (am_queues m s) \<Longrightarrow>
      r < length (am_entries m) \<and> \<not> ap_event (am_entries m ! r) \<and> ap_session_id (am_entries m ! r) = s"
    and "\<And>e. e \<in> set (am_entries m) \<Longrightarrow> ap_event e \<longleftrightarrow> ap_result e \<noteq> None"
  shows "approvals_wf m"
  using assms unfolding approvals_wf_def by blast

lemma wf_event: "approvals_wf m \<Longrightarrow> e \<in> set (am_entries m) \<Longrightarrow> ap_event e \<longleftrightarrow> ap_result e \<noteq> None"
  unfolding approvals_wf_def by blast

lemma wf_enqueue:
  assumes "approvals_wf m" and "ap_result e = None" and "\<not> ap_event e"
  shows "approvals_wf (fst (enqueue m e))"
proof (rule approvals_wfI)
  fix s r
  assume "r \<in> set (am_queues (fst (enqueue m e)) s)"
  then have "r \<in> set (am_queues m s) \<or> r = length (am_entries m) \<and> s = ap_session_id e"
    by (auto simp: enqueue_def split: if_splits)
  then show "r < length (am_entries (fst (enqueue m e))) \<and> \<not> ap_event (am_entries (fst (enqueue m e)) ! r)
      \<and> ap_session_id (am_entries (fst (enqueue m e)) ! r) = s"
    using approvals_wf_queueD [OF assms(1), of r s] assms(3) by (auto simp: enqueue_def nth_append)
next
  fix x
  assume "x \<in> set (am_entries (fst (enqueue m e)))"
  then show "ap_event x \<longleftrightarrow> ap_result x \<noteq> None"
    using wf_event [OF assms(1), of x] assms(2,3) by (auto simp: enqueue_def)
qed

lemma new_entry_sel [simp]:
  "ap_id (new_entry a s t args d k c) = a" "ap_session_id (new_entry a s t args d k c) = s"
  "ap_tool (new_entry a s t args d k c) = t" "ap_pattern_key (new_entry a s t args d k c) = k"
  "ap_event (new_entry a s t args d k c) \<longleftrightarrow> c \<noteq> None" "ap_result (new_entry a s t args d k c) = c"
  by (simp_all add: new_entry_def)

text \<open>The three shapes of a submission.\<close>

lemma submit_cases:
  assumes "submit m uuid session tool args description key aid run = (m', r)"
  obtains (old) "m' = m" and "find_entry_locked m session (the aid) = Some r"
  | (recorded) c where "am_resolved m (session, the aid) = Some c" and "r = length (am_entries m)"
      and "m' = m\<lparr>am_entries := am_entries m @ [new_entry (the aid) session tool args description key (Some c)]\<rparr>"
  | (queued) ids runs i where "r = length (am_entries m)"
      and "m' = fst (enqueue (m\<lparr>am_graph_approval_ids := ids, am_run_ids := runs\<rparr>)
        (new_entry i session tool args description key None))"
proof (cases "truthy aid")
  case True
  show ?thesis
  proof (cases "find_entry_locked m session (the aid)")
    case None
    then show ?thesis
      using assms True recorded queued
      by (cases "am_resolved m (session, the aid)") (auto simp: submit_def Let_def enqueue_def)
  qed (use assms True old in \<open>auto simp: submit_def Let_def\<close>)
next
  case False
  then show ?thesis
    using assms queued [where ids = "am_graph_approval_ids m" and runs = "am_run_ids m"] by (auto simp: submit_def enqueue_def)
qed

lemma wf_submit: "approvals_wf m \<Longrightarrow> approvals_wf (fst (submit m uuid session tool args description key aid run))"
proof (cases "submit m uuid session tool args description key aid run" rule: prod.exhaust)
  case (Pair m' r)
  assume wf: "approvals_wf m"
  from Pair show ?thesis
  proof (cases rule: submit_cases)
    case (recorded c)
    have "approvals_wf m'"
    proof (rule approvals_wfI)
      fix s q
      assume "q \<in> set (am_queues m' s)"
      then show "q < length (am_entries m') \<and> \<not> ap_event (am_entries m' ! q) \<and> ap_session_id (am_entries m' ! q) = s"
        using approvals_wf_queueD [OF wf, of q s] recorded(3) by (auto simp: nth_append)
    qed (use wf_event [OF wf] recorded(3) in auto)
    then show ?thesis using Pair by simp
  next
    case (queued ids runs i)
    have "approvals_wf (m\<lparr>am_graph_approval_ids := ids, am_run_ids := runs\<rparr>)"
      by (rule approvals_wfI) (use approvals_wf_queueD [OF wf] wf_event [OF wf] in auto)
    then show ?thesis using wf_enqueue queued(2) Pair by simp
  qed (use Pair wf in simp)
qed

lemma wf_resolve: "approvals_wf m \<Longrightarrow> approvals_wf (fst (resolve m session aid choice))"
proof (cases "find_entry_locked m session aid")
  case (Some r)
  assume wf: "approvals_wf m"
  let ?m = "fst (resolve m session aid choice)"
  note r = find_entry_SomeD [OF Some]
  show ?thesis
  proof (rule approvals_wfI)
    fix s q
    assume "q \<in> set (am_queues ?m s)"
    then have q: "q \<in> set (am_queues m s)" and "s = session \<Longrightarrow> ap_id (am_entries m ! q) \<noteq> aid"
      using Some by (auto simp: resolve_def Let_def split: if_splits)
    moreover have "s = session" if "q = r"
      using approvals_wf_queueD [OF wf q] approvals_wf_queueD [OF wf conjunct1 [OF r]] that by simp
    ultimately have "q \<noteq> r" using r by auto
    then show "q < length (am_entries ?m) \<and> \<not> ap_event (am_entries ?m ! q) \<and> ap_session_id (am_entries ?m ! q) = s"
      using approvals_wf_queueD [OF wf q] Some by (auto simp: resolve_def Let_def)
  next
    fix e
    assume "e \<in> set (am_entries ?m)"
    then have "e \<in> set (am_entries m) \<or> (\<exists>c x. e = decide c x)"
      using Some set_update_subset_insert by (fastforce simp: resolve_def Let_def)
    then show "ap_event e \<longleftrightarrow> ap_result e \<noteq> None"
      using wf_event [OF wf] by (auto simp: decide_def)
  qed
qed (simp add: resolve_def)

lemma wf_cancel: "approvals_wf m \<Longrightarrow> approvals_wf (cancel_session m session)"
proof (rule approvals_wfI)
  fix s q
  assume wf: "approvals_wf m" and "q \<in> set (am_queues (cancel_session m session) s)"
  then have q: "q \<in> set (am_queues m s)" and ne: "s \<noteq> session"
    by (auto simp: cancel_session_def Let_def split: if_splits)
  have "q \<notin> set (am_queues m session)"
    using approvals_wf_queueD [OF wf q] approvals_wf_queueD [OF wf, of q session] ne by auto
  then show "q < length (am_entries (cancel_session m session)) \<and> \<not> ap_event (am_entries (cancel_session m session) ! q)
      \<and> ap_session_id (am_entries (cancel_session m session) ! q) = s"
    using approvals_wf_queueD [OF wf q] by (simp add: cancel_session_def Let_def)
next
  fix e
  assume wf: "approvals_wf m" and "e \<in> set (am_entries (cancel_session m session))"
  then have "e \<in> set (am_entries m) \<or> (\<exists>c x. e = decide c x)"
    by (auto simp: cancel_session_def Let_def)
  then show "ap_event e \<longleftrightarrow> ap_result e \<noteq> None"
    using wf_event [OF wf] by (auto simp: decide_def)
qed

lemma wf_consume: "approvals_wf m \<Longrightarrow> approvals_wf (fst (consume_resolution m session aid))"
  by (rule approvals_wfI) (auto simp: consume_resolution_def Let_def dest: approvals_wf_queueD wf_event)

lemma restore_is_submit:
  "restore_pending m uuid payload = Inr x \<Longrightarrow>
     \<exists>session tool args description key aid run. x = submit m uuid session tool args description key aid run"
  unfolding restore_pending_def by (simp only: ebind_eq_Inr sum.inject) blast

lemma wf_restore: "approvals_wf m \<Longrightarrow> restore_pending m uuid payload = Inr x \<Longrightarrow> approvals_wf (fst x)"
  using restore_is_submit [of m uuid payload x] wf_submit by blast

lemma approval_exec_wf [inv_intros]: "approvals_wf m \<Longrightarrow> approvals_wf (approval_exec m op)"
  by (cases op) (simp_all add: wf_submit wf_resolve wf_consume wf_cancel wf_restore split: sum.split)

lemma approvals_wf_new [simp]: "approvals_wf new_approvals"
  by (simp add: approvals_wf_def new_approvals_def)

text \<open>Entries only accumulate; a decided one is never touched again.\<close>

definition entries_kept :: "approvals \<Rightarrow> approvals \<Rightarrow> bool" where
  "entries_kept m m' \<longleftrightarrow> length (am_entries m) \<le> length (am_entries m')
     \<and> (\<forall>r < length (am_entries m). asked (am_entries m' ! r) = asked (am_entries m ! r)
        \<and> (ap_result (am_entries m ! r) \<noteq> None \<longrightarrow> ap_result (am_entries m' ! r) = ap_result (am_entries m ! r)))"

lemma entries_kept_append: "am_entries m' = am_entries m @ es \<Longrightarrow> entries_kept m m'"
  by (auto simp: entries_kept_def asked_def nth_append)

lemma kept_submit: "entries_kept m (fst (submit m uuid session tool args description key aid run))"
proof (cases "submit m uuid session tool args description key aid run" rule: prod.exhaust)
  case (Pair m' r)
  have "\<exists>es. am_entries m' = am_entries m @ es"
    using Pair by (cases rule: submit_cases) (auto simp: enqueue_def)
  then show ?thesis using Pair by (auto intro: entries_kept_append)
qed

lemma decide_sel [simp]:
  "ap_session_id (decide c e) = ap_session_id e" "ap_pattern_key (decide c e) = ap_pattern_key e"
  "ap_tool (decide c e) = ap_tool e" "ap_result (decide c e) = Some c" "ap_event (decide c e)"
  "ap_id (decide c e) = ap_id e" "asked (decide c e) = asked e"
  by (simp_all add: decide_def asked_def)

lemma kept_resolve: "approvals_wf m \<Longrightarrow> entries_kept m (fst (resolve m session aid choice))"
proof (cases "find_entry_locked m session aid")
  case (Some r)
  assume wf: "approvals_wf m"
  have r: "r < length (am_entries m)" "ap_result (am_entries m ! r) = None"
    using approvals_wf_queueD [OF wf] find_entry_SomeD [OF Some] by blast+
  define e where "e = decide (narrowed (am_entries m ! r) choice) (am_entries m ! r)"
  have "am_entries (fst (resolve m session aid choice)) = (am_entries m)[r := e]"
    using Some by (simp add: resolve_def Let_def e_def)
  moreover have nth: "(am_entries m)[r := e] ! q = (if q = r then e else am_entries m ! q)" for q
    using r by simp
  ultimately show ?thesis
    using r by (simp add: entries_kept_def nth) (simp add: e_def)
qed (simp add: resolve_def entries_kept_def)

lemma kept_cancel: "approvals_wf m \<Longrightarrow> entries_kept m (cancel_session m session)"
  using approvals_wf_queueD [of m _ session]
  by (auto simp: entries_kept_def cancel_session_def Let_def)

lemma kept_refl [simp]: "entries_kept m m"
  by (simp add: entries_kept_def)

lemma kept_exec: "approvals_wf m \<Longrightarrow> entries_kept m (approval_exec m op)"
proof (cases op)
  case (ARestore uuid payload)
  have "entries_kept m (fst x)" if "restore_pending m uuid payload = Inr x" for x
    using restore_is_submit [OF that] kept_submit by blast
  then show ?thesis using ARestore by (simp split: sum.split)
next
  case (AConsume session aid)
  then show ?thesis by (auto intro!: entries_kept_append [of _ _ "[]"] simp: consume_resolution_def Let_def)
qed (simp_all add: kept_submit kept_resolve kept_cancel)

lemma kept_subject: "entries_kept m m' \<Longrightarrow> approval_subject m r = Some k \<Longrightarrow> approval_subject m' r = Some k"
  by (auto simp: entries_kept_def approval_subject_def asked_def split: if_splits)

lemma kept_decision: "entries_kept m m' \<Longrightarrow> entry_decision m r = Some c \<Longrightarrow> entry_decision m' r = Some c"
  by (auto simp: entries_kept_def entry_decision_def split: if_splits)

lemma approved_submit [simp]:
  "am_session_approved (fst (submit m uuid session tool args description key aid run)) = am_session_approved m"
proof (cases "submit m uuid session tool args description key aid run" rule: prod.exhaust)
  case (Pair m' r)
  then have "am_session_approved m' = am_session_approved m"
    by (cases rule: submit_cases) (auto simp: enqueue_def)
  then show ?thesis using Pair by simp
qed

lemma approved_resolve:
  assumes wf: "approvals_wf m" and new: "is_session_approved (fst (resolve m session aid choice)) s k"
    and old: "\<not> is_session_approved m s k"
  shows "\<exists>r c. approval_subject (fst (resolve m session aid choice)) r = Some (s, k)
    \<and> entry_decision (fst (resolve m session aid choice)) r = Some c \<and> lasting c"
proof (cases "find_entry_locked m session aid")
  case (Some r)
  let ?e = "am_entries m ! r"
  have r: "r < length (am_entries m)" "ap_session_id ?e = session"
    using approvals_wf_queueD [OF wf] find_entry_SomeD [OF Some] by blast+
  from new old Some have c: "lasting (narrowed ?e choice)" "s = session" "k = ap_pattern_key ?e"
    by (auto simp: resolve_def Let_def is_session_approved_def lasting_def split: if_splits)
  then have "ap_tool ?e \<notin> set MEMORY_TOOLS"
    by (auto simp: narrowed_def lasting_def MEMORY_TOOLS_def split: if_splits)
  then have "approval_subject (fst (resolve m session aid choice)) r = Some (s, k)"
    and "entry_decision (fst (resolve m session aid choice)) r = Some (narrowed ?e choice)"
    using r c Some by (simp_all add: approval_subject_def entry_decision_def resolve_def Let_def)
  then show ?thesis using c by blast
qed (use new old in \<open>simp add: resolve_def\<close>)

lemma approved_exec:
  assumes "approvals_wf m" and "is_session_approved (approval_exec m op) s k" and "\<not> is_session_approved m s k"
  shows "\<exists>r c. approval_subject (approval_exec m op) r = Some (s, k)
    \<and> entry_decision (approval_exec m op) r = Some c \<and> lasting c"
proof (cases op)
  case (ARestore uuid payload)
  have "am_session_approved (fst x) = am_session_approved m" if "restore_pending m uuid payload = Inr x" for x
    using restore_is_submit [OF that] approved_submit by blast
  then show ?thesis using assms ARestore by (simp add: is_session_approved_def split: sum.splits)
qed (use assms approved_resolve in \<open>auto simp: is_session_approved_def consume_resolution_def Let_def cancel_session_def\<close>)

text \<open>One step of the queue, by whatever request.\<close>

definition approval_step :: "approvals \<Rightarrow> approvals \<Rightarrow> bool" where
  "approval_step m m' \<longleftrightarrow> (\<exists>op. m' = approval_exec m op)"

interpretation board: decision_board approval_step approvals_wf entry_decision approval_subject approved_pattern lasting
proof unfold_locales
  fix m m' r c
  assume "approvals_wf m" and "approval_step m m'" and "entry_decision m r = Some c"
  then show "entry_decision m' r = Some c"
    using kept_decision kept_exec unfolding approval_step_def by blast
next
  fix m m' k
  assume "approvals_wf m" and "approval_step m m'" and "approved_pattern m' k" and "\<not> approved_pattern m k"
  then show "\<exists>r c. approval_subject m' r = Some k \<and> entry_decision m' r = Some c \<and> lasting c"
    using approved_exec by (cases k) (auto simp: approval_step_def approved_pattern_def)
qed (auto simp: approval_step_def intro: approval_exec_wf kept_subject kept_exec)

lemma approval_run_steps: "approval_step\<^sup>*\<^sup>* m (approval_run m ops)"
  unfolding approval_run_def
  by (induction ops rule: rev_induct) (auto simp: approval_step_def intro: rtranclp.rtrancl_into_rtrancl)

lemma approval_run_wf: "approvals_wf m \<Longrightarrow> approvals_wf (approval_run m ops)"
  using board.board_inv approval_run_steps by blast

section \<open>What the first pattern finds\<close>

lemma recursive_delete_found:
  assumes "command = pre @ ''rm'' @ gap @ ''-'' @ flags @ ''r'' @ rest"
    and "pre = [] \<or> \<not> is_word_char (last pre)"
    and "list_all is_py_space gap" and "gap \<noteq> []"
    and "list_all (\<lambda>c. c \<notin> {CHR 0x0A, CHR '';'', CHR ''|'', CHR ''&''}) flags"
  shows "\<exists>description. check_dangerous_command command = Some (description, ''rm_recursive'')"
proof -
  let ?s = "command" and ?n = "length pre"
  have w: "is_word_char (CHR ''r'')" by (simp add: is_word_char_def)
  have "rx_match ?s Boundary ?n ?n"
    using assms(1,2) w by (cases "pre = []") (auto simp: boundary_def word_at_def nth_append last_conv_nth)
  moreover have "rx_match ?s (Lits ''rm'') ?n (?n + 2)"
    using match_lits [of pre "''rm''" "gap @ ''-'' @ flags @ ''r'' @ rest"] assms(1) by simp
  moreover have "rx_match ?s (Plus Space) (?n + 2) (?n + 2 + length gap)"
    using match_spaces [of ?s "pre @ ''rm''" gap "''-'' @ flags @ ''r'' @ rest"] assms by simp
  moreover have "rx_match ?s (Lit (CHR ''-'')) (?n + 2 + length gap) (?n + 3 + length gap)"
    using assms(1) by (simp add: nth_append)
  moreover have "rx_match ?s (Star not_separator) (?n + 3 + length gap) (?n + 3 + length gap + length flags)"
    using match_run [of ?s "\<lambda>c. c \<notin> {CHR 0x0A, CHR '';'', CHR ''|'', CHR ''&''}" not_separator
        "pre @ ''rm'' @ gap @ ''-''" flags "''r'' @ rest"] assms
    by (simp add: not_separator_def eval_nat_numeral)
  moreover have "rx_match ?s (Lit (CHR ''r'')) (?n + 3 + length gap + length flags) (?n + 4 + length gap + length flags)"
    using assms(1) by (simp add: nth_append)
  ultimately have "rx_match ?s (Seqs [Boundary, Lits ''rm'', Plus Space, Lit (CHR ''-''), Star not_separator, Lit (CHR ''r'')])
      ?n (?n + 4 + length gap + length flags)"
    unfolding Seqs.simps by (intro match_seq)
  moreover have "?n \<le> length ?s" using assms(1) by simp
  ultimately have "re_search (Seqs [Boundary, Lits ''rm'', Plus Space, Lit (CHR ''-''), Star not_separator, Lit (CHR ''r'')]) ?s"
    using re_search_iff by blast
  then show ?thesis by (simp add: check_dangerous_command_def DANGEROUS_PATTERNS_def)
qed

text \<open>Options that follow the first operand escape the pattern for recursive deletes, and the other patterns.\<close>

lemma Seqs_prefix: "rx_match s (Seqs (rs @ qs)) i j \<Longrightarrow> \<exists>k. rx_match s (Seqs rs) i k"
proof (induction rs arbitrary: i)
  case (Cons r rs)
  then show ?case by (cases rs; cases qs) (auto, blast+)
qed auto

lemma no_search: "\<not> re_search (Seqs rs) s \<Longrightarrow> \<not> re_search (Seqs (rs @ qs)) s"
  unfolding re_search_iff using Seqs_prefix by blast

lemma trailing_option_undetected: "check_dangerous_command ''rm build -rf'' = None"
proof -
  let ?s = "''rm build -rf''"
  have "\<not> re_search (Seqs [Boundary, Lits ''rm'', Plus Space, Lit (CHR ''-'')]) ?s" by code_simp
  note rm = no_search [OF this, of "[Star not_separator, Lit (CHR ''r'')]"]
  have git: "\<not> re_search (Seqs [Boundary, Lits ''git'', Plus Space]) ?s" by code_simp
  note git = no_search [OF git, of "[Lits ''reset'', Plus Space, Lits ''--hard'', Boundary]"]
    no_search [OF git, of "[Lits ''push'', Boundary, Star not_separator, Lits ''--force'']"]
  have "\<not> re_search (Seqs [Boundary, Lits ''chmod'']) ?s" by code_simp
  note chmod = no_search [OF this, of "[Plus Space, Lits ''777'', Boundary]"]
  have "\<not> re_search (Seqs [Boundary, Lits ''curl'']) ?s" by code_simp
  note curl = no_search [OF this, of "[Boundary, Star AnyChar, Lit (CHR ''|''), Star Space, shell_word]"]
  have "\<not> re_search (Seqs [Boundary, Lits ''wget'']) ?s" by code_simp
  note wget = no_search [OF this, of "[Boundary, Star AnyChar, Lit (CHR ''|''), Star Space, shell_word]"]
  have "\<not> re_search (Seqs [start_or_space, Lits ''sudo'']) ?s" by code_simp
  note sudo = no_search [OF this, of "[Alt Space End]"]
  have redirect: "\<not> re_search (Seqs [start_or_space, Plus (Lit (CHR ''>''))]) ?s" by code_simp
  note redirect = no_search [OF redirect, of "[Star Space, Lits ''/etc/'']"]
    no_search [OF redirect, of "[Star Space, Lits ''~/'', AnyChar, Lits ''ssh/'']"]
  have "\<not> re_search (Seqs [Boundary, Lits ''docker'']) ?s" by code_simp
  note docker = no_search [OF this, of "[Plus Space, Lits ''compose'', Plus Space, Lits ''down'', Boundary]"]
  have "\<not> re_search (Seqs [Boundary, Lits ''kill'']) ?s" by code_simp
  note kill = no_search [OF this, of "[Plus Space, Lits ''-9'', Boundary]"]
  show ?thesis
    unfolding check_dangerous_command_def DANGEROUS_PATTERNS_def
    using rm git chmod curl wget sudo redirect docker kill by (simp only: append.simps first_pattern.simps if_False)
qed

end
