(* ===== verification/Tool_Gate.thy ===== *)
theory Tool_Gate
  imports Tool_Registry Tool_Approval
begin

text \<open>
  The gate every tool call of the coding agent passes: the permission mode
  (\<open>core/coding/tool_executor/permissions.py\<close>), the usage policy (\<open>policy.py\<close>) and the execution of
  one call with its events (\<open>executor.py\<close>).
\<close>

section \<open>Permissions\<close>

datatype permission = Allow string | Refuse string string   \<comment> \<open>reason, security event type\<close>

fun allowed :: "permission \<Rightarrow> bool" where
  "allowed (Allow _) = True"
| "allowed (Refuse _ _) = False"

text \<open>Only whether an approval callback exists matters to a decision.\<close>

record permission_checker =
  permission_mode :: string
  write_scope :: "string list"
  plan_mode :: bool
  pc_read_only :: bool
  has_approval_callback :: bool
  approval_policy :: string

fun in_some_scope :: "world \<Rightarrow> path \<Rightarrow> string list \<Rightarrow> permission result" where
  "in_some_scope w requested [] = Inr (Refuse ''write_scope_mismatch'' ''write_scope_guard'')"
| "in_some_scope w requested (raw_scope # rest) =
     ebind (ws_path w raw_scope) (\<lambda>scope. case relative_to requested scope of
         Inr _ \<Rightarrow> Inr (Allow ''write_scope'')
       | Inl _ \<Rightarrow> in_some_scope w requested rest)"

text \<open>The \<open>except ValueError\<close> clause covers the requested path, not the paths of the scope.\<close>

definition check_write_scope :: "permission_checker \<Rightarrow> world \<Rightarrow> pydict \<Rightarrow> permission result" where
  "check_write_scope pc w args = (case ws_path w (get_str args ''path'') of
     Inl e \<Rightarrow> (if value_error e \<noteq> None then Inr (Refuse ''write_scope_mismatch'' ''write_scope_guard'') else Inl e)
   | Inr requested \<Rightarrow> in_some_scope w requested (write_scope pc))"

definition check_mode :: "permission_checker \<Rightarrow> string \<Rightarrow> pydict \<Rightarrow> permission" where
  "check_mode pc name args =
     (if permission_mode pc = ''auto'' then
        (if name = ''run_shell'' \<and> check_dangerous_command (get_str args ''command'') \<noteq> None
         then Allow ''approval_required'' else Allow ''approval_auto'')
      else if permission_mode pc = ''accept_edits'' \<and> name \<in> {''write_file'', ''patch_file''} then Allow ''accept_edits_auto''
      else if permission_mode pc \<in> {''accept_edits'', ''default''} \<and> \<not> has_approval_callback pc then Allow ''approval_required''
      else if approval_policy pc = ''auto'' then Allow ''approval_auto''
      else if \<not> has_approval_callback pc then Allow ''approval_required''
      else Refuse ''approval_denied'' ''approval_denied'')"

definition check_risk :: "permission_checker \<Rightarrow> registered_tool \<Rightarrow> pydict \<Rightarrow> permission" where
  "check_risk pc tool args =
     (if rt_read_only tool then Allow ''read_only''
      else if \<not> rt_requires_approval tool then Allow ''approval_not_required''
      else if pc_read_only pc then Refuse ''approval_denied'' ''read_only_block''
      else if approval_policy pc = ''never'' then Refuse ''approval_denied'' ''approval_denied''
      else if rt_name tool \<in> {''knowledge_learn'', ''remember''} then Allow ''approval_required''
      else check_mode pc (rt_name tool) args)"

definition check_permission :: "permission_checker \<Rightarrow> registered_tool \<Rightarrow> pydict \<Rightarrow> world \<Rightarrow> permission result" where
  "check_permission pc tool args w =
     (if permission_mode pc = ''plan'' \<or> plan_mode pc then
        Inr (if rt_read_only tool then Allow ''plan_read_only'' else Refuse ''plan_mode_tool_not_allowed'' ''plan_mode_write_guard'')
      else if rt_name tool \<in> {''write_file'', ''patch_file''} \<and> write_scope pc \<noteq> [] then
        ebind (check_write_scope pc w args) (\<lambda>d. Inr (if allowed d then check_risk pc tool args else d))
      else Inr (check_risk pc tool args))"

section \<open>Policy\<close>

datatype policy_decision = PolicyOk | PolicyDeny string string   \<comment> \<open>reason, message\<close>

definition SHELL_READ_COMMANDS :: "string list" where
  "SHELL_READ_COMMANDS = [''cat'', ''find'', ''grep'', ''head'', ''less'', ''ls'', ''rg'', ''tail'']"

definition after_slash :: "string \<Rightarrow> string" where
  "after_slash token = rev (takeWhile (\<lambda>c. c \<noteq> CHR ''/'') (rev token))"

fun command_names :: "bool \<Rightarrow> string list \<Rightarrow> string list" where
  "command_names expecting [] = []"
| "command_names expecting (token # rest) =
     (if token \<noteq> [] \<and> list_all is_punct token then command_names True rest
      else if expecting then after_slash token # command_names False rest
      else command_names False rest)"

definition is_ordinary_shell_read :: "string \<Rightarrow> bool" where
  "is_ordinary_shell_read command = (case shlex_tokens command of
     Inl _ \<Rightarrow> False
   | Inr tokens \<Rightarrow> (let names = command_names True tokens in
       names \<noteq> [] \<and> list_all (\<lambda>n. n \<in> set SHELL_READ_COMMANDS) names))"

definition command_start :: rx where
  "command_start = Alt Start (Seq (OneOf '';&|'') (Star Space))"

definition space_or_end :: rx where
  "space_or_end = Alt Space End"

definition contains_root_filesystem_scan :: "string \<Rightarrow> bool" where
  "contains_root_filesystem_scan command =
     re_search (Seqs [command_start, Lits ''find'', Plus Space, Lit (CHR ''/''), space_or_end]) command"

definition option_number :: "string \<Rightarrow> rx" where
  "option_number name = Seqs [Lits name, Alt (Lit (CHR ''='')) (Plus Space), Digit]"

definition total_timeout :: rx where
  "total_timeout = Seq (Alt (Seq (Lits ''--max-time'') (Alt (Lit (CHR ''='')) (Plus Space)))
     (Seqs [Alt Start Space, Lits ''-m'', Star Space])) Digit"

definition network_command_lacks_timeout :: "string \<Rightarrow> bool" where
  "network_command_lacks_timeout command =
     (if re_search (Seqs [command_start, Lits ''curl'', space_or_end]) command
        \<and> (\<not> re_search (option_number ''--connect-timeout'') command \<or> \<not> re_search total_timeout command) then True
      else if re_search (Seqs [command_start, Lits ''wget'', space_or_end]) command
      then \<not> re_search (option_number ''--timeout'') command
      else False)"

text \<open>\<open>_has_fresh_read\<close>: a path that cannot be resolved has no fresh read.\<close>

definition fresh_read :: "world \<Rightarrow> path result \<Rightarrow> bool result" where
  "fresh_read w path =
     (case ebind (has_fresh_read w path) (\<lambda>fresh. if fresh then Inr True else has_self_authored_freshness w path) of
        Inl e \<Rightarrow> (if value_error e \<noteq> None then Inr False else Inl e)
      | Inr fresh \<Rightarrow> Inr fresh)"

definition prior_read_required :: "string \<Rightarrow> string \<Rightarrow> policy_decision" where
  "prior_read_required name path = PolicyDeny ''prior_read_required''
     (''error: '' @ name @ '' requires a fresh read_file of '' @ path @ '' before modifying it'')"

definition check_shell_policy :: "string \<Rightarrow> policy_decision" where
  "check_shell_policy command =
     (if contains_root_filesystem_scan command then PolicyDeny ''shell_root_scan_forbidden''
        ''error: run_shell cannot scan the filesystem root; scope the command to the current workspace or a known subdirectory''
      else if network_command_lacks_timeout command then PolicyDeny ''shell_network_timeout_required''
        ''error: curl/wget requires explicit connect and total timeouts; use curl --connect-timeout N --max-time N or wget --timeout=N''
      else if is_ordinary_shell_read command then PolicyDeny ''shell_search_should_use_tool''
        ''error: run_shell is not for ordinary workspace search/read; use search, read_file, or list_files first''
      else PolicyOk)"

definition check_patch_policy :: "string \<Rightarrow> pydict \<Rightarrow> world \<Rightarrow> policy_decision result" where
  "check_patch_policy name args w =
     ebind (fresh_read w (ws_path w (get_str args ''path''))) (\<lambda>fresh.
     Inr (if fresh then PolicyOk else prior_read_required name (get_str args ''path'')))"

definition check_write_policy :: "string \<Rightarrow> pydict \<Rightarrow> world \<Rightarrow> policy_decision result" where
  "check_write_policy name args w = (case ws_path w (get_str args ''path'') of
     Inl e \<Rightarrow> (case value_error e of Some message \<Rightarrow> Inr (PolicyDeny ''path_invalid'' message) | None \<Rightarrow> Inl e)
   | Inr p \<Rightarrow>
       if path_exists w p \<and> is_file w p
       then ebind (fresh_read w (ws_path_again w p)) (\<lambda>fresh.
         Inr (if fresh then PolicyOk else prior_read_required name (get_str args ''path'')))
       else Inr PolicyOk)"

definition check_policy :: "registered_tool \<Rightarrow> pydict \<Rightarrow> world \<Rightarrow> policy_decision result" where
  "check_policy tool args w =
     (if rt_name tool = ''patch_file'' then check_patch_policy ''patch_file'' args w
      else if rt_name tool = ''write_file'' then check_write_policy ''write_file'' args w
      else if rt_name tool = ''run_shell'' then Inr (check_shell_policy (strip (get_str args ''command'')))
      else Inr PolicyOk)"

section \<open>Executing one call\<close>

datatype tool_event =
    ToolResultEvent string pydict tool_result string string   \<comment> \<open>with the security event type and the policy reason\<close>
  | ApprovalGrantedEvent string
  | ApprovalRequiredEvent string string pydict string string
  | ToolCallEvent string pydict
  | CancelledEvent

datatype sandbox_outcome = SandboxResult tool_result | SandboxPolicyError string | SandboxFailure

text \<open>
  The executor with what it was built from: the sandbox port, when there is one, is an effect on the
  world with an outcome, and \<open>ex_describe\<close> gives the texts of \<open>_approval_description\<close>.
\<close>

record executor =
  ex_tools :: "(string \<times> registered_tool) list"
  ex_lax :: lax
  ex_permissions :: permission_checker
  ex_has_manager :: bool
  ex_session_id :: string
  ex_sandbox :: "(world \<Rightarrow> string \<Rightarrow> pydict \<Rightarrow> world \<times> sandbox_outcome) option"
  ex_describe :: "string \<Rightarrow> string"

text \<open>
  What happens around one call: the answers of \<open>should_stop\<close> before the call, in each second of the wait
  and after the run, the operations other requests perform on the queue in that second, what others
  do to the world during the wait, and the clock.
\<close>

record surroundings =
  su_stop_before :: bool
  su_tick :: "nat \<Rightarrow> bool \<times> approval_op list"
  su_meanwhile :: "world \<Rightarrow> world"
  su_stop_after :: bool
  su_timing :: timing
  su_now :: int
  su_uuid :: string

definition normalize_tool_payload :: "pyval \<Rightarrow> string \<times> pydict" where
  "normalize_tool_payload payload = (case payload of
     PDict d \<Rightarrow> (get_str d ''name'', (case dict_get d ''args'' of PDict a \<Rightarrow> a | _ \<Rightarrow> []))
   | _ \<Rightarrow> ([], []))"

definition SANDBOX_OPERATIONS :: "string list" where
  "SANDBOX_OPERATIONS = [''list_files'', ''read_file'', ''search'', ''write_file'', ''patch_file'', ''run_shell'']"

definition checked_arguments :: "executor \<Rightarrow> world \<Rightarrow> registered_tool \<Rightarrow> string \<Rightarrow> pydict \<Rightarrow> pydict result" where
  "checked_arguments ex w tool name args =
     (if rt_argument_validator tool \<noteq> None then validate_arguments tool args else validate_tool (ex_lax ex) w name args)"

definition approval_metadata :: "executor \<Rightarrow> string \<Rightarrow> pydict \<Rightarrow> string \<times> string" where
  "approval_metadata ex name args =
     (case (if name = ''run_shell'' then check_dangerous_command (get_str args ''command'') else None) of
        Some (description, key) \<Rightarrow> (description, ''shell:'' @ key)
      | None \<Rightarrow> (ex_describe ex name, ''tool:'' @ name))"

definition plain_result :: "string \<Rightarrow> pydict \<Rightarrow> tool_result \<Rightarrow> tool_event" where
  "plain_result name args result = ToolResultEvent name args result [] []"

text \<open>
  \<open>approval_requirement\<close>: what a graph run has to ask before it interrupts; errors other than
  \<open>ValueError\<close> propagate.
\<close>

definition approval_requirement :: "executor \<Rightarrow> world \<Rightarrow> approvals \<Rightarrow> pyval \<Rightarrow> (string \<times> pydict \<times> string \<times> string) option result" where
  "approval_requirement ex w m payload =
     (let (name, raw) = normalize_tool_payload payload in
      case map_of (ex_tools ex) name of
        None \<Rightarrow> Inr None
      | Some tool \<Rightarrow> (case checked_arguments ex w tool name raw of
          Inl e \<Rightarrow> (if value_error e \<noteq> None then Inr None else Inl e)
        | Inr args \<Rightarrow>
            ebind (check_permission (ex_permissions ex) tool args w) (\<lambda>permission.
            if permission \<noteq> Allow ''approval_required'' then Inr None
            else ebind (check_policy tool args w) (\<lambda>policy.
            if policy \<noteq> PolicyOk then Inr None
            else (let (description, key) = approval_metadata ex (rt_name tool) args in
              if ex_has_manager ex \<and> ex_session_id ex \<noteq> [] \<and> is_session_approved m (ex_session_id ex) key then Inr None
              else Inr (Some (rt_name tool, args, description, key)))))))"

text \<open>The wait polls once a second, 300 times at most; \<open>True\<close> means that the run was stopped.\<close>

fun await_decision :: "(nat \<Rightarrow> bool \<times> approval_op list) \<Rightarrow> nat \<Rightarrow> nat \<Rightarrow> approvals \<Rightarrow> nat \<Rightarrow> approvals \<times> bool" where
  "await_decision tick k 0 m r = (m, False)"
| "await_decision tick k (Suc n) m r =
     (if fst (tick k) then (m, True)
      else (let m' = approval_run m (snd (tick k)) in
        if ap_event (am_entries m' ! r) then (m', False) else await_decision tick (Suc k) n m' r))"

definition APPROVAL_WAIT_SECONDS :: nat where
  "APPROVAL_WAIT_SECONDS = 300"

definition approval_events :: "executor \<Rightarrow> surroundings \<Rightarrow> approvals \<Rightarrow> registered_tool \<Rightarrow> pydict \<Rightarrow> approvals \<times> tool_event list" where
  "approval_events ex su m tool args =
     (let name = rt_name tool; refuse = (\<lambda>text. plain_result name args (error_result text)) in
      if \<not> ex_has_manager ex \<or> ex_session_id ex = [] then (m, [refuse ''approval manager is not configured''])
      else (let (description, key) = approval_metadata ex name args in
        if is_session_approved m (ex_session_id ex) key then (m, [ApprovalGrantedEvent name])
        else (let (m1, r) = submit m (su_uuid su) (ex_session_id ex) name args description key None None;
            asked = ApprovalRequiredEvent (ap_id (am_entries m1 ! r)) name args description key;
            (m2, stopped) = await_decision (su_tick su) 0 APPROVAL_WAIT_SECONDS m1 r;
            e = am_entries m2 ! r in
          if stopped then (m2, [asked, refuse ''approval cancelled'', CancelledEvent])
          else if \<not> ap_event e then (m2, [asked, refuse ''approval timed out''])
          else if ap_result e = Some Deny then (m2, [asked, refuse ''approval denied''])
          else (m2, [asked, ApprovalGrantedEvent name]))))"

text \<open>\<open>execute\<close> passes the events of the approval on up to the first that ends the call.\<close>

fun ends_call :: "tool_event \<Rightarrow> bool" where
  "ends_call (ToolResultEvent _ _ _ _ _) = True"
| "ends_call CancelledEvent = True"
| "ends_call _ = False"

fun upto_end :: "tool_event list \<Rightarrow> tool_event list" where
  "upto_end [] = []"
| "upto_end (e # es) = (if ends_call e then [e] else e # upto_end es)"

definition asks :: "tool_event \<Rightarrow> bool" where
  "asks e = (case e of ApprovalRequiredEvent _ _ _ _ _ \<Rightarrow> True | _ \<Rightarrow> False)"

definition granted :: "tool_event list \<Rightarrow> bool" where
  "granted evs = (\<not> list_ex ends_call evs \<and> list_ex (\<lambda>e. case e of ApprovalGrantedEvent _ \<Rightarrow> True | _ \<Rightarrow> False) evs)"

definition sandbox_result :: "sandbox_outcome \<Rightarrow> tool_result" where
  "sandbox_result o' = (case o' of SandboxResult r \<Rightarrow> r | SandboxPolicyError text \<Rightarrow> error_result text
     | SandboxFailure \<Rightarrow> error_result ''sandbox operation failed'')"

definition invoke :: "executor \<Rightarrow> surroundings \<Rightarrow> world \<Rightarrow> registered_tool \<Rightarrow> string \<Rightarrow> pydict \<Rightarrow> world \<times> tool_result" where
  "invoke ex su w tool name args = (case ex_sandbox ex of
     Some sandbox \<Rightarrow>
       if name \<in> set SANDBOX_OPERATIONS then (case sandbox w name args of (w', o') \<Rightarrow> (w', sandbox_result o'))
       else run_tool tool (su_timing su) (su_now su) w args
   | None \<Rightarrow> run_tool tool (su_timing su) (su_now su) w args)"

record call_outcome =
  oc_world :: world
  oc_approvals :: approvals
  oc_events :: "tool_event list"
  oc_raised :: "py_error option"

definition stopped_here :: "world \<Rightarrow> approvals \<Rightarrow> tool_event list \<Rightarrow> call_outcome" where
  "stopped_here w m evs = \<lparr>oc_world = w, oc_approvals = m, oc_events = evs, oc_raised = None\<rparr>"

definition run_call :: "executor \<Rightarrow> surroundings \<Rightarrow> world \<Rightarrow> approvals \<Rightarrow> registered_tool \<Rightarrow> string \<Rightarrow> pydict \<Rightarrow> tool_event list \<Rightarrow> call_outcome" where
  "run_call ex su w m tool name args before =
     (let (w', result) = invoke ex su w tool name args in
      stopped_here w' m (before @ [ToolCallEvent name args,
        if su_stop_after su then CancelledEvent else plain_result name args result]))"

definition approve_and_run ::
  "executor \<Rightarrow> surroundings \<Rightarrow> world \<Rightarrow> approvals \<Rightarrow> registered_tool \<Rightarrow> string \<Rightarrow> pydict \<Rightarrow> string \<Rightarrow> approval_choice option \<Rightarrow> call_outcome" where
  "approve_and_run ex su w m tool name args reason choice =
     (if reason \<noteq> ''approval_required'' then run_call ex su w m tool name args []
      else (case choice of
          Some Deny \<Rightarrow> stopped_here w m [plain_result name args (error_result ''approval denied'')]
        | Some _ \<Rightarrow> run_call ex su w m tool name args [ApprovalGrantedEvent name]
        | None \<Rightarrow> (case approval_events ex su m tool args of (m', evs) \<Rightarrow>
            let w' = (if list_ex asks evs then su_meanwhile su w else w) in
            if granted evs then run_call ex su w' m' tool name args evs
            else stopped_here w' m' (upto_end evs))))"

definition execute :: "executor \<Rightarrow> surroundings \<Rightarrow> world \<Rightarrow> approvals \<Rightarrow> pyval \<Rightarrow> approval_choice option \<Rightarrow> call_outcome" where
  "execute ex su w m payload choice =
     (if su_stop_before su then stopped_here w m [CancelledEvent]
      else (let (name, raw) = normalize_tool_payload payload in
       case map_of (ex_tools ex) name of
         None \<Rightarrow> stopped_here w m [plain_result name raw (error_result (''unknown tool: '' @ name))]
       | Some tool \<Rightarrow> (case checked_arguments ex w tool name raw of
           Inl e \<Rightarrow> (case value_error e of
               Some message \<Rightarrow> stopped_here w m [plain_result name raw (error_result message)]
             | None \<Rightarrow> (stopped_here w m [])\<lparr>oc_raised := Some e\<rparr>)
         | Inr args \<Rightarrow> (case check_permission (ex_permissions ex) tool args w of
             Inl e \<Rightarrow> (stopped_here w m [])\<lparr>oc_raised := Some e\<rparr>
           | Inr (Refuse reason security) \<Rightarrow> stopped_here w m [ToolResultEvent name args (error_result reason) security []]
           | Inr (Allow reason) \<Rightarrow> (case check_policy tool args w of
               Inl e \<Rightarrow> (stopped_here w m [])\<lparr>oc_raised := Some e\<rparr>
             | Inr (PolicyDeny why message) \<Rightarrow> stopped_here w m [ToolResultEvent name args (error_result message) [] why]
             | Inr PolicyOk \<Rightarrow> approve_and_run ex su w m tool name args reason choice)))))"

end
