(* ===== verification/Tool_Guarantees.thy ===== *)
theory Tool_Guarantees
  imports Tool_Gate
begin

text \<open>
  What the gate guarantees: a tool runs only after every check and the decision it needs, the modes
  that run nothing risky, the calls that always ask, and what the file tools can change.
\<close>

section \<open>A call that runs has passed the gate\<close>

definition passed_checks ::
  "executor \<Rightarrow> world \<Rightarrow> pyval \<Rightarrow> registered_tool \<Rightarrow> string \<Rightarrow> pydict \<Rightarrow> string \<Rightarrow> bool" where
  "passed_checks ex w payload tool name args reason \<longleftrightarrow>
     fst (normalize_tool_payload payload) = name \<and> map_of (ex_tools ex) name = Some tool
     \<and> checked_arguments ex w tool name (snd (normalize_tool_payload payload)) = Inr args
     \<and> check_permission (ex_permissions ex) tool args w = Inr (Allow reason) \<and> check_policy tool args w = Inr PolicyOk"

text \<open>A decision on exactly this call: the entry asked for this tool with these arguments, and was not denied.\<close>

definition decided_call :: "approvals \<Rightarrow> nat \<Rightarrow> string \<Rightarrow> string \<Rightarrow> pydict \<Rightarrow> string \<Rightarrow> bool" where
  "decided_call m r session tool args key \<longleftrightarrow> r < length (am_entries m)
     \<and> ap_session_id (am_entries m ! r) = session \<and> ap_tool (am_entries m ! r) = tool \<and> ap_args (am_entries m ! r) = args
     \<and> ap_pattern_key (am_entries m ! r) = key \<and> (\<exists>c. ap_result (am_entries m ! r) = Some c \<and> c \<noteq> Deny)"

definition authorised ::
  "executor \<Rightarrow> approvals \<Rightarrow> approvals \<Rightarrow> registered_tool \<Rightarrow> pydict \<Rightarrow> approval_choice option \<Rightarrow> bool" where
  "authorised ex m m' tool args choice \<longleftrightarrow>
     (\<exists>c. choice = Some c \<and> c \<noteq> Deny)
     \<or> choice = None \<and> ex_has_manager ex \<and> ex_session_id ex \<noteq> []
       \<and> (let key = snd (approval_metadata ex (rt_name tool) args) in
          is_session_approved m (ex_session_id ex) key
          \<or> decided_call m' (length (am_entries m)) (ex_session_id ex) (rt_name tool) args key)"

definition calls :: "tool_event list \<Rightarrow> (string \<times> pydict) list" where
  "calls evs = concat (map (\<lambda>e. case e of ToolCallEvent n a \<Rightarrow> [(n, a)] | _ \<Rightarrow> []) evs)"

lemma calls_simps [simp]:
  "calls [] = []" "calls (es @ fs) = calls es @ calls fs"
  "calls (ToolCallEvent n a # es) = (n, a) # calls es"
  "calls (ToolResultEvent n a r s p # es) = calls es" "calls (ApprovalGrantedEvent n # es) = calls es"
  "calls (ApprovalRequiredEvent i n a d k # es) = calls es" "calls (CancelledEvent # es) = calls es"
  by (simp_all add: calls_def)

lemma calls_plain_result [simp]: "calls (plain_result n a r # es) = calls es"
  by (simp add: plain_result_def)

lemma calls_upto_end: "calls evs = [] \<Longrightarrow> calls (upto_end evs) = []"
  by (induction evs) (auto simp: calls_def split: tool_event.splits)

lemma calls_stopped [simp]: "oc_events (stopped_here w m evs) = evs" "oc_world (stopped_here w m evs) = w"
  "oc_approvals (stopped_here w m evs) = m" "oc_raised (stopped_here w m evs) = None"
  by (simp_all add: stopped_here_def)

lemma await_steps: "approval_step\<^sup>*\<^sup>* m (fst (await_decision tick k n m r))"
proof (induction n arbitrary: k m)
  case (Suc n)
  then show ?case
    using approval_run_steps [of m "snd (tick k)"] rtranclp_trans by (fastforce simp: Let_def)
qed simp

lemma kept_trans: "entries_kept m m' \<Longrightarrow> entries_kept m' m'' \<Longrightarrow> entries_kept m m''"
  by (auto simp: entries_kept_def)

lemma kept_steps: "approval_step\<^sup>*\<^sup>* m m' \<Longrightarrow> approvals_wf m \<Longrightarrow> entries_kept m m' \<and> approvals_wf m'"
proof (induction rule: rtranclp_induct)
  case (step y z)
  then show ?case
    using kept_exec approval_exec_wf kept_trans unfolding approval_step_def by blast
qed simp

lemma submit_anonymous:
  "submit m uuid session tool args description key None None =
     enqueue m (new_entry (''appr_'' @ uuid) session tool args description key None)"
  by (simp add: submit_def)

lemma approval_events_granted:
  assumes "approvals_wf m" and "approval_events ex su m tool args = (m', evs)" and "granted evs"
  shows "authorised ex m m' tool args None \<and> calls evs = []"
proof -
  define key where "key = snd (approval_metadata ex (rt_name tool) args)"
  have conf: "ex_has_manager ex" "ex_session_id ex \<noteq> []"
    using assms(2,3) by (auto simp: approval_events_def granted_def plain_result_def Let_def split: if_splits)
  show ?thesis
  proof (cases "is_session_approved m (ex_session_id ex) key")
    case True
    then show ?thesis
      using assms(2) conf by (auto simp: approval_events_def authorised_def Let_def key_def split: prod.splits)
  next
    case False
    define description where "description = fst (approval_metadata ex (rt_name tool) args)"
    define e where "e = new_entry (''appr_'' @ su_uuid su) (ex_session_id ex) (rt_name tool) args description key None"
    define m1 where "m1 = fst (enqueue m e)"
    obtain m2 stopped where wait: "await_decision (su_tick su) 0 APPROVAL_WAIT_SECONDS m1 (length (am_entries m)) = (m2, stopped)"
      by fastforce
    have meta: "approval_metadata ex (rt_name tool) args = (description, key)" by (simp add: description_def key_def)
    have sub: "submit m (su_uuid su) (ex_session_id ex) (rt_name tool) args description key None None = (m1, length (am_entries m))"
      by (simp add: submit_anonymous m1_def e_def enqueue_def)
    note res = assms(2) [unfolded approval_events_def Let_def meta, simplified sub wait conf False, simplified wait]
    have "\<not> stopped" "ap_event (am_entries m2 ! length (am_entries m))"
      and dec: "ap_result (am_entries m2 ! length (am_entries m)) \<noteq> Some Deny" "m' = m2" "calls evs = []"
      using assms(3) res conf False sub wait by (auto simp: granted_def plain_result_def split: if_splits)
    have m1: "approvals_wf m1" "am_entries m1 = am_entries m @ [e]"
      using wf_enqueue [OF assms(1), of e] by (simp_all add: m1_def e_def enqueue_def)
    have kept: "entries_kept m1 m2" "approvals_wf m2"
      using kept_steps [OF await_steps m1(1)] wait by (metis fst_conv)+
    then have len: "length (am_entries m) < length (am_entries m2)"
      and "asked (am_entries m2 ! length (am_entries m)) = asked e"
      using m1(2) by (auto simp: entries_kept_def)
    moreover have "ap_result (am_entries m2 ! length (am_entries m)) \<noteq> None"
      using wf_event [OF kept(2), of "am_entries m2 ! length (am_entries m)"] len
        \<open>ap_event (am_entries m2 ! length (am_entries m))\<close> by simp
    ultimately have "decided_call m2 (length (am_entries m)) (ex_session_id ex) (rt_name tool) args key"
      using dec(1) by (auto simp: decided_call_def asked_def e_def new_entry_def)
    then show ?thesis using conf dec by (simp add: authorised_def key_def Let_def)
  qed
qed

lemma run_call_calls:
  "calls before = [] \<Longrightarrow> calls (oc_events (run_call ex su w m tool name args before)) = [(name, args)]"
  by (simp add: run_call_def split: prod.split)

lemma approval_events_calls: "calls (snd (approval_events ex su m tool args)) = []"
  by (simp add: approval_events_def plain_result_def Let_def split: prod.split)

lemma asks_plain [simp]: "\<not> asks (plain_result name args r)" "\<not> asks (ToolResultEvent n a r s p)"
  "\<not> asks CancelledEvent" "\<not> asks (ToolCallEvent n a)" "\<not> asks (ApprovalGrantedEvent n)"
  by (simp_all add: asks_def plain_result_def)

lemma asks_run_call: "list_ex asks (oc_events (run_call ex su w m tool name args before)) \<longleftrightarrow> list_ex asks before"
  by (simp add: run_call_def split: prod.split)

lemma execute_early:
  "calls (oc_events (execute ex su w m payload choice)) = [] \<and> oc_world (execute ex su w m payload choice) = w
   \<or> (\<exists>tool args reason. passed_checks ex w payload tool (fst (normalize_tool_payload payload)) args reason
      \<and> execute ex su w m payload choice
        = approve_and_run ex su w m tool (fst (normalize_tool_payload payload)) args reason choice)"
proof -
  obtain name raw where n: "normalize_tool_payload payload = (name, raw)" by fastforce
  show ?thesis
  proof (cases "su_stop_before su \<or> map_of (ex_tools ex) name = None")
    case True
    then show ?thesis by (auto simp: execute_def n)
  next
    case False
    then obtain tool where t: "map_of (ex_tools ex) name = Some tool" "\<not> su_stop_before su" by blast
    note d = execute_def n t passed_checks_def
    show ?thesis
    proof (cases "checked_arguments ex w tool name raw")
      case (Inl e)
      then show ?thesis by (cases "value_error e") (simp_all add: d)
    next
      case (Inr args)
      note a = Inr
      show ?thesis
      proof (cases "check_permission (ex_permissions ex) tool args w")
        case (Inr p)
        then show ?thesis
        proof (cases p)
          case (Allow reason)
          then show ?thesis
            using a Inr by (cases "check_policy tool args w") (simp_all add: d split: policy_decision.split)
        qed (use a Inr in \<open>simp add: d\<close>)
      qed (use a in \<open>simp add: d\<close>)
    qed
  qed
qed

text \<open>Everything a call can do: end before the tool runs, or run it with the checks passed and the decision taken.\<close>

lemma execute_cases:
  assumes "approvals_wf m"
  obtains (ended) "calls (oc_events (execute ex su w m payload choice)) = []"
      and "oc_world (execute ex su w m payload choice) \<in> {w, su_meanwhile su w}"
  | (ran) tool name args reason w' m' before where
      "execute ex su w m payload choice = run_call ex su w' m' tool name args before"
      and "passed_checks ex w payload tool name args reason"
      and "reason = ''approval_required'' \<Longrightarrow> authorised ex m m' tool args choice"
      and "calls before = []" and "w' = (if list_ex asks before then su_meanwhile su w else w)"
proof -
  obtain name raw where n: "normalize_tool_payload payload = (name, raw)" by fastforce
  consider (early) "calls (oc_events (execute ex su w m payload choice)) = []" "oc_world (execute ex su w m payload choice) = w"
    | (gate) tool args reason where "passed_checks ex w payload tool name args reason"
        and "execute ex su w m payload choice = approve_and_run ex su w m tool name args reason choice"
    using execute_early [of ex su w m payload choice] n by auto
  then show ?thesis
  proof cases
    case early
    then show ?thesis using ended by blast
  next
    case gate
    obtain m' evs where e: "approval_events ex su m tool args = (m', evs)" by fastforce
    have c: "calls evs = []" using approval_events_calls [of ex su m tool args] e by simp
    consider (no_need) "reason \<noteq> ''approval_required''" | (chosen) ch where "reason = ''approval_required''" "choice = Some ch" "ch \<noteq> Deny"
      | (denied) "reason = ''approval_required''" "choice = Some Deny" | (wait) "reason = ''approval_required''" "choice = None"
      by (cases choice) auto
    then show ?thesis
    proof cases
      case no_need
      then show ?thesis using ran [OF _ gate(1), of w m "[]"] gate(2) by (simp add: approve_and_run_def)
    next
      case chosen
      then show ?thesis
        using ran [OF _ gate(1), of w m "[ApprovalGrantedEvent name]"] gate(2)
        by (cases ch) (simp_all add: approve_and_run_def authorised_def asks_def)
    next
      case denied
      then show ?thesis using ended gate(2) by (simp add: approve_and_run_def)
    next
      case wait
      show ?thesis
      proof (cases "granted evs")
        case True
        let ?w = "if list_ex asks evs then su_meanwhile su w else w"
        have "execute ex su w m payload choice = run_call ex su ?w m' tool name args evs"
          using gate(2) wait e True by (simp add: approve_and_run_def Let_def)
        then show ?thesis
          using ran [OF _ gate(1), of ?w m' evs] approval_events_granted [OF assms e True] c wait by auto
      next
        case False
        then show ?thesis using ended gate(2) wait e calls_upto_end [OF c] by (simp add: approve_and_run_def Let_def)
      qed
    qed
  qed
qed

text \<open>
  C5: a tool of the coding agent runs only through the whole gate. Either the call ends with no tool
  run and the workspace as it was, up to what others did to it during the wait, or exactly one tool ran:
  the requested one, with validated arguments, allowed by the permission mode and by the policy; and if
  the mode asks for approval, with a decision other than deny: given with the call, taken for the pattern
  in this session before, or taken by the user on exactly this call.
\<close>

theorem tool_runs_only_through_gate:
  assumes "approvals_wf m" and "out = execute ex su w m payload choice"
  shows "calls (oc_events out) = [] \<and> oc_world out \<in> {w, su_meanwhile su w}
    \<or> (\<exists>tool name args reason. calls (oc_events out) = [(name, args)] \<and> passed_checks ex w payload tool name args reason
        \<and> (reason = ''approval_required'' \<longrightarrow> authorised ex m (oc_approvals out) tool args choice))"
using assms(1)
proof (cases rule: execute_cases [where ex = ex and su = su and w = w and payload = payload and choice = choice])
  case ended
  then show ?thesis using assms(2) by simp
next
  case (ran tool name args reason w' m' before)
  have "calls (oc_events out) = [(name, args)]" and "oc_approvals out = m'"
    using run_call_calls [OF ran(4)] ran(1) assms(2) by (simp_all add: run_call_def split: prod.split)
  then show ?thesis using ran(2,3) by blast
qed

section \<open>Modes\<close>

lemma ran_call:
  assumes "approvals_wf m" and "calls (oc_events (execute ex su w m payload choice)) = [(name, args)]"
  obtains tool reason w' m' before where
      "execute ex su w m payload choice = run_call ex su w' m' tool name args before"
      and "passed_checks ex w payload tool name args reason"
      and "reason = ''approval_required'' \<Longrightarrow> authorised ex m m' tool args choice"
      and "w' = (if list_ex asks before then su_meanwhile su w else w)"
using assms(1)
proof (cases rule: execute_cases [where ex = ex and su = su and w = w and payload = payload and choice = choice])
  case ended
  then show ?thesis using assms(2) by simp
next
  case (ran tool name' args' reason w' m' before)
  have "name' = name" "args' = args" using run_call_calls [OF ran(4)] ran(1) assms(2) by simp_all
  then show ?thesis using ran that by blast
qed

lemma oc_run_call [simp]: "oc_approvals (run_call ex su w m tool name args before) = m"
  "oc_world (run_call ex su w m tool name args before) = fst (invoke ex su w tool name args)"
  by (simp_all add: run_call_def split: prod.split)

text \<open>
  C29: a session in plan mode runs only tools that are not risky, and a read-only session or one whose
  policy is to never approve runs a risky tool only if the tool needs no approval, whatever was approved.
\<close>

theorem locked_sessions_run_nothing_risky:
  assumes "approvals_wf m" and "calls (oc_events (execute ex su w m payload choice)) = [(name, args)]"
  shows "\<exists>tool. map_of (ex_tools ex) name = Some tool
    \<and> (permission_mode (ex_permissions ex) = ''plan'' \<or> plan_mode (ex_permissions ex) \<longrightarrow> \<not> rt_risky tool)
    \<and> (pc_read_only (ex_permissions ex) \<or> approval_policy (ex_permissions ex) = ''never''
        \<longrightarrow> \<not> rt_risky tool \<or> \<not> rt_requires_approval tool)"
proof (rule ran_call [OF assms])
  fix tool reason w' m' before
  assume p: "passed_checks ex w payload tool name args reason"
  then have "check_permission (ex_permissions ex) tool args w = Inr (Allow reason)"
    by (simp add: passed_checks_def)
  then have "check_risk (ex_permissions ex) tool args = Allow reason
      \<or> (permission_mode (ex_permissions ex) = ''plan'' \<or> plan_mode (ex_permissions ex)) \<and> \<not> rt_risky tool"
    and "permission_mode (ex_permissions ex) = ''plan'' \<or> plan_mode (ex_permissions ex) \<longrightarrow> \<not> rt_risky tool"
    by (auto simp: check_permission_def rt_read_only_def split: if_splits)
  moreover have "\<not> rt_risky tool \<or> \<not> rt_requires_approval tool"
    if "check_risk (ex_permissions ex) tool args = Allow reason"
      "pc_read_only (ex_permissions ex) \<or> approval_policy (ex_permissions ex) = ''never''"
    using that by (auto simp: check_risk_def rt_read_only_def split: if_splits)
  ultimately show ?thesis using p by (auto simp: passed_checks_def)
qed

section \<open>Calls that always ask\<close>

lemma registry_tool:
  "map_of (build_tool_registry lax others) name = Some tool \<Longrightarrow>
     \<exists>d \<in> set (TOOL_DEFINITIONS @ [tool_search_definition]). tool = register lax others d \<and> td_name d = name"
  unfolding build_tool_registry_def by (drule map_of_SomeD) auto

lemma shell_tool: "map_of (build_tool_registry lax others) ''run_shell'' = Some (register lax others shell_tool_def)"
  by (simp add: build_tool_registry_def TOOL_DEFINITIONS_def file_tool_defs_def shell_tool_def_def define_tool_def)

lemma register_sel [simp]:
  "rt_name (register lax others d) = td_name d" "rt_risky (register lax others d) = td_risky d"
  "rt_requires_approval (register lax others d) = (case td_requires_approval d of None \<Rightarrow> td_risky d | Some b \<Rightarrow> b)"
  "rt_argument_validator (register lax others d) = None"
  "rt_runner (register lax others d) = make_runner lax others (td_name d)"
  by (simp_all add: register_def)

lemma shell_def_sel [simp]: "td_name shell_tool_def = ''run_shell''" "td_risky shell_tool_def"
  "td_requires_approval shell_tool_def = None"
  by (simp_all add: shell_tool_def_def define_tool_def)

text \<open>A command that matches one of the dangerous patterns is decided on under the key of the first pattern it matches.\<close>

lemma dangerous_command_needs_decision:
  assumes "approvals_wf m" and "ex_tools ex = build_tool_registry lax others"
    and "permission_mode (ex_permissions ex) \<in> {''default'', ''accept_edits'', ''auto'', ''plan''}"
    and "\<not> has_approval_callback (ex_permissions ex)"
    and "calls (oc_events (execute ex su w m payload choice)) = [(''run_shell'', args)]"
    and d: "check_dangerous_command (get_str args ''command'') = Some (description, key)"
  shows "(\<exists>c. choice = Some c \<and> c \<noteq> Deny)
    \<or> is_session_approved m (ex_session_id ex) (''shell:'' @ key)
    \<or> decided_call (oc_approvals (execute ex su w m payload choice)) (length (am_entries m)) (ex_session_id ex)
        ''run_shell'' args (''shell:'' @ key)"
proof (rule ran_call [OF assms(1,5)])
  fix tool reason w' m' before
  assume run: "execute ex su w m payload choice = run_call ex su w' m' tool ''run_shell'' args before"
    and p: "passed_checks ex w payload tool ''run_shell'' args reason"
    and a: "reason = ''approval_required'' \<Longrightarrow> authorised ex m m' tool args choice"
  have tool: "tool = register lax others shell_tool_def"
    using p assms(2) shell_tool by (simp add: passed_checks_def)
  have "check_permission (ex_permissions ex) tool args w = Inr (Allow reason)" using p by (simp add: passed_checks_def)
  then have "reason = ''approval_required''"
    using assms(3,4) d by (auto simp: tool check_permission_def check_risk_def check_mode_def rt_read_only_def split: if_splits)
  then show ?thesis using a run d tool by (auto simp: authorised_def approval_metadata_def Let_def)
qed

text \<open>
  C19: a command that deletes recursively and says so right after \<open>rm\<close> needs a decision. In every mode of
  a session that has no approval callback, a shell command in which \<open>rm\<close>, at its start or after a character that is
  not a word character, is followed by white space, a dash and, before the next newline, semicolon, bar or
  ampersand, an \<open>r\<close>, runs only with the user's decision: given with the call, a standing approval of recursive
  deletes in this session, or taken on exactly this command. Options that come after the first operand, as
  in \<open>rm build -rf\<close>, are not covered (see \<open>trailing_option_escapes\<close>).
\<close>

theorem recursive_delete_needs_decision:
  assumes "approvals_wf m" and "ex_tools ex = build_tool_registry lax others"
    and "permission_mode (ex_permissions ex) \<in> {''default'', ''accept_edits'', ''auto'', ''plan''}"
    and "\<not> has_approval_callback (ex_permissions ex)"
    and "calls (oc_events (execute ex su w m payload choice)) = [(''run_shell'', args)]"
    and "get_str args ''command'' = pre @ ''rm'' @ gap @ ''-'' @ flags @ ''r'' @ rest"
    and "pre = [] \<or> \<not> is_word_char (last pre)" and "list_all is_py_space gap" and "gap \<noteq> []"
    and "list_all (\<lambda>c. c \<notin> {CHR 0x0A, CHR '';'', CHR ''|'', CHR ''&''}) flags"
  shows "(\<exists>c. choice = Some c \<and> c \<noteq> Deny)
    \<or> is_session_approved m (ex_session_id ex) ''shell:rm_recursive''
    \<or> decided_call (oc_approvals (execute ex su w m payload choice)) (length (am_entries m)) (ex_session_id ex)
        ''run_shell'' args ''shell:rm_recursive''"
proof -
  obtain description where "check_dangerous_command (get_str args ''command'') = Some (description, ''rm_recursive'')"
    using recursive_delete_found [OF assms(6-10)] by blast
  from dangerous_command_needs_decision [OF assms(1-5) this] show ?thesis by simp
qed

text \<open>With the option after the operand no pattern matches, and a session in auto mode runs the command unasked.\<close>

lemma trailing_option_escapes:
  assumes "permission_mode pc = ''auto''" and "\<not> plan_mode pc" and "\<not> pc_read_only pc" and "approval_policy pc \<noteq> ''never''"
    and "get_str args ''command'' = ''rm build -rf''"
  shows "check_permission pc (register lax others shell_tool_def) args w = Inr (Allow ''approval_auto'')"
  using assms trailing_option_undetected by (simp add: check_permission_def check_risk_def check_mode_def rt_read_only_def)

text \<open>
  Requests are honest about the memory tools when only a request for such a tool carries its pattern
  key, as the executor's own requests do.
\<close>

definition MEMORY_KEYS :: "string list" where
  "MEMORY_KEYS = [''tool:knowledge_learn'', ''tool:remember'']"

fun honest_request :: "approval_op \<Rightarrow> bool" where
  "honest_request (ASubmit _ _ tool _ _ key _ _) = (key \<in> set MEMORY_KEYS \<longrightarrow> tool \<in> set MEMORY_TOOLS)"
| "honest_request (ARestore _ payload) =
     (get_str payload ''pattern_key'' \<in> set MEMORY_KEYS \<longrightarrow> get_str payload ''tool'' \<in> set MEMORY_TOOLS)"
| "honest_request _ = True"

definition honest_board :: "approvals \<Rightarrow> bool" where
  "honest_board m \<longleftrightarrow> (\<forall>e \<in> set (am_entries m). ap_pattern_key e \<in> set MEMORY_KEYS \<longrightarrow> ap_tool e \<in> set MEMORY_TOOLS)"

lemma honest_submit:
  assumes "honest_board m" and "key \<in> set MEMORY_KEYS \<longrightarrow> tool \<in> set MEMORY_TOOLS"
  shows "honest_board (fst (submit m uuid session tool args description key aid run))"
proof (cases "submit m uuid session tool args description key aid run" rule: prod.exhaust)
  case (Pair m' r)
  then have "honest_board m'"
    using assms by (cases rule: submit_cases) (auto simp: honest_board_def enqueue_def)
  then show ?thesis using Pair by simp
qed

lemma honest_resolve: "honest_board m \<Longrightarrow> approvals_wf m \<Longrightarrow> honest_board (fst (resolve m session aid choice))"
proof (cases "find_entry_locked m session aid")
  case (Some r)
  assume h: "honest_board m" and wf: "approvals_wf m"
  have "r < length (am_entries m)" using approvals_wf_queueD [OF wf] find_entry_SomeD [OF Some] by blast
  then have "am_entries m ! r \<in> set (am_entries m)" by simp
  then show ?thesis
    using h Some set_update_subset_insert [of "am_entries m" r "decide (narrowed (am_entries m ! r) choice) (am_entries m ! r)"]
    by (auto simp: honest_board_def resolve_def Let_def)
qed (simp add: resolve_def)

lemma honest_exec:
  assumes "honest_board m" and "approvals_wf m" and "honest_request op"
  shows "honest_board (approval_exec m op)"
proof (cases op)
  case (ARestore uuid payload)
  show ?thesis
  proof (cases "restore_pending m uuid payload")
    case (Inr x)
    then show ?thesis
      using assms ARestore honest_submit [OF assms(1)] by (auto simp: restore_pending_def simp del: fst_conv split: if_splits)
  qed (use assms ARestore in simp)
next
  case (ACancel session)
  then show ?thesis using assms by (auto simp: honest_board_def cancel_session_def Let_def)
next
  case (ASubmit uuid session tool args description key aid run)
  then show ?thesis using honest_submit [OF assms(1)] assms(3) by simp
next
  case (AResolve session aid choice)
  then show ?thesis using honest_resolve [OF assms(1,2)] by simp
next
  case (AConsume session aid)
  then show ?thesis using assms(1) by (simp add: honest_board_def consume_resolution_def Let_def)
qed

lemma honest_run:
  "list_all honest_request ops \<Longrightarrow> honest_board (approval_run new_approvals ops)"
proof (induction ops rule: rev_induct)
  case Nil
  then show ?case by (simp add: approval_run_def new_approvals_def honest_board_def)
next
  case (snoc op ops)
  then show ?case
    using honest_exec approval_run_wf [OF approvals_wf_new, of ops] by (simp add: approval_run_def)
qed

lemma memory_never_standing:
  assumes "list_all honest_request ops" and "key \<in> set MEMORY_KEYS"
  shows "\<not> is_session_approved (approval_run new_approvals ops) session key"
proof
  let ?m = "approval_run new_approvals ops"
  assume "is_session_approved ?m session key"
  then have "approved_pattern ?m (session, key)" by (simp add: approved_pattern_def)
  moreover have "\<not> approved_pattern new_approvals (session, key)"
    by (simp add: approved_pattern_def is_session_approved_def new_approvals_def)
  ultimately obtain r where "approval_subject ?m r = Some (session, key)"
    using board.permission_from_decision [OF approval_run_steps approvals_wf_new] by blast
  then show False
    using honest_run [OF assms(1)] assms(2) by (auto simp: approval_subject_def honest_board_def split: if_splits)
qed

text \<open>
  C10: a tool that changes what the agent remembers is never run on a standing approval. In every mode,
  after any history of requests, each of its calls runs only with a decision given with the call or taken
  by the user on exactly this call.
\<close>

theorem memory_tools_always_ask:
  assumes "list_all honest_request ops" and "m = approval_run new_approvals ops"
    and "ex_tools ex = build_tool_registry lax others" and "name \<in> set MEMORY_TOOLS"
    and "calls (oc_events (execute ex su w m payload choice)) = [(name, args)]"
  shows "(\<exists>c. choice = Some c \<and> c \<noteq> Deny)
    \<or> decided_call (oc_approvals (execute ex su w m payload choice)) (length (am_entries m)) (ex_session_id ex)
        name args (''tool:'' @ name)"
proof -
  have wf: "approvals_wf m" using assms(2) approval_run_wf by simp
  show ?thesis
  proof (rule ran_call [OF wf assms(5)])
    fix tool reason w' m' before
    assume run: "execute ex su w m payload choice = run_call ex su w' m' tool name args before"
      and p: "passed_checks ex w payload tool name args reason"
      and a: "reason = ''approval_required'' \<Longrightarrow> authorised ex m m' tool args choice"
    have tool: "rt_name tool = name" "rt_risky tool" "rt_requires_approval tool"
      using p assms(3,4)
      by (auto simp: passed_checks_def build_tool_registry_def TOOL_DEFINITIONS_def file_tool_defs_def shell_tool_def_def
          todo_tool_defs_def plan_tool_defs_def agent_tool_defs_def travel_tool_defs_def memory_tool_defs_def knowledge_tool_defs_def
          define_tool_def MEMORY_TOOLS_def)
    have "check_permission (ex_permissions ex) tool args w = Inr (Allow reason)" using p by (simp add: passed_checks_def)
    then have "reason = ''approval_required''"
      using assms(4) tool by (auto simp: check_permission_def check_risk_def rt_read_only_def MEMORY_TOOLS_def split: if_splits)
    moreover have "snd (approval_metadata ex name args) = ''tool:'' @ name"
      using assms(4) by (auto simp: approval_metadata_def MEMORY_TOOLS_def)
    moreover have "\<not> is_session_approved m (ex_session_id ex) (''tool:'' @ name)"
      using memory_never_standing [OF assms(1)] assms(2,4) by (auto simp: MEMORY_KEYS_def MEMORY_TOOLS_def)
    ultimately show ?thesis using a run tool by (auto simp: authorised_def Let_def)
  qed
qed

section \<open>What the file tools change\<close>



lemma mark_self_authored_fs: "mark_self_authored w p = Inr w' \<Longrightarrow> fs_node w' = fs_node w"
  by (auto simp: mark_self_authored_def)

lemma written_fs [simp]: "fs_node (fst (written w p text)) = fs_node w"
  by (auto simp: written_def dest: mark_self_authored_fs split: sum.split)






text \<open>The call reaches the handler with the arguments the gate has checked.\<close>

lemma run_registered:
  assumes "tool = register lax others d" and "td_name d = name" and "validate_tool lax w' name args = Inr args'"
  shows "fst (run_tool tool timing now w' args) = (if timing = StillQueued then w' else fst (handler_of others name now w' args'))"
  using assms by (simp add: run_tool_def validate_arguments_def make_runner_def split: prod.split)


definition up_to_date :: "world \<Rightarrow> path \<Rightarrow> bool" where
  "up_to_date w p \<longleftrightarrow> read_fingerprints w p = Some (fingerprint w p) \<or> self_authored_fingerprints w p = Some (fingerprint w p)"












lemma file_tool_def:
  assumes "map_of (build_tool_registry lax others) name = Some tool" and "name \<in> {''read_file'', ''write_file'', ''patch_file''}"
  obtains d where "tool = register lax others d" and "td_name d = name" and "find_definition name = Some d"
    and "\<exists>f \<in> set (td_fields d). f_name f = ''path'' \<and> f_type f = TStr" and "td_risky d \<longleftrightarrow> name \<noteq> ''read_file''"
    and "name = ''patch_file'' \<longrightarrow> (\<exists>f \<in> set (td_fields d). f_name f = ''old_text'' \<and> f_type f = TStr \<and> f_check f = not_empty ''old_text'')"
  using assms(2)
proof (elim insertE emptyE)
  assume n: "name = ''read_file''"
  show thesis
    by (rule that [of "(define_tool ''read_file'' False ReadFileArgs ''file'' False)\<lparr>td_model_check := end_ge_start\<rparr>"])
      (use assms(1) n in \<open>auto simp: build_tool_registry_def tool_table_defs find_definition_def fetchone_def define_tool_def
        ReadFileArgs_def plain_def checked_def\<close>)
next
  assume n: "name = ''write_file''"
  show thesis
    by (rule that [of "define_tool ''write_file'' True WriteFileArgs ''file'' False"])
      (use assms(1) n in \<open>auto simp: build_tool_registry_def tool_table_defs find_definition_def fetchone_def define_tool_def
        WriteFileArgs_def plain_def checked_def\<close>)
next
  assume n: "name = ''patch_file''"
  show thesis
    by (rule that [of "define_tool ''patch_file'' True PatchFileArgs ''file'' False"])
      (use assms(1) n in \<open>auto simp: build_tool_registry_def tool_table_defs find_definition_def fetchone_def define_tool_def
        PatchFileArgs_def plain_def checked_def\<close>)
qed







section \<open>A sample workspace and its calls\<close>

definition sample_lax :: lax where
  "sample_lax t v = (if has_type t v then Inr v else Inl ''Input should be valid'')"

lemma sample_lax_ok [simp]: "lax_ok sample_lax"
  by (simp add: lax_ok_def sample_lax_def)

definition directory :: fnode where
  "directory = \<lparr>n_kind = IsDirectory, n_text = [], n_utf8 = True, n_mtime_ns = 1, n_size = 0\<rparr>"

definition sample_file :: fnode where
  "sample_file = \<lparr>n_kind = IsFile, n_text = ''x = 1'', n_utf8 = True, n_mtime_ns = 7, n_size = 5\<rparr>"

definition sample_nodes :: "(path \<times> fnode) list" where
  "sample_nodes = [([], directory), ([''ws''], directory), ([''ws'', ''a.py''], sample_file)]"

definition sample_world :: world where
  "sample_world = \<lparr>ws_root = [''ws''], fs_resolve = Inr, fs_node = map_of sample_nodes,
     read_fingerprints = [[''ws'', ''a.py''] \<mapsto> (True, 7, 5)], self_authored_fingerprints = (\<lambda>_. None)\<rparr>"

definition sample_executor :: "string \<Rightarrow> executor" where
  "sample_executor mode = \<lparr>ex_tools = build_tool_registry sample_lax (\<lambda>_ _ w _. (w, Inr (ok_result ''done''))), ex_lax = sample_lax,
     ex_permissions = \<lparr>permission_mode = mode, write_scope = [''.''], plan_mode = False, pc_read_only = False,
       has_approval_callback = False, approval_policy = []\<rparr>,
     ex_has_manager = True, ex_session_id = ''s1'', ex_sandbox = None, ex_describe = (\<lambda>_. ''Confirm.'')\<rparr>"

definition quiet :: surroundings where
  "quiet = \<lparr>su_stop_before = False, su_tick = (\<lambda>_. (False, [])), su_meanwhile = id, su_stop_after = False, su_timing = InTime,
     su_now = 9, su_uuid = ''u''\<rparr>"

text \<open>The user allows the waiting request, for the whole session, in the second second of the wait.\<close>

definition deciding :: surroundings where
  "deciding = quiet\<lparr>su_tick := (\<lambda>k. (False, if k = 1 then [AResolve ''s1'' ''appr_u'' Always] else []))\<rparr>"

definition call_payload :: "string \<Rightarrow> (string \<times> string) list \<Rightarrow> pyval" where
  "call_payload name args = PDict [(PStr ''name'', PStr name), (PStr ''args'', PDict (map (\<lambda>(k, v). (PStr k, PStr v)) args))]"

definition patch_args :: pydict where
  "patch_args = [(PStr ''path'', PStr ''a.py''), (PStr ''old_text'', PStr ''1''), (PStr ''new_text'', PStr ''2'')]"

definition patch_payload :: pyval where
  "patch_payload = PDict [(PStr ''name'', PStr ''patch_file''), (PStr ''args'', PDict patch_args)]"

definition patched_world :: call_outcome where
  "patched_world = execute (sample_executor ''auto'') quiet sample_world new_approvals patch_payload None"


lemma patch_tool: "map_of (build_tool_registry lax others) ''patch_file''
    = Some (register lax others (define_tool ''patch_file'' True PatchFileArgs ''file'' False))"
  by (simp add: build_tool_registry_def tool_table_defs define_tool_def)

lemma patch_definition: "find_definition ''patch_file'' = Some (define_tool ''patch_file'' True PatchFileArgs ''file'' False)"
  by (simp add: find_definition_def fetchone_def tool_table_defs define_tool_def)

lemma sample_path: "ws_path sample_world ''a.py'' = Inr [''ws'', ''a.py'']"
  by code_simp

lemma sample_scope: "ws_path sample_world ''.'' = Inr [''ws'']"
  by code_simp

lemma sample_arguments: "validate_tool_arguments sample_lax ''patch_file'' patch_args = Inr patch_args"
  unfolding validate_tool_arguments_def patch_definition
  by (simp add: model_validate_def define_tool_def PatchFileArgs_def field_value_def sample_lax_def patch_args_def
      plain_def checked_def not_empty_def)

lemma sample_count: "count_sub ''1'' ''x = 1'' = 1"
  by code_simp

lemma sample_args: "arg patch_args ''path'' = ''a.py''" "arg patch_args ''old_text'' = ''1''" "arg patch_args ''new_text'' = ''2''"
  "get_str patch_args ''path'' = ''a.py''"
  by code_simp+

lemma sample_is_file: "is_file sample_world [''ws'', ''a.py'']" "read_text sample_world [''ws'', ''a.py''] = Inr ''x = 1''"
  by code_simp+

lemma sample_validated: "validate_tool sample_lax sample_world ''patch_file'' patch_args = Inr patch_args"
  by (simp add: validate_tool_def validate_tool_preflight_def sample_arguments check_workspace_def sample_args sample_path
      sample_is_file sample_count WORKSPACE_PATH_TOOLS_def)

lemma sample_permission:
  "check_permission (ex_permissions (sample_executor ''auto'')) (register sample_lax others (define_tool ''patch_file'' True PatchFileArgs ''file'' False))
     patch_args sample_world = Inr (Allow ''approval_auto'')"
  by (simp add: check_permission_def sample_executor_def check_write_scope_def sample_args sample_path sample_scope relative_to_def
      check_risk_def rt_read_only_def check_mode_def define_tool_def)

lemma sample_fresh_read: "fresh_read sample_world (ws_path sample_world ''a.py'') = Inr True"
  unfolding sample_path by code_simp

lemma sample_policy: "check_policy (register sample_lax others (define_tool ''patch_file'' True PatchFileArgs ''file'' False)) patch_args sample_world
    = Inr PolicyOk"
  by (simp add: check_policy_def check_patch_policy_def sample_args sample_fresh_read define_tool_def)


lemma sample_payload: "normalize_tool_payload patch_payload = (''patch_file'', patch_args)"
  by (simp add: normalize_tool_payload_def patch_payload_def get_str_def dict_get_def)

lemma sample_patch_run:
  "execute (sample_executor ''auto'') quiet sample_world new_approvals patch_payload None
     = run_call (sample_executor ''auto'') quiet sample_world new_approvals
         (register sample_lax (\<lambda>_ _ w _. (w, Inr (ok_result ''done''))) (define_tool ''patch_file'' True PatchFileArgs ''file'' False))
         ''patch_file'' patch_args []"
  by (simp add: execute_def sample_payload sample_executor_def patch_tool checked_arguments_def sample_validated
      sample_permission [unfolded sample_executor_def, simplified] sample_policy quiet_def approve_and_run_def)

lemma sample_patch_called: "calls (oc_events patched_world) = [(''patch_file'', patch_args)]"
  unfolding patched_world_def sample_patch_run by (simp add: run_call_calls)


definition plan_payload :: pyval where
  "plan_payload = PDict [(PStr ''name'', PStr ''todo_list'')]"

lemma sample_plan_run:
  "calls (oc_events (execute (sample_executor ''plan'') quiet sample_world new_approvals plan_payload None)) = [(''todo_list'', [])]"
proof -
  have t: "map_of (build_tool_registry lax others) ''todo_list'' = Some (register lax others (define_tool ''todo_list'' False [] ''todo'' True))"
    "find_definition ''todo_list'' = Some (define_tool ''todo_list'' False [] ''todo'' True)" for lax others
    by (simp_all add: build_tool_registry_def find_definition_def fetchone_def tool_table_defs define_tool_def)
  have v: "validate_tool sample_lax sample_world ''todo_list'' [] = Inr []"
    by (simp add: validate_tool_def validate_tool_preflight_def validate_tool_arguments_def t model_validate_def WORKSPACE_PATH_TOOLS_def
        check_workspace_def define_tool_def)
  have "normalize_tool_payload plan_payload = (''todo_list'', [])"
    by (simp add: normalize_tool_payload_def plan_payload_def get_str_def dict_get_def)
  then show ?thesis
    by (simp add: execute_def sample_executor_def t checked_arguments_def v check_permission_def rt_read_only_def check_policy_def
        define_tool_def quiet_def approve_and_run_def run_call_calls)
qed

definition delete_args :: pydict where
  "delete_args = [(PStr ''command'', PStr ''rm -rf build''), (PStr ''timeout'', PInt 20)]"

definition delete_payload :: pyval where
  "delete_payload = PDict [(PStr ''name'', PStr ''run_shell''), (PStr ''args'', PDict delete_args)]"

lemma delete_allowed: "check_shell_policy ''rm -rf build'' = PolicyOk"
  by code_simp

lemma delete_found: "check_dangerous_command ''rm -rf build'' = Some (''Recursive delete command requires approval.'', ''rm_recursive'')"
  by code_simp

lemma sample_delete_run:
  "calls (oc_events (execute (sample_executor ''auto'') quiet sample_world new_approvals delete_payload (Some Once)))
     = [(''run_shell'', delete_args)]"
proof -
  have f: "find_definition ''run_shell'' = Some shell_tool_def"
    by (simp add: find_definition_def fetchone_def tool_table_defs define_tool_def)
  have st: "strip ''rm -rf build'' = ''rm -rf build''" by code_simp
  then have s: "get_str delete_args ''command'' = ''rm -rf build''" "strip (get_str delete_args ''command'') = ''rm -rf build''"
    by (simp_all add: delete_args_def get_str_def)
  then have v: "validate_tool sample_lax sample_world ''run_shell'' delete_args = Inr delete_args"
    by (simp add: validate_tool_def validate_tool_preflight_def validate_tool_arguments_def f model_validate_def WORKSPACE_PATH_TOOLS_def
        check_workspace_def shell_tool_def_def define_tool_def RunShellArgs_def field_value_def sample_lax_def delete_args_def get_str_def
        checked_def not_blank_def timeout_in_range_def int_in_def is_pyint_def)
  have "normalize_tool_payload delete_payload = (''run_shell'', delete_args)"
    by (simp add: normalize_tool_payload_def delete_payload_def get_str_def dict_get_def)
  then show ?thesis
    by (simp add: execute_def sample_executor_def shell_tool checked_arguments_def v check_permission_def rt_read_only_def check_risk_def
        check_mode_def check_policy_def s st delete_found delete_allowed quiet_def approve_and_run_def run_call_calls)
qed

definition remember_args :: pydict where
  "remember_args = [(PStr ''fact'', PStr ''ok''), (PStr ''topic'', PStr ''decisions'')]"

definition remember_payload :: pyval where
  "remember_payload = PDict [(PStr ''name'', PStr ''remember''), (PStr ''args'', PDict remember_args)]"

lemma approve_granted:
  assumes "granted (snd (approval_events ex su m tool args))"
  shows "calls (oc_events (approve_and_run ex su w m tool name args ''approval_required'' None)) = [(name, args)]"
  using assms approval_events_calls [of ex su m tool args]
  by (cases "approval_events ex su m tool args") (simp add: approve_and_run_def run_call_calls Let_def)

lemma sample_executor_sel:
  "ex_tools (sample_executor mode) = build_tool_registry sample_lax (\<lambda>_ _ w _. (w, Inr (ok_result ''done'')))"
  "ex_lax (sample_executor mode) = sample_lax" "permission_mode (ex_permissions (sample_executor mode)) = mode"
  "plan_mode (ex_permissions (sample_executor mode)) = False" "pc_read_only (ex_permissions (sample_executor mode)) = False"
  "approval_policy (ex_permissions (sample_executor mode)) = []"
  by (simp_all add: sample_executor_def)

lemma sample_remember_run:
  "calls (oc_events (execute (sample_executor ''auto'') deciding sample_world (approval_run new_approvals []) remember_payload None))
     = [(''remember'', remember_args)]"
proof -
  define d where "d = (define_tool ''remember'' True RememberArgs ''memory'' True)\<lparr>td_requires_approval := Some True\<rparr>"
  have t: "map_of (build_tool_registry lax others) ''remember'' = Some (register lax others d)"
    "find_definition ''remember'' = Some d" for lax others
    by (simp_all add: d_def build_tool_registry_def find_definition_def fetchone_def tool_table_defs define_tool_def)
  have "strip ''ok'' = ''ok''" by code_simp
  then have v: "validate_tool sample_lax sample_world ''remember'' remember_args = Inr remember_args"
    by (simp add: validate_tool_def validate_tool_preflight_def validate_tool_arguments_def t model_validate_def WORKSPACE_PATH_TOOLS_def
        check_workspace_def d_def define_tool_def RememberArgs_def field_value_def sample_lax_def remember_args_def
        checked_def not_blank_def memory_topic_def one_of_def)
  have "normalize_tool_payload remember_payload = (''remember'', remember_args)"
    by (simp add: normalize_tool_payload_def remember_payload_def get_str_def dict_get_def)
  moreover have "granted (snd (approval_events (sample_executor ''auto'') deciding new_approvals (register lax others d) remember_args))" for lax others
    by (simp add: approval_events_def sample_executor_def d_def define_tool_def approval_metadata_def is_session_approved_def
        new_approvals_def submit_anonymous enqueue_def APPROVAL_WAIT_SECONDS_def eval_nat_numeral deciding_def quiet_def approval_run_def
        resolve_def find_entry_locked_def fetchone_def new_entry_def decide_def narrowed_def granted_def Let_def)
  moreover have "\<not> su_stop_before deciding" by (simp add: deciding_def quiet_def)
  moreover have "approval_run new_approvals [] = new_approvals" by (simp add: approval_run_def)
  ultimately show ?thesis
    using approve_granted
    by (simp add: execute_def sample_executor_sel t checked_arguments_def v check_permission_def rt_read_only_def check_risk_def
        check_policy_def) (simp add: d_def define_tool_def)
qed

lemma sample_sandbox: "ex_sandbox (sample_executor mode) = None"
  by (simp add: sample_executor_def)


text \<open>The properties at these calls.\<close>

lemma tool_runs_only_through_gate_witness:
  "\<exists>tool reason. passed_checks (sample_executor ''auto'') sample_world patch_payload tool ''patch_file'' patch_args reason"
  using tool_runs_only_through_gate [OF approvals_wf_new patched_world_def] sample_patch_called by auto

lemma locked_sessions_run_nothing_risky_witness:
  "\<exists>tool. map_of (ex_tools (sample_executor ''plan'')) ''todo_list'' = Some tool \<and> \<not> rt_risky tool"
  using locked_sessions_run_nothing_risky [OF approvals_wf_new sample_plan_run] by (auto simp: sample_executor_sel)

lemma recursive_delete_needs_decision_witness:
  "\<exists>c. Some Once = Some c \<and> c \<noteq> Deny"
  using recursive_delete_needs_decision [where lax = sample_lax and others = "\<lambda>_ _ w _. (w, Inr (ok_result ''done''))"
      and pre = "[]" and gap = "'' ''" and flags = "[]" and rest = "''f build''", OF approvals_wf_new _ _ _ sample_delete_run]
  by (simp add: sample_executor_sel delete_args_def get_str_def)

lemma memory_tools_always_ask_witness:
  "decided_call (oc_approvals (execute (sample_executor ''auto'') deciding sample_world (approval_run new_approvals []) remember_payload None))
     0 ''s1'' ''remember'' remember_args ''tool:remember''"
  using memory_tools_always_ask [where lax = sample_lax and others = "\<lambda>_ _ w _. (w, Inr (ok_result ''done''))", OF _ refl _ _ sample_remember_run]
  by (simp add: sample_executor_sel MEMORY_TOOLS_def approval_run_def new_approvals_def sample_executor_def)



lemma validated_arguments_typed_witness:
  "map fst patch_args = [PStr ''path'', PStr ''old_text'', PStr ''new_text'']"
  using validated_arguments_typed [OF lax_ok_stable [OF sample_lax_ok] patch_definition sample_validated]
  by (simp add: define_tool_def PatchFileArgs_def plain_def checked_def)

section \<open>Where the gate falls short\<close>

text \<open>A call that asked and ran, ran in the world as it was after the wait.\<close>

lemma asked_ran:
  assumes "calls (oc_events (execute ex su w m payload choice)) = [(name, args)]"
    and "list_ex asks (oc_events (execute ex su w m payload choice))"
  obtains tool reason m' evs where
    "execute ex su w m payload choice = run_call ex su (su_meanwhile su w) m' tool name args evs"
    and "passed_checks ex w payload tool name args reason"
proof -
  obtain tool args' reason where p: "passed_checks ex w payload tool (fst (normalize_tool_payload payload)) args' reason"
    and e: "execute ex su w m payload choice
      = approve_and_run ex su w m tool (fst (normalize_tool_payload payload)) args' reason choice"
    using execute_early [of ex su w m payload choice] assms(1) by auto
  let ?n = "fst (normalize_tool_payload payload)"
  obtain m' evs where ev: "approval_events ex su m tool args' = (m', evs)" by fastforce
  have c: "calls evs = []" using approval_events_calls [of ex su m tool args'] ev by simp
  have r: "reason = ''approval_required''" "choice = None" "granted evs"
    using e assms c calls_upto_end [OF c] ev
    by (auto simp: approve_and_run_def asks_run_call Let_def split: if_splits option.splits approval_choice.splits)
  have "list_ex asks evs"
    using e assms(2) r ev by (auto simp: approve_and_run_def asks_run_call Let_def split: if_splits)
  then have run: "execute ex su w m payload choice = run_call ex su (su_meanwhile su w) m' tool ?n args' evs"
    using e r ev by (simp add: approve_and_run_def Let_def)
  then have "?n = name" "args' = args" using assms(1) run_call_calls [OF c] by simp_all
  then show thesis using that run p by blast
qed

text \<open>
  C30: the check that a file is unchanged since the agent saw it is made before the wait for approval and
  not again after it. When someone else edits the file while an approval of a write is pending, an
  approved write that gets to run replaces the edited file all the same.
\<close>

theorem approved_write_overwrites_later_edit:
  assumes "lax_ok (ex_lax ex)" and "ex_tools ex = build_tool_registry (ex_lax ex) others" and "ex_sandbox ex = None"
    and "calls (oc_events (execute ex su w m payload choice)) = [(''write_file'', args)]"
    and "list_ex asks (oc_events (execute ex su w m payload choice))"
    and "ws_path (su_meanwhile su w) (get_str args ''path'') = Inr p" and "is_file (su_meanwhile su w) p"
    and "list_all (\<lambda>k. is_dir (su_meanwhile su w) (take k (butlast p))) [0..<Suc (length (butlast p))]"
    and "\<not> up_to_date (su_meanwhile su w) p" and "su_timing su \<noteq> StillQueued"
  shows "\<exists>n. fs_node (oc_world (execute ex su w m payload choice)) p = Some n \<and> n_text n = arg args ''content''"
proof (rule asked_ran [OF assms(4,5)])
  fix tool reason m' evs
  let ?w = "su_meanwhile su w"
  assume run: "execute ex su w m payload choice = run_call ex su ?w m' tool ''write_file'' args evs"
    and p: "passed_checks ex w payload tool ''write_file'' args reason"
  have "map_of (build_tool_registry (ex_lax ex) others) ''write_file'' = Some tool"
    using p assms(2) by (simp add: passed_checks_def)
  then obtain d where d: "tool = register (ex_lax ex) others d" "td_name d = ''write_file''" "find_definition ''write_file'' = Some d"
    "\<exists>f \<in> set (td_fields d). f_name f = ''path'' \<and> f_type f = TStr"
    by (rule file_tool_def) auto
  have v: "validate_tool (ex_lax ex) w ''write_file'' (snd (normalize_tool_payload payload)) = Inr args"
    using p d(1) by (simp add: passed_checks_def checked_arguments_def)
  note a = arguments_validated [OF assms(1) d(3) tool_arguments [OF v]]
  obtain s where "map_of args (PStr ''path'') = Some (PStr s)"
    using d(4) a(2) by (fastforce simp: field_ok_def elim: is_pystrE)
  then have s: "get_str args ''path'' = arg args ''path''"
    by (simp add: get_str_def arg_def dict_get_def)
  have path: "ws_path ?w (arg args ''path'') = Inr p" using assms(6) s by simp
  have there: "\<not> is_dir ?w p" "path_exists ?w p"
    using assms(7) by (auto simp: is_dir_def is_file_def path_exists_def split: option.splits)
  have "validate_tool (ex_lax ex) ?w ''write_file'' args = Inr args"
    using a(3) path there by (simp add: validate_tool_def validate_tool_preflight_def check_workspace_def)
  then have world: "oc_world (execute ex su w m payload choice) = fst (write_file (su_now su) ?w args)"
    using run assms(3,10) run_registered [OF d(1,2)] by (simp add: invoke_def handler_of_def)
  have parents: "is_dir ?w (take k (butlast p))" if "k \<le> length (butlast p)" for k
    using assms(8) that by (simp add: list_all_iff less_Suc_eq_le del: upt_Suc)
  have "fs_node ?w q \<noteq> None" if "take (length q) (butlast p) = q" for q
  proof -
    have "length q \<le> length (butlast p)" using that by (metis length_take min.absorb_iff2)
    then show ?thesis using parents [of "length q"] that by (cases "fs_node ?w q") (simp_all add: is_dir_def)
  qed
  then have same: "(\<lambda>q. if fs_node ?w q = None \<and> take (length q) (butlast p) = q
      then Some \<lparr>n_kind = IsDirectory, n_text = [], n_utf8 = True, n_mtime_ns = su_now su, n_size = 0\<rparr> else fs_node ?w q) = fs_node ?w"
    by (intro ext) auto
  have "\<not> list_ex (\<lambda>k. path_exists ?w (take k (butlast p)) \<and> \<not> is_dir ?w (take k (butlast p))) [0..<Suc (length (butlast p))]"
    using parents by (simp add: list_ex_iff less_Suc_eq_le del: upt_Suc)
  then have dirs: "make_dirs (su_now su) (butlast p) ?w = Inr ?w"
    unfolding make_dirs_def same by simp
  have "is_dir ?w (butlast p)" using parents [of "length (butlast p)"] by simp
  then obtain w2 where "write_text (su_now su) p (arg args ''content'') ?w = Inr w2"
    and n: "map_option n_text (fs_node w2 p) = Some (arg args ''content'')"
    using there by (simp add: write_text_def)
  then have "fs_node (fst (write_file (su_now su) ?w args)) = fs_node w2"
    using path dirs by (simp add: write_file_def)
  then show ?thesis using n world by auto
qed

text \<open>The user edits the file while the approval of a write is pending, and then approves the write.\<close>

definition write_args :: pydict where
  "write_args = [(PStr ''path'', PStr ''a.py''), (PStr ''content'', PStr ''y'')]"

definition write_payload :: pyval where
  "write_payload = PDict [(PStr ''name'', PStr ''write_file''), (PStr ''args'', PDict write_args)]"

definition edited :: "world \<Rightarrow> world" where
  "edited w = w\<lparr>fs_node := (fs_node w)([''ws'', ''a.py''] \<mapsto> sample_file\<lparr>n_text := ''x = 1; z = 3'', n_mtime_ns := 8, n_size := 12\<rparr>)\<rparr>"

definition editing :: surroundings where
  "editing = deciding\<lparr>su_meanwhile := edited\<rparr>"

lemma approve_asked:
  assumes "granted (snd (approval_events ex su m tool args))" and "list_ex asks (snd (approval_events ex su m tool args))"
  shows "list_ex asks (oc_events (approve_and_run ex su w m tool name args ''approval_required'' None))"
  using assms by (cases "approval_events ex su m tool args") (simp add: approve_and_run_def asks_run_call Let_def)

lemma sample_write_run:
  "calls (oc_events (execute (sample_executor ''default'') editing sample_world new_approvals write_payload None)) = [(''write_file'', write_args)]"
  "list_ex asks (oc_events (execute (sample_executor ''default'') editing sample_world new_approvals write_payload None))"
proof -
  define d where "d = define_tool ''write_file'' True WriteFileArgs ''file'' False"
  have t: "map_of (build_tool_registry lax others) ''write_file'' = Some (register lax others d)"
    "find_definition ''write_file'' = Some d" for lax others
    by (simp_all add: d_def build_tool_registry_def find_definition_def fetchone_def tool_table_defs define_tool_def)
  have a: "arg write_args ''path'' = ''a.py''" "get_str write_args ''path'' = ''a.py''" by code_simp+
  have f: "\<not> is_dir sample_world [''ws'', ''a.py'']" by code_simp
  have "validate_tool_arguments sample_lax ''write_file'' write_args = Inr write_args"
    unfolding validate_tool_arguments_def t
    by (simp add: d_def model_validate_def define_tool_def WriteFileArgs_def field_value_def sample_lax_def write_args_def plain_def)
  then have v: "validate_tool sample_lax sample_world ''write_file'' write_args = Inr write_args"
    by (simp add: validate_tool_def validate_tool_preflight_def check_workspace_def a sample_path f)
  have "normalize_tool_payload write_payload = (''write_file'', write_args)"
    by (simp add: normalize_tool_payload_def write_payload_def get_str_def dict_get_def)
  moreover have "check_permission (ex_permissions (sample_executor ''default'')) (register lax others d) write_args sample_world
      = Inr (Allow ''approval_required'')" for lax others
    by (simp add: check_permission_def sample_executor_def check_write_scope_def a sample_path sample_scope relative_to_def
        check_risk_def rt_read_only_def check_mode_def d_def define_tool_def)
  moreover have "check_policy (register lax others d) write_args sample_world = Inr PolicyOk" for lax others
  proof -
    have "fresh_read sample_world (ws_path_again sample_world [''ws'', ''a.py'']) = Inr True" by code_simp
    then show ?thesis by (simp add: check_policy_def check_write_policy_def a sample_path d_def define_tool_def)
  qed
  moreover have g: "granted (snd (approval_events (sample_executor ''default'') editing new_approvals (register lax others d) write_args))"
    "list_ex asks (snd (approval_events (sample_executor ''default'') editing new_approvals (register lax others d) write_args))" for lax others
    by (simp_all add: approval_events_def sample_executor_def d_def define_tool_def approval_metadata_def is_session_approved_def
        new_approvals_def submit_anonymous enqueue_def APPROVAL_WAIT_SECONDS_def eval_nat_numeral editing_def deciding_def quiet_def
        approval_run_def resolve_def find_entry_locked_def fetchone_def new_entry_def decide_def narrowed_def granted_def asks_def Let_def)
  moreover have "\<not> su_stop_before editing" by (simp add: editing_def deciding_def quiet_def)
  moreover have "rt_argument_validator (register lax others d) = None" for lax others by simp
  ultimately have e: "execute (sample_executor ''default'') editing sample_world new_approvals write_payload None
      = approve_and_run (sample_executor ''default'') editing sample_world new_approvals
          (register sample_lax (\<lambda>_ _ w _. (w, Inr (ok_result ''done''))) d) ''write_file'' write_args ''approval_required'' None"
    by (simp add: execute_def sample_executor_sel t checked_arguments_def v)
  show "calls (oc_events (execute (sample_executor ''default'') editing sample_world new_approvals write_payload None)) = [(''write_file'', write_args)]"
    unfolding e by (rule approve_granted [OF g(1)])
  show "list_ex asks (oc_events (execute (sample_executor ''default'') editing sample_world new_approvals write_payload None))"
    unfolding e by (rule approve_asked [OF g])
qed

lemma approved_write_overwrites_later_edit_witness:
  "map_option n_text (fs_node (edited sample_world) [''ws'', ''a.py'']) = Some ''x = 1; z = 3''
   \<and> (\<exists>n. fs_node (oc_world (execute (sample_executor ''default'') editing sample_world new_approvals write_payload None)) [''ws'', ''a.py'']
       = Some n \<and> n_text n = ''y'')"
proof -
  have m: "su_meanwhile editing sample_world = edited sample_world" by (simp add: editing_def)
  have "ws_path (edited sample_world) (get_str write_args ''path'') = Inr [''ws'', ''a.py'']" by code_simp
  moreover have "is_file (edited sample_world) [''ws'', ''a.py'']" by code_simp
  moreover have "list_all (\<lambda>k. is_dir (edited sample_world) (take k (butlast [''ws'', ''a.py''])))
      [0..<Suc (length (butlast [''ws'', ''a.py'']))]" by code_simp
  moreover have "\<not> up_to_date (edited sample_world) [''ws'', ''a.py'']"
    by (simp add: up_to_date_def edited_def sample_world_def fingerprint_def)
  moreover have "arg write_args ''content'' = ''y''" by code_simp
  moreover have "su_timing editing \<noteq> StillQueued" by (simp add: editing_def deciding_def quiet_def)
  ultimately show ?thesis
    using approved_write_overwrites_later_edit [where others = "\<lambda>_ _ w _. (w, Inr (ok_result ''done''))",
        OF _ _ sample_sandbox sample_write_run, unfolded m]
    by (auto simp: sample_executor_sel edited_def)
qed

text \<open>
  A command line of two lines is lexed as one command, so its second command escapes the read-only test.
\<close>

theorem second_line_counts_as_read: "is_ordinary_shell_read (''ls'' @ [CHR 0x0A] @ ''make'')"
  by code_simp

text \<open>A wait that nobody answers ends with an error, and its request stays the pending one of the session.\<close>

lemma await_nobody: "(\<And>k. tick k = (False, [])) \<Longrightarrow> \<not> ap_event (am_entries m ! r) \<Longrightarrow> await_decision tick k n m r = (m, False)"
  by (induction n arbitrary: k) (simp_all add: approval_run_def)

theorem unanswered_request_stays_pending:
  assumes "ex_has_manager ex" and "ex_session_id ex = session" and "session \<noteq> []" and "am_queues m session = []"
    and "\<not> is_session_approved m session (snd (approval_metadata ex (rt_name tool) args))"
    and "\<And>k. su_tick su k = (False, [])"
  shows "\<exists>e. pending (fst (approval_events ex su m tool args)) session = Some e \<and> ap_tool e = rt_name tool \<and> ap_args e = args
    \<and> last (snd (approval_events ex su m tool args)) = plain_result (rt_name tool) args (error_result ''approval timed out'')"
proof -
  obtain description key where k: "approval_metadata ex (rt_name tool) args = (description, key)" by fastforce
  show ?thesis
    using assms k
    by (simp add: approval_events_def submit_anonymous enqueue_def await_nobody pending_def Let_def)
      (simp add: new_entry_def)
qed

end
